theory Spec2Isabelle
  imports Complex_Main
begin

section \<open>The JavaScript runtime the wallpaper functions run on\<close>

text \<open>
  The repository is JavaScript: \<^verbatim>\<open>api/wallpaper.js\<close> (two revisions: the one with the text
  label, called \<open>handler\<close> below, and the plain one, \<open>handler_plain\<close>) and
  \<^verbatim>\<open>scripts/generate-overlays.js\<close> (two revisions as well). Its arithmetic is on
  Number values (IEEE 754 binary64) and on Date objects, so the embedding starts with
  the parts of ECMA-262 the code relies on. Each runtime function carries the name of
  the abstract operation or built-in it models.
\<close>

subsection \<open>Number values\<close>

text \<open>
  A Number is NaN, an infinity, or a finite binary64 value, carried as the rational it
  denotes. The sign of zero is not carried: the program never divides by a computed
  zero and prints zero through \<^verbatim>\<open>String\<close> and \<^verbatim>\<open>toFixed\<close> only, which do not
  show it.
\<close>

datatype jsnum = NaN | PInf | NInf | Fin rat

text \<open>Round to nearest integer, ties to even.\<close>

definition rne :: "rat \<Rightarrow> int" where
  "rne x = (let f = \<lfloor>x\<rfloor>; r = x - of_int f in
     if r < 1 / 2 then f else if 1 / 2 < r then f + 1 else if even f then f else f + 1)"

text \<open>The number of binary digits of a positive integer.\<close>

function bitlen :: "int \<Rightarrow> nat" where
  "bitlen n = (if 0 < n then Suc (bitlen (n div 2)) else 0)"
  by pat_completeness auto
termination
  by (relation "measure nat") auto

declare bitlen.simps [simp del]

text \<open>The binary exponent of a positive rational: \<open>2 powi e \<le> a < 2 powi (e + 1)\<close>.\<close>

definition ilog2 :: "rat \<Rightarrow> int" where
  "ilog2 a = (case quotient_of a of (p, q) \<Rightarrow>
     let d = int (bitlen p) - int (bitlen q)
     in if 2 powi d \<le> a then d else d - 1)"

text \<open>
  \<open>fl\<close> rounds a real result to binary64, to nearest and ties to even: 53 significant
  bits, the quantum \<open>2 powi (- 1074)\<close> below the normal range, an infinity from
  \<open>2 powi 1024\<close> on.
\<close>

definition fl :: "rat \<Rightarrow> jsnum" where
  "fl x = (if x = 0 then Fin 0 else
     let a = \<bar>x\<bar>; e = max (ilog2 a) (- 1022); u = 2 powi (e - 52);
         v = of_int (rne (a / u)) * u
     in if 2 powi 1024 \<le> v then (if 0 < x then PInf else NInf) else Fin (sgn x * v))"

definition js_neg :: "jsnum \<Rightarrow> jsnum" where
  "js_neg a = (case a of NaN \<Rightarrow> NaN | PInf \<Rightarrow> NInf | NInf \<Rightarrow> PInf | Fin x \<Rightarrow> Fin (- x))"

fun js_add :: "jsnum \<Rightarrow> jsnum \<Rightarrow> jsnum" where
  "js_add NaN b = NaN"
| "js_add a NaN = NaN"
| "js_add (Fin x) (Fin y) = fl (x + y)"
| "js_add PInf NInf = NaN"
| "js_add NInf PInf = NaN"
| "js_add PInf b = PInf"
| "js_add NInf b = NInf"
| "js_add (Fin x) b = b"

definition js_sub :: "jsnum \<Rightarrow> jsnum \<Rightarrow> jsnum" where
  "js_sub a b = js_add a (js_neg b)"

text \<open>The sign of a product or quotient with an infinite operand; a zero counts as positive.\<close>

definition negative :: "jsnum \<Rightarrow> bool" where
  "negative a = (case a of NInf \<Rightarrow> True | Fin x \<Rightarrow> x < 0 | _ \<Rightarrow> False)"

definition signed_inf :: "bool \<Rightarrow> jsnum" where
  "signed_inf neg = (if neg then NInf else PInf)"

definition is_inf :: "jsnum \<Rightarrow> bool" where
  "is_inf a = (a = PInf \<or> a = NInf)"

fun js_mul :: "jsnum \<Rightarrow> jsnum \<Rightarrow> jsnum" where
  "js_mul NaN b = NaN"
| "js_mul a NaN = NaN"
| "js_mul (Fin x) (Fin y) = fl (x * y)"
| "js_mul a b =
     (if a = Fin 0 \<or> b = Fin 0 then NaN else signed_inf (negative a \<noteq> negative b))"

fun js_div :: "jsnum \<Rightarrow> jsnum \<Rightarrow> jsnum" where
  "js_div NaN b = NaN"
| "js_div a NaN = NaN"
| "js_div (Fin x) (Fin y) =
     (if y = 0 then (if x = 0 then NaN else signed_inf (x < 0)) else fl (x / y))"
| "js_div (Fin x) b = Fin 0"
| "js_div a (Fin y) = signed_inf (negative a \<noteq> (y < 0))"
| "js_div a b = NaN"

text \<open>Truncation toward zero, as in ToIntegerOrInfinity and in the remainder.\<close>

definition trunc :: "rat \<Rightarrow> int" where
  "trunc x = (if 0 \<le> x then \<lfloor>x\<rfloor> else \<lceil>x\<rceil>)"

text \<open>The remainder operator \<^verbatim>\<open>%\<close>: the result has the sign of the dividend and is exact.\<close>

fun js_rem :: "jsnum \<Rightarrow> jsnum \<Rightarrow> jsnum" where
  "js_rem (Fin x) (Fin y) = (if y = 0 then NaN else Fin (x - y * of_int (trunc (x / y))))"
| "js_rem (Fin x) PInf = Fin x"
| "js_rem (Fin x) NInf = Fin x"
| "js_rem a b = NaN"

text \<open>Strict equality \<^verbatim>\<open>===\<close> and \<^verbatim>\<open>!==\<close> on Numbers: NaN equals nothing.\<close>

definition js_seq :: "jsnum \<Rightarrow> jsnum \<Rightarrow> bool" where
  "js_seq a b = (a \<noteq> NaN \<and> a = b)"

definition js_sne :: "jsnum \<Rightarrow> jsnum \<Rightarrow> bool" where
  "js_sne a b = (\<not> js_seq a b)"

definition Math_floor :: "jsnum \<Rightarrow> jsnum" where
  "Math_floor a = (case a of Fin x \<Rightarrow> Fin (of_int \<lfloor>x\<rfloor>) | _ \<Rightarrow> a)"

definition Math_ceil :: "jsnum \<Rightarrow> jsnum" where
  "Math_ceil a = (case a of Fin x \<Rightarrow> Fin (of_int \<lceil>x\<rceil>) | _ \<Rightarrow> a)"

text \<open>\<^verbatim>\<open>Math.round\<close>: the nearest integer, a tie going up.\<close>

definition Math_round :: "jsnum \<Rightarrow> jsnum" where
  "Math_round a = (case a of Fin x \<Rightarrow> Fin (of_int \<lfloor>x + 1 / 2\<rfloor>) | _ \<Rightarrow> a)"

definition num :: "int \<Rightarrow> jsnum" where
  "num n = Fin (of_int n)"


subsection \<open>Strings and conversions between Numbers and strings\<close>

text \<open>
  A string is the list of its code units; the model covers strings whose code units are
  below 256. \<open>split_on\<close> is \<^verbatim>\<open>String.prototype.split\<close> with a one-character
  separator, \<open>padStart\<close> is \<^verbatim>\<open>String.prototype.padStart\<close> with a one-character filler.
\<close>

fun split_on :: "char \<Rightarrow> string \<Rightarrow> string list" where
  "split_on c [] = [[]]"
| "split_on c (x # xs) =
     (if x = c then [] # split_on c xs
      else (case split_on c xs of [] \<Rightarrow> [[x]] | w # ws \<Rightarrow> (x # w) # ws))"

definition padStart :: "nat \<Rightarrow> char \<Rightarrow> string \<Rightarrow> string" where
  "padStart n c s = replicate (n - length s) c @ s"

text \<open>The decimal digits of a non-negative integer.\<close>

function digits10 :: "int \<Rightarrow> string" where
  "digits10 n =
     (if n < 10 then [''0123456789'' ! nat n]
      else digits10 (n div 10) @ [''0123456789'' ! nat (n mod 10)])"
  by pat_completeness auto
termination
  by (relation "measure nat") auto

declare digits10.simps [simp del]

text \<open>
  \<^verbatim>\<open>Number::toString\<close> in radix 10. For NaN, the infinities and the integers below
  \<open>2 ^ 53\<close> in magnitude the result is fixed by the standard: the decimal digits. For
  every other value the standard leaves the last digit to the engine; \<open>general\<close> stands
  for what the engine prints there.
\<close>

definition Number_toString :: "(rat \<Rightarrow> string) \<Rightarrow> jsnum \<Rightarrow> string" where
  "Number_toString general a =
     (case a of NaN \<Rightarrow> ''NaN'' | PInf \<Rightarrow> ''Infinity'' | NInf \<Rightarrow> ''-Infinity''
      | Fin x \<Rightarrow>
          if of_int \<lfloor>x\<rfloor> = x \<and> \<bar>x\<bar> < 2 ^ 53
          then (if x < 0 then ''-'' else []) @ digits10 \<bar>\<lfloor>x\<rfloor>\<bar>
          else general x)"

text \<open>
  \<^verbatim>\<open>Number.prototype.toFixed(f)\<close> for \<open>0 \<le> f \<le> 100\<close>: the integer \<open>n\<close> with
  \<open>n / 10 ^ f\<close> nearest to the value (the larger one on a tie), printed with \<open>f\<close>
  digits after the point.
\<close>

definition Number_toFixed :: "(rat \<Rightarrow> string) \<Rightarrow> jsnum \<Rightarrow> nat \<Rightarrow> string" where
  "Number_toFixed general a f =
     (case a of
        Fin x0 \<Rightarrow>
          let s = (if x0 < 0 then ''-'' else []); x = \<bar>x0\<bar> in
          if 10 ^ 21 \<le> x then s @ Number_toString general (Fin x)
          else
            let n = \<lfloor>x * 10 ^ f + 1 / 2\<rfloor>;
                m = digits10 n;
                m = (if f \<noteq> 0 \<and> length m \<le> f then replicate (f + 1 - length m) CHR ''0'' @ m else m);
                k = length m
            in if f \<noteq> 0 then s @ take (k - f) m @ ''.'' @ drop (k - f) m else s @ m
      | _ \<Rightarrow> Number_toString general a)"

text \<open>
  \<^verbatim>\<open>Number(s)\<close> on a string, the StringToNumber grammar: white space is trimmed, the
  empty string is 0, then a signed decimal literal (with fraction and exponent),
  \<^verbatim>\<open>Infinity\<close>, or an unsigned binary, octal or hexadecimal integer literal; anything
  else is NaN. The mathematical value is rounded by \<open>fl\<close>.
\<close>

definition is_ws :: "char \<Rightarrow> bool" where
  "is_ws c = ((of_char c :: nat) \<in> {9, 10, 11, 12, 13, 32, 160})"

definition trim :: "string \<Rightarrow> string" where
  "trim s = rev (dropWhile is_ws (rev (dropWhile is_ws s)))"

definition is_digit :: "char \<Rightarrow> bool" where
  "is_digit c = (48 \<le> (of_char c :: nat) \<and> (of_char c :: nat) \<le> 57)"

text \<open>The value of a digit in a radix up to 16; \<open>None\<close> when the character is no such digit.\<close>

definition digit_val :: "int \<Rightarrow> char \<Rightarrow> int option" where
  "digit_val radix c =
     (let k = (of_char c :: int);
          v = (if 48 \<le> k \<and> k \<le> 57 then Some (k - 48)
               else if 97 \<le> k \<and> k \<le> 102 then Some (k - 87)
               else if 65 \<le> k \<and> k \<le> 70 then Some (k - 55)
               else None)
      in case v of Some d \<Rightarrow> (if d < radix then Some d else None) | None \<Rightarrow> None)"

fun digits_val :: "int \<Rightarrow> int \<Rightarrow> string \<Rightarrow> int option" where
  "digits_val radix acc [] = Some acc"
| "digits_val radix acc (c # cs) =
     (case digit_val radix c of None \<Rightarrow> None
      | Some d \<Rightarrow> digits_val radix (radix * acc + d) cs)"

text \<open>A non-empty run of digits, all of the string.\<close>

definition all_digits :: "int \<Rightarrow> string \<Rightarrow> int option" where
  "all_digits radix s = (if s = [] then None else digits_val radix 0 s)"

definition NonDecimalIntegerLiteral :: "string \<Rightarrow> int option" where
  "NonDecimalIntegerLiteral s =
     (case s of
        c0 # c1 # ds \<Rightarrow>
          if c0 \<noteq> CHR ''0'' then None
          else if c1 = CHR ''x'' \<or> c1 = CHR ''X'' then all_digits 16 ds
          else if c1 = CHR ''o'' \<or> c1 = CHR ''O'' then all_digits 8 ds
          else if c1 = CHR ''b'' \<or> c1 = CHR ''B'' then all_digits 2 ds
          else None
      | _ \<Rightarrow> None)"

text \<open>The exponent part, \<^verbatim>\<open>e\<close> or \<^verbatim>\<open>E\<close> with a signed integer; an empty rest is exponent 0.\<close>

definition ExponentPart :: "string \<Rightarrow> int option" where
  "ExponentPart s =
     (case s of [] \<Rightarrow> Some 0
      | c # r \<Rightarrow>
          if c \<noteq> CHR ''e'' \<and> c \<noteq> CHR ''E'' then None
          else (case r of
                  [] \<Rightarrow> None
                | d # r' \<Rightarrow>
                    if d = CHR ''+'' then all_digits 10 r'
                    else if d = CHR ''-'' then map_option uminus (all_digits 10 r')
                    else all_digits 10 r))"

definition StrUnsignedDecimalLiteral :: "string \<Rightarrow> jsnum option" where
  "StrUnsignedDecimalLiteral s =
     (if s = ''Infinity'' then Some PInf
      else
        let ip = takeWhile is_digit s; r1 = dropWhile is_digit s;
            dot = (r1 \<noteq> [] \<and> hd r1 = CHR ''.'');
            fp = (if dot then takeWhile is_digit (tl r1) else []);
            r2 = (if dot then dropWhile is_digit (tl r1) else r1)
        in if ip = [] \<and> fp = [] then None
           else (case (digits_val 10 0 ip, digits_val 10 0 fp, ExponentPart r2) of
                   (Some i, Some f, Some e) \<Rightarrow>
                     Some (fl ((of_int i + of_int f / 10 ^ length fp) * 10 powi e))
                 | _ \<Rightarrow> None))"

definition StrDecimalLiteral :: "string \<Rightarrow> jsnum option" where
  "StrDecimalLiteral s =
     (case s of
        [] \<Rightarrow> None
      | c # r \<Rightarrow>
          if c = CHR ''+'' then StrUnsignedDecimalLiteral r
          else if c = CHR ''-'' then map_option js_neg (StrUnsignedDecimalLiteral r)
          else StrUnsignedDecimalLiteral s)"

definition Number_of_string :: "string \<Rightarrow> jsnum" where
  "Number_of_string s =
     (let t = trim s in
      if t = [] then Fin 0
      else (case StrDecimalLiteral t of
              Some v \<Rightarrow> v
            | None \<Rightarrow> (case NonDecimalIntegerLiteral t of
                          Some n \<Rightarrow> fl (of_int n)
                        | None \<Rightarrow> NaN)))"


subsection \<open>The host\<close>

text \<open>
  What the functions read from their environment. The host's local time zone is taken
  at a fixed offset \<open>LocalTZA\<close> (in milliseconds, east of UTC positive; ECMA-262 keeps
  a zone's offset below a day in magnitude): a host whose zone changes its offset during
  a year is outside the model. \<open>now\<close> is the time value of
  \<^verbatim>\<open>new Date()\<close>. \<open>formatToParts tz t\<close> is
  \<^verbatim>\<open>new Intl.DateTimeFormat('en-CA', {timeZone: tz, year: 'numeric', month: '2-digit', day: '2-digit'}).formatToParts(t)\<close>
  as a list of (type, value) pairs, \<open>None\<close> when the constructor or the call throws (an
  invalid or unsupported time zone name is a RangeError). \<open>existsSync\<close> is
  \<^verbatim>\<open>fs.existsSync\<close> on a file name inside the overlays directory, \<open>readFont\<close> is
  \<^verbatim>\<open>fs.readFileSync(FONT_PATH).toString('base64')\<close> (\<open>Inl\<close> the message of the error
  thrown), \<open>toBuffer\<close> is the whole sharp pipeline run by \<^verbatim>\<open>toBuffer()\<close> (\<open>Inl\<close> the message
  of the error it throws or rejects with), and \<open>general\<close> is the engine's
  \<^verbatim>\<open>Number::toString\<close> outside the integers below \<open>2 ^ 53\<close>.
\<close>

text \<open>
  The SVG document of the text layer, as the values its template is filled with, and
  the sharp pipeline: the input file, the \<^verbatim>\<open>resize(width, height, {fit: 'fill'})\<close>
  arguments (\<open>None\<close> is \<^verbatim>\<open>undefined\<close>), the layer composited over it, and the encoder
  (\<^verbatim>\<open>jpeg({quality, mozjpeg})\<close> or \<^verbatim>\<open>png({compressionLevel})\<close>).
\<close>

record text_svg =
  svg_width :: "jsnum option"
  svg_height :: "jsnum option"
  font :: string
  fontSize :: jsnum
  fontColor :: string
  shadowBlur :: jsnum
  text_x :: jsnum
  textY :: jsnum
  label :: string

datatype encoder = Jpeg nat bool | Png nat

record pipeline =
  input :: string
  resize :: "jsnum option \<times> jsnum option"
  composite :: "text_svg option"
  encode :: encoder

record host =
  LocalTZA :: int
  now :: int
  formatToParts :: "string \<Rightarrow> int \<Rightarrow> (string \<times> string) list option"
  existsSync :: "string \<Rightarrow> bool"
  readFont :: "string + string"
  toBuffer :: "pipeline \<Rightarrow> string + nat list"
  general :: "rat \<Rightarrow> string"

subsection \<open>Date objects\<close>

text \<open>
  A Date object is its time value: milliseconds since the epoch, or NaN (\<open>None\<close>, an
  Invalid Date). The day and year arithmetic is that of ECMA-262, section
  ``Time Values and Time Range'' and following; it is done on integers, which is what
  the Number arithmetic of these operations computes while no operand reaches
  \<open>2 ^ 53\<close>, and a larger operand ends in an Invalid Date either way whenever year,
  month and day are not negative, as they are in this program.
\<close>

type_synonym date = "int option"

definition msPerDay :: int where
  "msPerDay = 86400000"

definition Day :: "int \<Rightarrow> int" where
  "Day t = t div msPerDay"

definition DaysInYear :: "int \<Rightarrow> int" where
  "DaysInYear y =
     (if y mod 4 \<noteq> 0 then 365 else if y mod 100 \<noteq> 0 then 366
      else if y mod 400 \<noteq> 0 then 365 else 366)"

definition DayFromYear :: "int \<Rightarrow> int" where
  "DayFromYear y =
     365 * (y - 1970) + (y - 1969) div 4 - (y - 1901) div 100 + (y - 1601) div 400"

definition TimeFromYear :: "int \<Rightarrow> int" where
  "TimeFromYear y = msPerDay * DayFromYear y"

text \<open>
  YearFromTime is the largest year \<open>y\<close> with \<open>TimeFromYear y \<le> t\<close>. It is computed from
  the average year length (146097 days in 400 years), which is off by at most one year;
  lemma \<open>YearFromTime_eq\<close> below shows that the result is that largest year.
\<close>

definition YearFromTime :: "int \<Rightarrow> int" where
  "YearFromTime t =
     (let d = Day t; y = 1970 + (400 * d) div 146097 in
      if DayFromYear (y + 1) \<le> d then y + 1
      else if DayFromYear y \<le> d then y
      else y - 1)"

definition DayWithinYear :: "int \<Rightarrow> int" where
  "DayWithinYear t = Day t - DayFromYear (YearFromTime t)"

definition InLeapYear :: "int \<Rightarrow> int" where
  "InLeapYear t = (if DaysInYear (YearFromTime t) = 366 then 1 else 0)"

text \<open>The day within the year on which month \<open>m\<close> (0 to 11) starts; \<open>l\<close> is 1 in a leap year.\<close>

definition month_start :: "int \<Rightarrow> int \<Rightarrow> int" where
  "month_start m l =
     (if m = 0 then 0 else if m = 1 then 31 else if m = 2 then 59 + l
      else if m = 3 then 90 + l else if m = 4 then 120 + l else if m = 5 then 151 + l
      else if m = 6 then 181 + l else if m = 7 then 212 + l else if m = 8 then 243 + l
      else if m = 9 then 273 + l else if m = 10 then 304 + l else 334 + l)"

definition MonthFromTime :: "int \<Rightarrow> int" where
  "MonthFromTime t =
     (let d = DayWithinYear t; l = InLeapYear t in
      if d < 31 then 0 else if d < 59 + l then 1 else if d < 90 + l then 2
      else if d < 120 + l then 3 else if d < 151 + l then 4 else if d < 181 + l then 5
      else if d < 212 + l then 6 else if d < 243 + l then 7 else if d < 273 + l then 8
      else if d < 304 + l then 9 else if d < 334 + l then 10 else 11)"

definition DateFromTime :: "int \<Rightarrow> int" where
  "DateFromTime t = DayWithinYear t - month_start (MonthFromTime t) (InLeapYear t) + 1"

definition LocalTime :: "host \<Rightarrow> int \<Rightarrow> int" where
  "LocalTime env t = t + LocalTZA env"

definition UTC :: "host \<Rightarrow> int \<Rightarrow> int" where
  "UTC env t = t - LocalTZA env"

text \<open>MakeFullYear: a year from 0 to 99 means 1900 to 1999.\<close>

definition MakeFullYear :: "jsnum \<Rightarrow> jsnum" where
  "MakeFullYear year =
     (case year of
        Fin y \<Rightarrow> (let t = trunc y in if 0 \<le> t \<and> t \<le> 99 then num (1900 + t) else num t)
      | _ \<Rightarrow> year)"

text \<open>MakeDay: the day number of the given year, month (any integer, carried into the
  year) and day of the month (any integer, counted on from the first).\<close>

definition MakeDay :: "jsnum \<Rightarrow> jsnum \<Rightarrow> jsnum \<Rightarrow> int option" where
  "MakeDay year month dt =
     (case (year, month, dt) of
        (Fin y, Fin m, Fin d) \<Rightarrow>
          let ym = trunc y + trunc m div 12; mn = trunc m mod 12 in
          Some (DayFromYear ym + month_start mn (if DaysInYear ym = 366 then 1 else 0)
                + trunc d - 1)
      | _ \<Rightarrow> None)"

definition MakeDate :: "int \<Rightarrow> int \<Rightarrow> int" where
  "MakeDate day time = day * msPerDay + time"

definition TimeClip :: "int \<Rightarrow> date" where
  "TimeClip t = (if 8640000000000000 < \<bar>t\<bar> then None else Some t)"

text \<open>\<^verbatim>\<open>new Date(year, month, day)\<close>: the fields are local time.\<close>

definition Date_local :: "host \<Rightarrow> jsnum \<Rightarrow> jsnum \<Rightarrow> jsnum \<Rightarrow> date" where
  "Date_local env year month dt =
     (case MakeDay (MakeFullYear year) month dt of
        None \<Rightarrow> None
      | Some day \<Rightarrow> TimeClip (UTC env (MakeDate day 0)))"

text \<open>\<^verbatim>\<open>new Date(Date.UTC(year, month, day))\<close>: the fields are UTC.\<close>

definition Date_UTC :: "jsnum \<Rightarrow> jsnum \<Rightarrow> jsnum \<Rightarrow> date" where
  "Date_UTC year month dt =
     (case MakeDay (MakeFullYear year) month dt of
        None \<Rightarrow> None
      | Some day \<Rightarrow> TimeClip (MakeDate day 0))"

definition getFullYear :: "host \<Rightarrow> date \<Rightarrow> jsnum" where
  "getFullYear env d = (case d of None \<Rightarrow> NaN | Some t \<Rightarrow> num (YearFromTime (LocalTime env t)))"

definition getMonth :: "host \<Rightarrow> date \<Rightarrow> jsnum" where
  "getMonth env d = (case d of None \<Rightarrow> NaN | Some t \<Rightarrow> num (MonthFromTime (LocalTime env t)))"

definition getDate :: "host \<Rightarrow> date \<Rightarrow> jsnum" where
  "getDate env d = (case d of None \<Rightarrow> NaN | Some t \<Rightarrow> num (DateFromTime (LocalTime env t)))"

definition getUTCFullYear :: "date \<Rightarrow> jsnum" where
  "getUTCFullYear d = (case d of None \<Rightarrow> NaN | Some t \<Rightarrow> num (YearFromTime t))"

definition getUTCMonth :: "date \<Rightarrow> jsnum" where
  "getUTCMonth d = (case d of None \<Rightarrow> NaN | Some t \<Rightarrow> num (MonthFromTime t))"

definition getUTCDate :: "date \<Rightarrow> jsnum" where
  "getUTCDate d = (case d of None \<Rightarrow> NaN | Some t \<Rightarrow> num (DateFromTime t))"

text \<open>A Date object used as a Number, as the operands of \<^verbatim>\<open>date - jan1\<close> are.\<close>

definition valueOf :: "date \<Rightarrow> jsnum" where
  "valueOf d = (case d of None \<Rightarrow> NaN | Some t \<Rightarrow> num t)"


section \<open>The wallpaper endpoint: \<^verbatim>\<open>api/wallpaper.js\<close>\<close>

subsection \<open>Resolution table\<close>

text \<open>
  \<^verbatim>\<open>RESOLUTIONS[model]\<close> is a property read on an object literal: one of its five own
  properties, or a property inherited from \<^verbatim>\<open>Object.prototype\<close> (a function, or the
  prototype object itself for \<^verbatim>\<open>__proto__\<close>; all of them truthy, none with a
  \<^verbatim>\<open>width\<close> or \<^verbatim>\<open>height\<close>), or \<^verbatim>\<open>undefined\<close>.
\<close>

datatype property = Undefined | Resolution int int | Inherited

definition Object_prototype :: "string list" where
  "Object_prototype =
     [''constructor'', ''hasOwnProperty'', ''isPrototypeOf'', ''propertyIsEnumerable'',
      ''toLocaleString'', ''toString'', ''valueOf'', ''__proto__'', ''__defineGetter__'',
      ''__defineSetter__'', ''__lookupGetter__'', ''__lookupSetter__'']"

definition RESOLUTIONS :: "string \<Rightarrow> property" where
  "RESOLUTIONS key =
     (if key = ''iphone16pro'' then Resolution 1290 2796
      else if key = ''iphone15'' then Resolution 1179 2556
      else if key = ''iphone14pro'' then Resolution 1290 2796
      else if key = ''iphone13'' then Resolution 1170 2532
      else if key = ''default'' then Resolution 1290 2796
      else if key \<in> set Object_prototype then Inherited
      else Undefined)"

text \<open>\<^verbatim>\<open>Object.keys(RESOLUTIONS)\<close>: the own keys, in insertion order.\<close>

definition RESOLUTIONS_keys :: "string list" where
  "RESOLUTIONS_keys = [''iphone16pro'', ''iphone15'', ''iphone14pro'', ''iphone13'', ''default'']"

text \<open>\<^verbatim>\<open>const { width, height } = resolution\<close>; \<open>None\<close> is \<^verbatim>\<open>undefined\<close>.\<close>

definition dimensions :: "property \<Rightarrow> jsnum option \<times> jsnum option" where
  "dimensions p = (case p of Resolution w h \<Rightarrow> (Some (num w), Some (num h)) | _ \<Rightarrow> (None, None))"

definition ToNumber :: "jsnum option \<Rightarrow> jsnum" where
  "ToNumber v = (case v of None \<Rightarrow> NaN | Some a \<Rightarrow> a)"

subsection \<open>Date utilities\<close>

text \<open>A query parameter is a string or absent; \<^verbatim>\<open>if (s)\<close> holds for a non-empty string.\<close>

definition truthy :: "string option \<Rightarrow> bool" where
  "truthy s = (case s of None \<Rightarrow> False | Some v \<Rightarrow> v \<noteq> [])"

text \<open>An array element read by destructuring: \<^verbatim>\<open>undefined\<close> past the end.\<close>

definition element :: "'a list \<Rightarrow> nat \<Rightarrow> 'a option" where
  "element xs i = (if i < length xs then Some (xs ! i) else None)"

text \<open>\<^verbatim>\<open>get(type)\<close> of \<open>parseDateInTz\<close>; \<open>None\<close> when \<^verbatim>\<open>find\<close> finds no part and the
  property read on \<^verbatim>\<open>undefined\<close> throws.\<close>

definition get_part :: "(string \<times> string) list \<Rightarrow> string \<Rightarrow> jsnum option" where
  "get_part parts type =
     (case find (\<lambda>p. fst p = type) parts of
        None \<Rightarrow> None
      | Some p \<Rightarrow> Some (Number_of_string (snd p)))"

text \<open>The body of the \<^verbatim>\<open>try\<close> block; \<open>None\<close> when it throws.\<close>

definition today_in_tz :: "host \<Rightarrow> string \<Rightarrow> date option" where
  "today_in_tz env tz =
     (case formatToParts env tz (now env) of
        None \<Rightarrow> None
      | Some parts \<Rightarrow>
          (case (get_part parts ''year'', get_part parts ''month'', get_part parts ''day'') of
             (Some y, Some m, Some d) \<Rightarrow> Some (Date_local env y (js_sub m (num 1)) d)
           | _ \<Rightarrow> None))"

definition parseDateInTz :: "host \<Rightarrow> string option \<Rightarrow> string option \<Rightarrow> date" where
  "parseDateInTz env dateStr tz =
     (case (if truthy dateStr then dateStr else None) of
        Some str \<Rightarrow>
          let parts = map Number_of_string (split_on CHR ''-'' str);
              y = element parts 0; m = element parts 1; d = element parts 2
          in Date_local env (ToNumber y) (js_sub (ToNumber m) (num 1)) (ToNumber d)
      | None \<Rightarrow>
          (case (case (if truthy tz then tz else None) of
                   Some zone \<Rightarrow> today_in_tz env zone
                 | None \<Rightarrow> None) of
             Some today \<Rightarrow> today
           | None \<Rightarrow>
               Date_UTC (getUTCFullYear (Some (now env))) (getUTCMonth (Some (now env)))
                 (getUTCDate (Some (now env)))))"

record date_info =
  dayOfYear :: jsnum
  daysLeft :: jsnum
  percent :: string
  daysInYear :: jsnum

text \<open>\<^verbatim>\<open>(year % 4 === 0 && year % 100 !== 0) || year % 400 === 0\<close>\<close>

definition isLeap :: "jsnum \<Rightarrow> bool" where
  "isLeap year =
     ((js_seq (js_rem year (num 4)) (num 0) \<and> js_sne (js_rem year (num 100)) (num 0))
      \<or> js_seq (js_rem year (num 400)) (num 0))"

text \<open>A Date object always has \<^verbatim>\<open>getFullYear\<close>, so the year is the local one.\<close>

definition calcDateInfo :: "host \<Rightarrow> date \<Rightarrow> date_info" where
  "calcDateInfo env date =
     (let year = getFullYear env date;
          diy = (if isLeap year then num 366 else num 365);
          jan1 = Date_local env year (num 0) (num 1);
          doy = js_add (Math_floor (js_div (js_sub (valueOf date) (valueOf jan1)) (num 86400000)))
                  (num 1);
          dec31 = Date_local env year (num 11) (num 31);
          left = Math_floor (js_div (js_sub (valueOf dec31) (valueOf date)) (num 86400000));
          pct = Number_toFixed (general env) (js_mul (js_div doy diy) (num 100)) 1
      in \<lparr>dayOfYear = doy, daysLeft = left, percent = pct, daysInYear = diy\<rparr>)"

text \<open>\<open>getDayOfYear\<close> of the plain revision of the endpoint.\<close>

definition getDayOfYear :: "host \<Rightarrow> date \<Rightarrow> jsnum" where
  "getDayOfYear env date =
     (let year = getFullYear env date;
          jan1 = Date_local env year (num 0) (num 1)
      in js_add (Math_floor (js_div (js_sub (valueOf date) (valueOf jan1)) (num 86400000)))
           (num 1))"

subsection \<open>Text layer\<close>

text \<open>
  \<open>buildTextSvg\<close> fills the template of the text layer. The label is kept as the UTF-8
  bytes that \<^verbatim>\<open>Buffer.from\<close> hands to sharp: the bullet U+2022 is the three bytes
  E2 80 A2.
\<close>

definition buildTextSvg ::
  "(rat \<Rightarrow> string) \<Rightarrow> jsnum option \<Rightarrow> jsnum option \<Rightarrow> jsnum \<Rightarrow> string \<Rightarrow> string \<Rightarrow> text_svg"
where
  "buildTextSvg gen width height left pct fontBase64 =
     \<lparr>svg_width = width, svg_height = height, font = fontBase64,
      fontSize = Math_round (js_mul (num 52) (js_div (ToNumber width) (num 1290))),
      fontColor = ''#FFFFFF'',
      shadowBlur = Math_round (js_mul (num 8) (js_div (ToNumber width) (num 1290))),
      text_x = Math_round (js_div (ToNumber width) (num 2)),
      textY = Math_round (js_mul (ToNumber height) (fl (91 / 100))),
      label = Number_toString gen left @ '' Days Left  '' @ [CHR 0xE2, CHR 0x80, CHR 0xA2]
              @ ''  '' @ pct @ ''%''\<rparr>"


subsection \<open>Handler\<close>

text \<open>
  A request is \<^verbatim>\<open>req.query\<close>: each parameter a string, or absent. The handler returns
  the response it sends, the calls it made on the file system, the clock and sharp (in
  order), and the font cache \<^verbatim>\<open>_fontBase64\<close> it leaves behind. The headers of a
  response are those set by \<^verbatim>\<open>setHeader\<close>.
\<close>

record query =
  q_model :: "string option"
  q_date :: "string option"
  q_format :: "string option"
  q_tz :: "string option"

datatype body = Json "(string \<times> string) list" | Image "nat list"

record response =
  status :: nat
  headers :: "(string \<times> string) list"
  body :: body

datatype effect = ResolveDate | ExistsSync string | ReadFont | Render pipeline | ConsoleError

record outcome =
  response :: response
  effects :: "effect list"
  fontCache :: "string option"

fun join :: "string \<Rightarrow> string list \<Rightarrow> string" where
  "join sep [] = []"
| "join sep [x] = x"
| "join sep (x # y # ys) = x @ sep @ join sep (y # ys)"

text \<open>\<open>getFontBase64\<close>: the cached font, or the file read and cached; \<open>Inl\<close> when the
  read throws.\<close>

definition getFontBase64 :: "host \<Rightarrow> string option \<Rightarrow> string + string \<times> string option \<times> effect list" where
  "getFontBase64 env cache =
     (case (if truthy cache then cache else None) of
        Some f \<Rightarrow> Inr (f, cache, [])
      | None \<Rightarrow>
          (case readFont env of
             Inl msg \<Rightarrow> Inl msg
           | Inr b \<Rightarrow> Inr (b, Some b, [ReadFont])))"

text \<open>The name of the day's overlay file, and the path after the first existence check
  of step 4: the day-365 file when the day's own file is missing.\<close>

definition dayFile :: "host \<Rightarrow> jsnum \<Rightarrow> string" where
  "dayFile env doy = ''day-'' @ padStart 3 CHR ''0'' (Number_toString (general env) doy) @ ''.png''"

definition overlayPath :: "host \<Rightarrow> jsnum \<Rightarrow> string" where
  "overlayPath env doy = (if existsSync env (dayFile env doy) then dayFile env doy else ''day-365.png'')"

definition bad_request :: "string \<Rightarrow> response" where
  "bad_request model =
     \<lparr>status = 400, headers = [],
      body = Json [(''error'', ''Unsupported model: '' @ model @ ''. Valid values: ''
                      @ join '', '' RESOLUTIONS_keys)]\<rparr>"

definition server_error :: "string \<Rightarrow> response" where
  "server_error msg = \<lparr>status = 500, headers = [], body = Json [(''error'', msg)]\<rparr>"

text \<open>The response of the \<^verbatim>\<open>catch\<close> block.\<close>

definition internal_error :: "string \<Rightarrow> response" where
  "internal_error msg =
     \<lparr>status = 500, headers = [],
      body = Json [(''error'', ''Internal server error''), (''message'', msg)]\<rparr>"

definition handler :: "host \<Rightarrow> string option \<Rightarrow> query \<Rightarrow> outcome" where
  "handler env cache req =
     (let model = (case q_model req of None \<Rightarrow> ''default'' | Some v \<Rightarrow> v);
          format = (case q_format req of None \<Rightarrow> ''jpg'' | Some v \<Rightarrow> v);
          resolution = RESOLUTIONS model
      in if resolution = Undefined
         then \<lparr>response = bad_request model, effects = [], fontCache = cache\<rparr>
         else
           let (width, height) = dimensions resolution;
               today = parseDateInTz env (q_date req) (q_tz req);
               info = calcDateInfo env today;
               path = overlayPath env (dayOfYear info);
               probes = [ResolveDate, ExistsSync (dayFile env (dayOfYear info)), ExistsSync path]
           in if \<not> existsSync env path
              then \<lparr>response = server_error
                        ''No overlay image found for today. Run generate-overlays.js first.'',
                    effects = probes, fontCache = cache\<rparr>
              else
                (case getFontBase64 env cache of
                   Inl msg \<Rightarrow>
                     \<lparr>response = internal_error msg,
                      effects = probes @ [ReadFont, ConsoleError], fontCache = cache\<rparr>
                 | Inr (fontBase64, cache', reads) \<Rightarrow>
                     let textSvg = buildTextSvg (general env) width height (daysLeft info)
                                     (percent info) fontBase64;
                         outputFormat = (if format = ''png'' then Png 6 else Jpeg 92 True);
                         contentType = (if format = ''png'' then ''image/png'' else ''image/jpeg'');
                         job = \<lparr>input = path, resize = (width, height),
                                composite = Some textSvg, encode = outputFormat\<rparr>
                     in (case toBuffer env job of
                           Inl msg \<Rightarrow>
                             \<lparr>response = internal_error msg,
                              effects = probes @ reads @ [Render job, ConsoleError],
                              fontCache = cache'\<rparr>
                         | Inr imageBuffer \<Rightarrow>
                             \<lparr>response =
                                \<lparr>status = 200,
                                 headers =
                                   [(''Content-Type'', contentType),
                                    (''Cache-Control'', ''no-store, no-cache, must-revalidate''),
                                    (''X-Day-Of-Year'', Number_toString (general env) (dayOfYear info)),
                                    (''X-Days-Left'', Number_toString (general env) (daysLeft info)),
                                    (''X-Year-Percent'', percent info)],
                                 body = Image imageBuffer\<rparr>,
                              effects = probes @ reads @ [Render job],
                              fontCache = cache'\<rparr>)))"

text \<open>The plain revision of the endpoint: no text layer, the day of the year only.\<close>

definition handler_plain :: "host \<Rightarrow> query \<Rightarrow> response \<times> effect list" where
  "handler_plain env req =
     (let model = (case q_model req of None \<Rightarrow> ''default'' | Some v \<Rightarrow> v);
          format = (case q_format req of None \<Rightarrow> ''jpg'' | Some v \<Rightarrow> v);
          resolution = RESOLUTIONS model
      in if resolution = Undefined
         then (bad_request model, [])
         else
           let (width, height) = dimensions resolution;
               today = parseDateInTz env (q_date req) (q_tz req);
               doy = getDayOfYear env today;
               path = overlayPath env doy;
               probes = [ResolveDate, ExistsSync (dayFile env doy), ExistsSync path]
           in if \<not> existsSync env path
              then (server_error ''No overlay image found for today.'', probes)
              else
                let outputFormat = (if format = ''png'' then Png 6 else Jpeg 92 True);
                    contentType = (if format = ''png'' then ''image/png'' else ''image/jpeg'');
                    job = \<lparr>input = path, resize = (width, height),
                           composite = None, encode = outputFormat\<rparr>
                in (case toBuffer env job of
                      Inl msg \<Rightarrow> (internal_error msg, probes @ [Render job, ConsoleError])
                    | Inr imageBuffer \<Rightarrow>
                        (\<lparr>status = 200,
                          headers =
                            [(''Content-Type'', contentType),
                             (''Cache-Control'', ''no-store, no-cache, must-revalidate''),
                             (''X-Day-Of-Year'', Number_toString (general env) doy)],
                          body = Image imageBuffer\<rparr>,
                         probes @ [Render job])))"

section \<open>The overlay generator: \<^verbatim>\<open>scripts/generate-overlays.js\<close>\<close>

text \<open>
  Two revisions: the one that draws the dots on a transparent layer over the background
  image (\<open>buildDotGridSVG\<close>), and the one that draws them on a white canvas
  (\<open>buildDotGridSVG_white\<close>, its own constants carrying the suffix where the names
  collide). An SVG document is kept as the values its template is filled with.
\<close>

record circle =
  cx :: jsnum
  cy :: jsnum
  radius :: jsnum
  fill :: string
  opacity :: "jsnum option"

record svg =
  canvas_width :: jsnum
  canvas_height :: jsnum
  background :: "string option"
  circles :: "circle list"

definition WIDTH :: int where "WIDTH = 1290"
definition HEIGHT :: int where "HEIGHT = 2796"
definition COLS :: int where "COLS = 20"
definition TOTAL_DOTS :: int where "TOTAL_DOTS = 365"
definition ROWS :: jsnum where "ROWS = Math_ceil (js_div (num TOTAL_DOTS) (num COLS))"
definition MARGIN_LEFT :: int where "MARGIN_LEFT = 159"
definition MARGIN_RIGHT :: int where "MARGIN_RIGHT = 159"
definition GRID_TOP :: int where "GRID_TOP = 1100"
definition GRID_HEIGHT :: int where "GRID_HEIGHT = 704"

definition GRID_W :: jsnum where
  "GRID_W = js_sub (js_sub (num WIDTH) (num MARGIN_LEFT)) (num MARGIN_RIGHT)"

definition H_SPACING :: jsnum where
  "H_SPACING = Math_round (js_div GRID_W (js_sub (num COLS) (num 1)))"

definition V_SPACING :: jsnum where
  "V_SPACING = Math_round (js_div (num GRID_HEIGHT) (js_sub ROWS (num 1)))"

definition DOT_RADIUS :: int where "DOT_RADIUS = 11"
definition COL_FILLED :: string where "COL_FILLED = ''#1C1C1E''"
definition OPACITY_EMPTY :: jsnum where "OPACITY_EMPTY = fl (15 / 100)"

text \<open>The comparison \<^verbatim>\<open>i < filledCount\<close> on Numbers: false when an operand is NaN.\<close>

fun js_lt :: "jsnum \<Rightarrow> jsnum \<Rightarrow> bool" where
  "js_lt NaN b = False"
| "js_lt a NaN = False"
| "js_lt (Fin x) (Fin y) = (x < y)"
| "js_lt a PInf = (a \<noteq> PInf)"
| "js_lt NInf b = (b \<noteq> NInf)"
| "js_lt a b = False"

text \<open>The body of the loop: the circle pushed for index \<open>i\<close>.\<close>

definition dot :: "jsnum \<Rightarrow> int \<Rightarrow> circle" where
  "dot filledCount i =
     (let col = js_rem (num i) (num COLS);
          row = Math_floor (js_div (num i) (num COLS));
          x = js_add (num MARGIN_LEFT) (js_mul col H_SPACING);
          y = js_add (num GRID_TOP) (js_mul row V_SPACING)
      in if js_lt (num i) filledCount
         then \<lparr>cx = x, cy = y, radius = num DOT_RADIUS, fill = COL_FILLED, opacity = None\<rparr>
         else \<lparr>cx = x, cy = y, radius = num DOT_RADIUS, fill = ''white'',
               opacity = Some OPACITY_EMPTY\<rparr>)"

text \<open>\<^verbatim>\<open>for (let i = 0; i < TOTAL_DOTS; i++) circles.push(...)\<close>\<close>

function dots_from :: "jsnum \<Rightarrow> int \<Rightarrow> circle list \<Rightarrow> circle list" where
  "dots_from filledCount i acc =
     (if i < TOTAL_DOTS then dots_from filledCount (i + 1) (acc @ [dot filledCount i]) else acc)"
  by pat_completeness auto
termination
  by (relation "measure (\<lambda>(f, i, acc). nat (TOTAL_DOTS - i))") auto

declare dots_from.simps [simp del]

definition buildDotGridSVG :: "jsnum \<Rightarrow> svg" where
  "buildDotGridSVG filledCount =
     \<lparr>canvas_width = num WIDTH, canvas_height = num HEIGHT, background = None,
      circles = dots_from filledCount 0 []\<rparr>"

text \<open>The white-canvas revision.\<close>

definition DOT_RADIUS_white :: int where "DOT_RADIUS_white = 14"
definition DOT_SPACING :: int where "DOT_SPACING = 62"

definition GRID_W_white :: jsnum where
  "GRID_W_white = js_mul (js_sub (num COLS) (num 1)) (num DOT_SPACING)"

definition GRID_H :: jsnum where
  "GRID_H = js_mul (js_sub ROWS (num 1)) (num DOT_SPACING)"

definition GRID_X :: jsnum where
  "GRID_X = Math_round (js_div (js_sub (num WIDTH) GRID_W_white) (num 2))"

definition GRID_Y :: jsnum where
  "GRID_Y = Math_round (js_mul (num HEIGHT) (fl (38 / 100)))"

definition COL_EMPTY :: string where "COL_EMPTY = ''#D1D1D6''"

definition dot_white :: "jsnum \<Rightarrow> int \<Rightarrow> circle" where
  "dot_white filledCount i =
     (let col = js_rem (num i) (num COLS);
          row = Math_floor (js_div (num i) (num COLS));
          x = js_add GRID_X (js_mul col (num DOT_SPACING));
          y = js_add GRID_Y (js_mul row (num DOT_SPACING));
          colour = (if js_lt (num i) filledCount then COL_FILLED else COL_EMPTY)
      in \<lparr>cx = x, cy = y, radius = num DOT_RADIUS_white, fill = colour, opacity = None\<rparr>)"

function dots_white_from :: "jsnum \<Rightarrow> int \<Rightarrow> circle list \<Rightarrow> circle list" where
  "dots_white_from filledCount i acc =
     (if i < TOTAL_DOTS then dots_white_from filledCount (i + 1) (acc @ [dot_white filledCount i])
      else acc)"
  by pat_completeness auto
termination
  by (relation "measure (\<lambda>(f, i, acc). nat (TOTAL_DOTS - i))") auto

declare dots_white_from.simps [simp del]

definition buildDotGridSVG_white :: "jsnum \<Rightarrow> svg" where
  "buildDotGridSVG_white filledCount =
     \<lparr>canvas_width = num WIDTH, canvas_height = num HEIGHT, background = Some ''#FFFFFF'',
      circles = dots_white_from filledCount 0 []\<rparr>"


section \<open>A sample host and request\<close>

text \<open>
  A host in UTC on 31 December 2024, whose overlays directory holds the day-365 file
  only and whose \<^verbatim>\<open>Intl\<close> knows no time zone; and the request without parameters. The
  examples below run on them.
\<close>

definition sample_host :: host where
  "sample_host =
     \<lparr>LocalTZA = 0, now = 1735646400000,
      formatToParts = (\<lambda>tz t. None),
      existsSync = (\<lambda>name. name = ''day-365.png''),
      readFont = Inr ''T1RUTw=='',
      toBuffer = (\<lambda>job. Inr [255, 216, 255]),
      general = (\<lambda>x. ''?'')\<rparr>"

text \<open>Two hosts that differ from it only in their clock: five hours east of UTC, and five
  hours west.\<close>

definition east_host :: host where
  "east_host = sample_host\<lparr>LocalTZA := 18000000\<rparr>"

definition west_host :: host where
  "west_host = sample_host\<lparr>LocalTZA := - 18000000\<rparr>"

definition no_query :: query where
  "no_query = \<lparr>q_model = None, q_date = None, q_format = None, q_tz = None\<rparr>"


section \<open>Properties\<close>

subsection \<open>Rounding to binary64\<close>

lemma powi_pos: "0 < (2::rat) powi e"
  by (simp add: power_int_def)

lemma powi_strict_mono: "a < b \<Longrightarrow> (2::rat) powi a < 2 powi b"
  by (rule power_int_strict_increasing) auto

lemma powi_less_cancel:
  assumes "(2::rat) powi a < 2 powi b"
  shows "a < b"
proof (rule ccontr)
  assume "\<not> a < b"
  then have "b \<le> a" by simp
  then have "(2::rat) powi b \<le> 2 powi a" by (intro power_int_increasing) auto
  with assms show False by simp
qed

lemma bitlen_bounds:
  "0 < n \<Longrightarrow> 1 \<le> bitlen n \<and> 2 ^ (bitlen n - 1) \<le> n \<and> n < 2 ^ bitlen n"
proof (induction n rule: bitlen.induct)
  case (1 n)
  show ?case
  proof (cases "n = 1")
    case True
    then show ?thesis by (simp add: bitlen.simps)
  next
    case False
    with 1 have pos: "0 < n div 2" by simp
    define b where "b = bitlen (n div 2)"
    have ih: "1 \<le> b \<and> 2 ^ (b - 1) \<le> n div 2 \<and> n div 2 < 2 ^ b"
      unfolding b_def using 1 pos by simp
    have bl: "bitlen n = Suc b" using 1(2) by (simp add: bitlen.simps[of n] b_def)
    have p: "(2::int) ^ b = 2 * 2 ^ (b - 1)" using ih by (cases b) simp_all
    have "(2::int) ^ b \<le> n" using ih p by linarith
    moreover have "n \<le> 2 * (n div 2) + 1" by presburger
    then have "n < 2 ^ Suc b" using ih by simp
    ultimately show ?thesis unfolding bl by simp
  qed
qed

lemma bitlen_rat:
  assumes "0 < n"
  shows "(2::rat) ^ (bitlen n - 1) \<le> of_int n" and "rat_of_int n < 2 ^ bitlen n"
proof -
  note b = bitlen_bounds[OF assms]
  have "rat_of_int (2 ^ (bitlen n - 1)) \<le> of_int n" using b by (simp only: of_int_le_iff)
  then show "(2::rat) ^ (bitlen n - 1) \<le> of_int n" by simp
  have "rat_of_int n < of_int (2 ^ bitlen n)" using b by (simp only: of_int_less_iff)
  then show "rat_of_int n < 2 ^ bitlen n" by simp
qed

lemma ilog2_bounds:
  assumes "0 < a"
  shows "2 powi (ilog2 a) \<le> a \<and> a < 2 powi (ilog2 a + 1)"
proof -
  obtain p q where pq: "quotient_of a = (p, q)" by (cases "quotient_of a")
  have q: "0 < q" using pq quotient_of_denom_pos by blast
  have a: "a = of_int p / of_int q" using pq quotient_of_div by blast
  have p: "0 < p" using assms q a by (simp add: zero_less_divide_iff)
  define bp where "bp = bitlen p"
  define bq where "bq = bitlen q"
  have bp1: "1 \<le> bp" and bq1: "1 \<le> bq"
    unfolding bp_def bq_def using bitlen_bounds p q by simp_all
  note P = bitlen_rat[OF p, folded bp_def] and Q = bitlen_rat[OF q, folded bq_def]
  define d where "d = int bp - int bq"
  have qpos: "0 < rat_of_int q" using q by simp
  have d1: "d - 1 = int (bp - 1) - int bq" using bp1 by (simp add: d_def of_nat_diff)
  have d2: "d + 1 = int bp - int (bq - 1)" using bq1 by (simp add: d_def of_nat_diff)
  have e1: "(2::rat) powi (d - 1) = 2 ^ (bp - 1) / 2 ^ bq"
    unfolding d1 by (subst power_int_diff) (simp_all only: power_int_of_nat, simp)
  have e2: "(2::rat) powi (d + 1) = 2 ^ bp / 2 ^ (bq - 1)"
    unfolding d2 by (subst power_int_diff) (simp_all only: power_int_of_nat, simp)
  have lo: "2 powi (d - 1) < a"
  proof -
    have "(2::rat) ^ (bp - 1) / 2 ^ bq < 2 ^ (bp - 1) / of_int q"
      using Q(2) qpos by (simp add: divide_strict_left_mono)
    also have "\<dots> \<le> of_int p / of_int q"
      using P(1) qpos by (simp add: divide_right_mono)
    finally show ?thesis unfolding e1 a .
  qed
  have hi: "a < 2 powi (d + 1)"
  proof -
    have "rat_of_int p / of_int q < 2 ^ bp / of_int q"
      using P(2) qpos by (simp add: divide_strict_right_mono)
    also have "\<dots> \<le> 2 ^ bp / 2 ^ (bq - 1)"
      using Q(1) qpos by (simp add: divide_left_mono)
    finally show ?thesis unfolding e2 a .
  qed
  have il: "ilog2 a = (if 2 powi d \<le> a then d else d - 1)"
    unfolding ilog2_def pq by (simp add: Let_def d_def bp_def bq_def)
  show ?thesis
  proof (cases "2 powi d \<le> a")
    case True
    then show ?thesis using il hi by simp
  next
    case False
    then show ?thesis using il lo by simp
  qed
qed

lemma ilog2_unique:
  assumes "2 powi e \<le> a" and "a < 2 powi (e + 1)"
  shows "ilog2 a = e"
proof -
  have a: "0 < a" using assms(1) powi_pos[of e] by linarith
  note b = ilog2_bounds[OF a]
  have "2 powi e < (2::rat) powi (ilog2 a + 1)" using assms(1) b by linarith
  then have 1: "e < ilog2 a + 1" by (rule powi_less_cancel)
  have "2 powi (ilog2 a) < (2::rat) powi (e + 1)" using assms(2) b by linarith
  then have 2: "ilog2 a < e + 1" by (rule powi_less_cancel)
  show ?thesis using 1 2 by linarith
qed

lemma rne_of_int [simp]: "rne (of_int n) = n"
  by (simp add: rne_def)

lemma rne_nearest:
  assumes "\<bar>x - of_int n\<bar> < 1 / 2"
  shows "rne x = n"
proof -
  have 1: "of_int n - 1 / 2 < x" and 2: "x < of_int n + 1 / 2" using assms by linarith+
  consider "\<lfloor>x\<rfloor> = n" | "\<lfloor>x\<rfloor> = n - 1"
  proof -
    have "of_int (n - 1) \<le> x" using 1 by simp
    then have "n - 1 \<le> \<lfloor>x\<rfloor>" by (simp only: le_floor_iff)
    moreover have "x < of_int (n + 1)" using 2 by simp
    then have "\<lfloor>x\<rfloor> < n + 1" by (simp only: floor_less_iff)
    ultimately have "\<lfloor>x\<rfloor> = n \<or> \<lfloor>x\<rfloor> = n - 1" by linarith
    then show ?thesis using that by blast
  qed
  then show ?thesis
  proof cases
    case 1
    then show ?thesis using 2 by (simp add: rne_def Let_def)
  next
    case 2
    then show ?thesis using 1 by (simp add: rne_def Let_def)
  qed
qed

lemma rne_close: "\<bar>of_int (rne x) - x\<bar> \<le> 1 / 2"
proof -
  have "of_int \<lfloor>x\<rfloor> \<le> x" and "x < of_int \<lfloor>x\<rfloor> + 1" by linarith+
  then show ?thesis by (auto simp: rne_def Let_def)
qed

lemma fl_normal:
  assumes "2 powi e \<le> \<bar>x\<bar>" and "\<bar>x\<bar> < 2 powi (e + 1)" and "- 1022 \<le> e"
  shows "fl x = (let u = 2 powi (e - 52); v = of_int (rne (\<bar>x\<bar> / u)) * u
     in if 2 powi 1024 \<le> v then (if 0 < x then PInf else NInf) else Fin (sgn x * v))"
proof -
  have "x \<noteq> 0"
  proof
    assume "x = 0"
    then have "2 powi e \<le> (0::rat)" using assms(1) by simp
    then show False using powi_pos[of e] by linarith
  qed
  have il: "ilog2 \<bar>x\<bar> = e" using assms(1,2) by (rule ilog2_unique)
  have m: "max (ilog2 \<bar>x\<bar>) (- 1022) = e" using il assms(3) by (simp only: max_absorb1)
  show ?thesis unfolding fl_def Let_def m using \<open>x \<noteq> 0\<close> by (simp only: if_False)
qed

lemma powi_53_split: "(2::rat) powi (e + 1) = 2 powi 53 * 2 powi (e - 52)"
proof -
  have "(2::rat) powi (53 + (e - 52)) = 2 powi 53 * 2 powi (e - 52)"
    by (rule power_int_add) simp
  moreover have "53 + (e - 52) = e + 1" by simp
  ultimately show ?thesis by (simp only:)
qed

lemma powi_52_split: "(2::rat) powi e = 2 powi 52 * 2 powi (e - 52)"
proof -
  have "(2::rat) powi (52 + (e - 52)) = 2 powi 52 * 2 powi (e - 52)"
    by (rule power_int_add) simp
  moreover have "52 + (e - 52) = e" by simp
  ultimately show ?thesis by (simp only:)
qed

text \<open>In the normal range the result is finite and the error at most half a unit in the
  last place.\<close>

lemma fl_finite:
  assumes "2 powi e \<le> \<bar>x\<bar>" and "\<bar>x\<bar> < 2 powi (e + 1)" and "- 1022 \<le> e" and "e < 1023"
  shows "fl x = Fin (sgn x * (of_int (rne (\<bar>x\<bar> / 2 powi (e - 52))) * 2 powi (e - 52)))"
proof -
  define u :: rat where "u = 2 powi (e - 52)"
  define n where "n = rne (\<bar>x\<bar> / u)"
  have upos: "0 < u" unfolding u_def by (rule powi_pos)
  have "\<bar>x\<bar> / u < 2 powi 53"
    using assms(2) upos unfolding powi_53_split[of e] u_def[symmetric]
    by (simp add: pos_divide_less_eq)
  moreover have "\<bar>of_int n - \<bar>x\<bar> / u\<bar> \<le> 1 / 2" unfolding n_def by (rule rne_close)
  ultimately have "rat_of_int n < 2 powi 53 + 1 / 2" by linarith
  then have "rat_of_int n < of_int (2 ^ 53 + 1)" by simp
  then have "n < 2 ^ 53 + 1" by (simp only: of_int_less_iff)
  then have "n \<le> 2 ^ 53" by linarith
  then have "rat_of_int n \<le> of_int (2 ^ 53)" by (simp only: of_int_le_iff)
  then have "rat_of_int n \<le> 2 powi 53" by simp
  then have "rat_of_int n * u \<le> 2 powi 53 * u" using upos by (simp only: mult_le_cancel_right_pos)
  also have "\<dots> = 2 powi (e + 1)" unfolding u_def by (rule powi_53_split[symmetric])
  also have "\<dots> < 2 powi 1024" using assms(4) by (intro powi_strict_mono) linarith
  finally have s: "\<not> 2 powi 1024 \<le> rat_of_int n * u" by linarith
  show ?thesis
    unfolding fl_normal[OF assms(1,2,3)] Let_def u_def[symmetric] n_def[symmetric]
    using s by (simp only: if_False)
qed

lemma fl_nearest:
  assumes "2 powi e \<le> \<bar>x\<bar>" and "\<bar>x\<bar> < 2 powi (e + 1)" and "- 1022 \<le> e" and "e < 1023"
    and "\<bar>\<bar>x\<bar> / 2 powi (e - 52) - of_int n\<bar> < 1 / 2"
  shows "fl x = Fin (sgn x * (of_int n * 2 powi (e - 52)))"
  unfolding fl_finite[OF assms(1-4)] rne_nearest[OF assms(5)] ..

lemma fl_error:
  assumes "2 powi e \<le> \<bar>x\<bar>" and "\<bar>x\<bar> < 2 powi (e + 1)" and "- 1022 \<le> e" and "e < 1023"
  obtains v where "fl x = Fin v" and "\<bar>v - x\<bar> \<le> \<bar>x\<bar> / 2 ^ 53"
proof -
  define u :: rat where "u = 2 powi (e - 52)"
  define n where "n = rne (\<bar>x\<bar> / u)"
  define v where "v = sgn x * (of_int n * u)"
  have upos: "0 < u" unfolding u_def by (rule powi_pos)
  have fl: "fl x = Fin v" unfolding v_def n_def u_def by (rule fl_finite[OF assms])
  have "\<bar>of_int n - \<bar>x\<bar> / u\<bar> \<le> 1 / 2" unfolding n_def by (rule rne_close)
  then have "\<bar>of_int n - \<bar>x\<bar> / u\<bar> * u \<le> 1 / 2 * u" using upos by (simp only: mult_le_cancel_right_pos)
  moreover have "\<bar>of_int n - \<bar>x\<bar> / u\<bar> * u = \<bar>of_int n * u - \<bar>x\<bar>\<bar>"
  proof -
    have "(of_int n - \<bar>x\<bar> / u) * u = of_int n * u - \<bar>x\<bar>"
      using upos by (simp add: left_diff_distrib)
    then have "\<bar>of_int n * u - \<bar>x\<bar>\<bar> = \<bar>of_int n - \<bar>x\<bar> / u\<bar> * \<bar>u\<bar>"
      by (simp only: abs_mult[symmetric])
    then show ?thesis using upos by simp
  qed
  ultimately have 1: "\<bar>of_int n * u - \<bar>x\<bar>\<bar> \<le> u / 2" by simp
  have "v - x = sgn x * (of_int n * u - \<bar>x\<bar>)"
    unfolding v_def by (simp add: right_diff_distrib sgn_mult_abs)
  then have "\<bar>v - x\<bar> = \<bar>sgn x\<bar> * \<bar>of_int n * u - \<bar>x\<bar>\<bar>" by (simp only: abs_mult)
  also have "\<dots> \<le> \<bar>of_int n * u - \<bar>x\<bar>\<bar>" by (cases "x = 0") (simp_all add: abs_sgn_eq)
  finally have 2: "\<bar>v - x\<bar> \<le> u / 2" using 1 by linarith
  have "2 powi 52 * u \<le> \<bar>x\<bar>" using assms(1) unfolding u_def powi_52_split[of e, symmetric] .
  then have "4503599627370496 * u \<le> \<bar>x\<bar>" by simp
  then have "u / 2 \<le> \<bar>x\<bar> / 2 ^ 53" by simp
  with 2 fl that show ?thesis by (meson order_trans)
qed

lemma fl_of_int:
  assumes "\<bar>n\<bar> < 2 ^ 53"
  shows "fl (of_int n) = Fin (of_int n)"
proof (cases "n = 0")
  case True
  then show ?thesis by (simp add: fl_def)
next
  case False
  define a :: rat where "a = \<bar>of_int n\<bar>"
  define e where "e = ilog2 a"
  have apos: "0 < a" using False by (simp add: a_def)
  note b = ilog2_bounds[OF apos, folded e_def]
  have a1: "1 \<le> a"
  proof -
    have "1 \<le> \<bar>n\<bar>" using False by linarith
    then have "rat_of_int 1 \<le> of_int \<bar>n\<bar>" by (simp only: of_int_le_iff)
    then show ?thesis by (simp add: a_def)
  qed
  have a53: "a < 2 powi 53"
  proof -
    have "rat_of_int \<bar>n\<bar> < of_int (2 ^ 53)" using assms by (simp only: of_int_less_iff)
    then show ?thesis by (simp add: a_def)
  qed
  have "2 powi e < (2::rat) powi 53" using b a53 by linarith
  then have e53: "e < 53" by (rule powi_less_cancel)
  have "(2::rat) powi 0 < 2 powi (e + 1)" using b a1 by simp
  then have e0: "0 \<le> e" using powi_less_cancel[of 0 "e + 1"] by simp
  define k where "k = nat (52 - e)"
  have u: "(2::rat) powi (e - 52) = 1 / 2 ^ k"
    using e53 by (simp add: power_int_def k_def field_simps)
  have int: "a / (1 / 2 ^ k) = of_int (\<bar>n\<bar> * 2 ^ k)" by (simp add: a_def)
  have v: "of_int (rne (a / (2 powi (e - 52)))) * (2 powi (e - 52)) = a"
    unfolding u int rne_of_int by (simp add: a_def)
  have "fl (of_int n) = Fin (sgn (of_int n) * a)"
    using fl_finite[of e "of_int n", folded a_def] b e0 e53 unfolding v by simp
  also have "sgn (rat_of_int n) * a = of_int n" unfolding a_def by (simp add: sgn_mult_abs)
  finally show ?thesis .
qed

lemma fl_num: "\<bar>n\<bar> < 2 ^ 53 \<Longrightarrow> fl (of_int n) = num n"
  by (simp add: fl_of_int num_def)

subsection \<open>Number arithmetic on integers\<close>

lemma js_add_num: "\<bar>a + b\<bar> < 2 ^ 53 \<Longrightarrow> js_add (num a) (num b) = num (a + b)"
  using fl_num[of "a + b"] by (simp add: num_def)

lemma js_sub_num: "\<bar>a - b\<bar> < 2 ^ 53 \<Longrightarrow> js_sub (num a) (num b) = num (a - b)"
  using fl_num[of "a - b"] by (simp add: num_def js_sub_def js_neg_def)

lemma js_mul_num: "\<bar>a * b\<bar> < 2 ^ 53 \<Longrightarrow> js_mul (num a) (num b) = num (a * b)"
  using fl_num[of "a * b"] by (simp add: num_def)

lemma js_div_num_exact:
  "n \<noteq> 0 \<Longrightarrow> \<bar>k\<bar> < 2 ^ 53 \<Longrightarrow> js_div (num (k * n)) (num n) = num k"
  using fl_num[of k] by (simp add: num_def)

lemma Math_floor_num [simp]: "Math_floor (num k) = num k"
  by (simp add: Math_floor_def num_def)

lemma trunc_of_int [simp]: "trunc (of_int n) = n"
  by (simp add: trunc_def)

text \<open>The floor of a rounded quotient of integers is the integer quotient.\<close>

lemma floor_js_div:
  assumes "0 \<le> i" and "0 < n" and "i < 2 ^ 53" and "n < 2 ^ 53"
  shows "Math_floor (js_div (num i) (num n)) = num (i div n)"
proof (cases "i mod n = 0")
  case True
  then have "i = (i div n) * n" by (simp add: mod_eq_0_iff_dvd)
  moreover have "0 \<le> i div n" using assms by (simp add: pos_imp_zdiv_nonneg_iff)
  moreover have "i div n \<le> i" using zdiv_mono2[of i 1 n] assms by simp
  ultimately have "js_div (num i) (num n) = num (i div n)"
    using js_div_num_exact[of n "i div n"] assms by simp
  then show ?thesis by simp
next
  case False
  define q where "q = i div n"
  define m where "m = i mod n"
  define x :: rat where "x = of_int i / of_int n"
  have i: "i = q * n + m" unfolding q_def m_def by simp
  have "0 \<le> m" "m < n" unfolding m_def using assms(2) by simp_all
  then have m: "1 \<le> m" "m \<le> n - 1" using False unfolding m_def by linarith+
  have q0: "0 \<le> q" unfolding q_def using assms by (simp add: pos_imp_zdiv_nonneg_iff)
  have npos: "0 < rat_of_int n" using assms(2) by simp
  have xq: "x = of_int q + of_int m / of_int n"
    unfolding x_def i using assms(2) by (simp add: add_divide_distrib)
  have lo: "of_int q + 1 / of_int n \<le> x"
    unfolding xq using m(1) npos by (simp add: divide_right_mono)
  have "rat_of_int m / of_int n \<le> of_int (n - 1) / of_int n"
    using m(2) npos by (intro divide_right_mono) simp_all
  then have hi: "x \<le> of_int q + 1 - 1 / of_int n"
    unfolding xq using npos by (simp add: diff_divide_distrib)
  have inv: "0 < 1 / rat_of_int n" using npos by simp
  have q0': "0 \<le> rat_of_int q" using q0 by simp
  have xpos: "0 < x" using lo q0' inv by linarith
  have i53: "rat_of_int i < 2 ^ 53"
  proof -
    have "rat_of_int i < of_int (2 ^ 53)" using assms(3) by (simp only: of_int_less_iff)
    then show ?thesis by simp
  qed
  have n53: "rat_of_int n < 2 ^ 53"
  proof -
    have "rat_of_int n < of_int (2 ^ 53)" using assms(4) by (simp only: of_int_less_iff)
    then show ?thesis by simp
  qed
  have err: "x / 2 ^ 53 < 1 / of_int n"
  proof -
    have "rat_of_int i / of_int n < 2 ^ 53 / of_int n"
      using i53 npos by (simp only: divide_strict_right_mono)
    then show ?thesis unfolding x_def by (simp add: field_simps)
  qed
  define e where "e = ilog2 x"
  note b = ilog2_bounds[OF xpos, folded e_def]
  have x53: "x < 2 powi 53"
  proof -
    have "1 \<le> rat_of_int n" using assms(2) by simp
    then have "x \<le> of_int i" unfolding x_def using assms(1)
      by (simp add: divide_le_eq mult_le_cancel_left1 mult.commute)
    then show ?thesis using i53 by simp
  qed
  have xlow: "2 powi (- 53) < x"
  proof -
    have "(2::rat) powi (- 53) = 1 / 2 ^ 53" by (simp add: power_int_minus field_simps)
    also have "\<dots> < 1 / of_int n" using n53 npos by (simp add: divide_strict_left_mono)
    also have "\<dots> \<le> x" using lo q0' by linarith
    finally show ?thesis .
  qed
  have "2 powi e < (2::rat) powi 53" using b x53 by linarith
  then have e_hi: "e < 1023" using powi_less_cancel[of e 53] by linarith
  have "(2::rat) powi (- 53) < 2 powi (e + 1)" using b xlow by linarith
  then have e_lo: "- 1022 \<le> e" using powi_less_cancel[of "- 53" "e + 1"] by linarith
  have ax: "\<bar>x\<bar> = x" using xpos by simp
  obtain v where v: "fl x = Fin v" and "\<bar>v - x\<bar> \<le> \<bar>x\<bar> / 2 ^ 53"
    using fl_error[of e x] b e_lo e_hi unfolding ax by blast
  then have "\<bar>v - x\<bar> < 1 / of_int n" using err unfolding ax by linarith
  then have "of_int q < v \<and> v < of_int q + 1" using lo hi by linarith
  then have "\<lfloor>v\<rfloor> = q" by (intro floor_unique) simp_all
  moreover have "js_div (num i) (num n) = Fin v"
    using v assms(2) by (simp add: num_def x_def)
  ultimately show ?thesis by (simp add: Math_floor_def num_def q_def)
qed

subsection \<open>The leap-year test\<close>

lemma js_rem_zero_iff:
  assumes "n \<noteq> 0"
  shows "js_seq (js_rem (num y) (num n)) (num 0) \<longleftrightarrow> n dvd y"
proof
  assume "js_seq (js_rem (num y) (num n)) (num 0)"
  then have "rat_of_int y - of_int n * of_int (trunc (of_int y / of_int n)) = 0"
    using assms by (simp add: js_seq_def num_def)
  then have "rat_of_int y = of_int (n * trunc (of_int y / of_int n))" by simp
  then have "y = n * trunc (of_int y / of_int n)" by (simp only: of_int_eq_iff)
  then show "n dvd y" by (metis dvd_triv_left)
next
  assume "n dvd y"
  then obtain k where k: "y = n * k" by (auto simp: dvd_def)
  have "rat_of_int y / of_int n = of_int k" using assms by (simp add: k)
  then show "js_seq (js_rem (num y) (num n)) (num 0)"
    using assms by (simp add: js_seq_def num_def k)
qed

lemma isLeap_num: "isLeap (num y) \<longleftrightarrow> (4 dvd y \<and> \<not> 100 dvd y) \<or> 400 dvd y"
  by (simp add: isLeap_def js_sne_def js_rem_zero_iff)

lemma isLeap_NaN: "\<not> isLeap NaN"
  by (simp add: isLeap_def js_seq_def)

lemma DaysInYear_dvd:
  "DaysInYear y = (if (4 dvd y \<and> \<not> 100 dvd y) \<or> 400 dvd y then 366 else 365)"
  unfolding DaysInYear_def by (simp add: mod_eq_0_iff_dvd) presburger

lemma daysInYear_calc:
  "daysInYear (calcDateInfo env date) = (if isLeap (getFullYear env date) then num 366 else num 365)"
  by (simp add: calcDateInfo_def Let_def)

text \<open>
  C1. The leap-year test of \<open>calcDateInfo\<close> holds for a year exactly when the year is
  divisible by 4 and not by 100, or divisible by 400; and for every valid Date the
  \<open>daysInYear\<close> it returns is 366 exactly when the Date's (local) year is such a year,
  and 365 otherwise.
\<close>

theorem leap_year_test:
  "(isLeap (num Y) \<longleftrightarrow> (4 dvd Y \<and> \<not> 100 dvd Y) \<or> 400 dvd Y) \<and>
   daysInYear (calcDateInfo env (Some t)) =
     (if (4 dvd YearFromTime (LocalTime env t) \<and> \<not> 100 dvd YearFromTime (LocalTime env t))
          \<or> 400 dvd YearFromTime (LocalTime env t)
      then num 366 else num 365)"
  by (simp add: isLeap_num daysInYear_calc getFullYear_def)

theorem leap_year_test_witness:
  "isLeap (num 2024) \<and> \<not> isLeap (num 1900) \<and> isLeap (num 2000) \<and> \<not> isLeap (num 2023)"
  using leap_year_test[of 2024] leap_year_test[of 1900] leap_year_test[of 2000]
    leap_year_test[of 2023]
  by simp

subsection \<open>Years and days\<close>

lemma div_succ:
  fixes x c :: int
  assumes "0 < c"
  shows "(x + 1) div c = x div c + (if (x + 1) mod c = 0 then 1 else 0)"
proof -
  define q where "q = x div c"
  define m where "m = x mod c"
  have x: "x = q * c + m" and m: "0 \<le> m" "m < c" unfolding q_def m_def using assms by simp_all
  show ?thesis
  proof (cases "m + 1 = c")
    case True
    then have "x + 1 = (q + 1) * c" using x by (simp add: algebra_simps)
    then show ?thesis using assms by (simp add: q_def)
  next
    case False
    then have m1: "0 \<le> m + 1" "m + 1 < c" using m by linarith+
    have e: "x + 1 = q * c + (m + 1)" using x by simp
    have "(x + 1) div c = q" unfolding e using m1 by (simp add: div_pos_pos_trivial)
    moreover have "(x + 1) mod c = m + 1" unfolding e using m1 by (simp add: mod_pos_pos_trivial)
    ultimately show ?thesis using m by (simp add: q_def)
  qed
qed

lemma mod_shift:
  fixes y :: int
  shows "(y - 1968) mod 4 = y mod 4" "(y - 1900) mod 100 = y mod 100" "(y - 1600) mod 400 = y mod 400"
proof -
  have "(y + 4 * (- 492)) mod 4 = y mod 4" by (rule mod_mult_self2)
  then show "(y - 1968) mod 4 = y mod 4" by simp
  have "(y + 100 * (- 19)) mod 100 = y mod 100" by (rule mod_mult_self2)
  then show "(y - 1900) mod 100 = y mod 100" by simp
  have "(y + 400 * (- 4)) mod 400 = y mod 400" by (rule mod_mult_self2)
  then show "(y - 1600) mod 400 = y mod 400" by simp
qed

lemma mod_100_4: "(y::int) mod 100 = 0 \<Longrightarrow> y mod 4 = 0"
  and mod_400_100: "(y::int) mod 400 = 0 \<Longrightarrow> y mod 100 = 0"
  by (presburger, presburger)

lemma DayFromYear_step: "DayFromYear (y + 1) = DayFromYear y + DaysInYear y"
proof -
  have a: "(y + 1 - 1969) div 4 = (y - 1969) div 4 + (if y mod 4 = 0 then 1 else 0)"
    using div_succ[of 4 "y - 1969"] mod_shift(1)[of y] by (simp add: algebra_simps)
  have b: "(y + 1 - 1901) div 100 = (y - 1901) div 100 + (if y mod 100 = 0 then 1 else 0)"
    using div_succ[of 100 "y - 1901"] mod_shift(2)[of y] by (simp add: algebra_simps)
  have c: "(y + 1 - 1601) div 400 = (y - 1601) div 400 + (if y mod 400 = 0 then 1 else 0)"
    using div_succ[of 400 "y - 1601"] mod_shift(3)[of y] by (simp add: algebra_simps)
  show ?thesis
    unfolding DayFromYear_def DaysInYear_def a b c
    using mod_100_4[of y] mod_400_100[of y] by auto
qed

lemma DaysInYear_pos: "365 \<le> DaysInYear y" and DaysInYear_le: "DaysInYear y \<le> 366"
  by (simp_all add: DaysInYear_def)

lemma DayFromYear_mono_nat: "DayFromYear y \<le> DayFromYear (y + int n)"
proof (induction n)
  case 0
  then show ?case by simp
next
  case (Suc n)
  have "y + int (Suc n) = y + int n + 1" by simp
  then have "DayFromYear (y + int (Suc n)) = DayFromYear (y + int n) + DaysInYear (y + int n)"
    using DayFromYear_step[of "y + int n"] by (simp only:)
  then show ?case using Suc DaysInYear_pos[of "y + int n"] by linarith
qed

lemma DayFromYear_mono: "y \<le> z \<Longrightarrow> DayFromYear y \<le> DayFromYear z"
  using DayFromYear_mono_nat[of y "nat (z - y)"] by simp

text \<open>Four hundred times the day number of a year, against the average year length.\<close>

lemma DayFromYear_bounds:
  "146097 * y - 287811596 \<le> 400 * DayFromYear y"
  "400 * DayFromYear y \<le> 146097 * y - 287810501"
proof -
  define a where "a = (y - 1969) div 4"
  define b where "b = (y - 1901) div 100"
  define c where "c = (y - 1601) div 400"
  define ra where "ra = (y - 1969) mod 4"
  define rb where "rb = (y - 1901) mod 100"
  define rc where "rc = (y - 1601) mod 400"
  have a: "y - 1969 = 4 * a + ra" unfolding a_def ra_def by simp
  have b: "y - 1901 = 100 * b + rb" unfolding b_def rb_def by simp
  have c: "y - 1601 = 400 * c + rc" unfolding c_def rc_def by simp
  have r: "0 \<le> ra" "ra < 4" "0 \<le> rb" "rb < 100" "0 \<le> rc" "rc < 400"
    unfolding ra_def rb_def rc_def by simp_all
  have d: "DayFromYear y = 365 * y - 719050 + a - b + c"
    by (simp add: DayFromYear_def a_def b_def c_def)
  show "146097 * y - 287811596 \<le> 400 * DayFromYear y"
    using d a b c r by linarith
  show "400 * DayFromYear y \<le> 146097 * y - 287810501"
    using d a b c r by linarith
qed

lemma YearFromTime_bounds:
  "DayFromYear (YearFromTime t) \<le> Day t \<and> Day t < DayFromYear (YearFromTime t + 1)"
proof -
  define d where "d = Day t"
  define q where "q = (400 * d) div 146097"
  define m where "m = (400 * d) mod 146097"
  define y where "y = 1970 + q"
  have "400 * d = 146097 * q + m" unfolding q_def m_def by simp
  moreover have "0 \<le> m" "m < 146097" unfolding m_def by simp_all
  ultimately have q: "146097 * y - 287811090 \<le> 400 * d" "400 * d < 146097 * y - 287664993"
    using y_def by linarith+
  define y1 where "y1 = y - 1"
  define y2 where "y2 = y + 2"
  have lo: "DayFromYear y1 \<le> d"
    using DayFromYear_bounds(2)[of y1] q y1_def by linarith
  have hi: "d < DayFromYear y2"
    using DayFromYear_bounds(1)[of y2] q y2_def by linarith
  have yt: "YearFromTime t =
      (if DayFromYear (y + 1) \<le> d then y + 1 else if DayFromYear y \<le> d then y else y - 1)"
    by (simp add: YearFromTime_def Let_def d_def y_def q_def)
  have s: "y + 1 + 1 = y + 2" "y - 1 + 1 = y" by simp_all
  show ?thesis
    unfolding d_def[symmetric] yt using lo hi unfolding y1_def y2_def by (auto simp: s)
qed

lemma YearFromTime_eq:
  assumes "DayFromYear Y \<le> Day t" and "Day t < DayFromYear (Y + 1)"
  shows "YearFromTime t = Y"
proof (rule ccontr)
  assume ne: "YearFromTime t \<noteq> Y"
  note b = YearFromTime_bounds[of t]
  show False
  proof (cases "YearFromTime t < Y")
    case True
    then have "DayFromYear (YearFromTime t + 1) \<le> DayFromYear Y" by (intro DayFromYear_mono) simp
    then show False using b assms by linarith
  next
    case False
    with ne have "DayFromYear (Y + 1) \<le> DayFromYear (YearFromTime t)"
      by (intro DayFromYear_mono) simp
    then show False using b assms by linarith
  qed
qed

lemma DayWithinYear_bounds: "0 \<le> DayWithinYear t \<and> DayWithinYear t < DaysInYear (YearFromTime t)"
  using YearFromTime_bounds[of t] DayFromYear_step[of "YearFromTime t"]
  by (simp add: DayWithinYear_def)

lemma Day_mult [simp]: "Day (d * msPerDay) = d"
  by (simp add: Day_def msPerDay_def)

subsection \<open>Date objects at local midnight\<close>

lemma MakeFullYear_num:
  "MakeFullYear (num Y) = (if 0 \<le> Y \<and> Y \<le> 99 then num (1900 + Y) else num Y)"
  by (simp add: MakeFullYear_def num_def Let_def)

lemma MakeDay_num:
  "MakeDay (num y) (num m) (num d) =
     Some (DayFromYear (y + m div 12)
           + month_start (m mod 12) (if DaysInYear (y + m div 12) = 366 then 1 else 0) + d - 1)"
  by (simp add: MakeDay_def num_def Let_def)

lemma Date_local_jan1:
  assumes "Y < 0 \<or> 99 < Y"
  shows "Date_local env (num Y) (num 0) (num 1) = TimeClip (DayFromYear Y * msPerDay - LocalTZA env)"
  using assms
  by (auto simp: Date_local_def MakeFullYear_num MakeDay_num month_start_def MakeDate_def UTC_def)

lemma Date_local_dec31:
  assumes "Y < 0 \<or> 99 < Y"
  shows "Date_local env (num Y) (num 11) (num 31) =
     TimeClip ((DayFromYear Y + DaysInYear Y - 1) * msPerDay - LocalTZA env)"
proof -
  have m: "month_start 11 (if DaysInYear Y = 366 then 1 else 0) = DaysInYear Y - 31"
    by (simp add: month_start_def DaysInYear_def)
  have f: "MakeFullYear (num Y) = num Y" using assms by (auto simp: MakeFullYear_num)
  have "MakeDay (num Y) (num 11) (num 31) = Some (DayFromYear Y + DaysInYear Y - 1)"
    unfolding MakeDay_num by (simp add: m)
  then show ?thesis by (simp add: Date_local_def f MakeDate_def UTC_def)
qed

lemma DayFromYear_range:
  assumes "- 271820 \<le> Y" and "Y \<le> 275759"
  shows "- 99999744 \<le> DayFromYear Y" and "DayFromYear Y + DaysInYear Y \<le> 99999744"
proof -
  have "DayFromYear (- 271820) = - 99999744" by (simp add: DayFromYear_def)
  then show "- 99999744 \<le> DayFromYear Y" using DayFromYear_mono[OF assms(1)] by simp
  have "DayFromYear 275760 = 99999744" by (simp add: DayFromYear_def)
  moreover have "Y + 1 \<le> 275760" using assms(2) by simp
  ultimately show "DayFromYear Y + DaysInYear Y \<le> 99999744"
    using DayFromYear_mono[of "Y + 1" 275760] DayFromYear_step[of Y] by simp
qed

lemma TimeClip_day:
  assumes "\<bar>o'\<bar> \<le> msPerDay" and "- 99999744 \<le> d" and "d < 99999744"
  shows "TimeClip (d * msPerDay - o') = Some (d * msPerDay - o')"
proof -
  have "- 99999744 * msPerDay \<le> d * msPerDay" "d * msPerDay \<le> 99999743 * msPerDay"
    using assms(2,3) by (simp_all add: msPerDay_def)
  then have "\<bar>d * msPerDay - o'\<bar> \<le> 8640000000000000"
    using assms(1) by (simp add: msPerDay_def)
  then show ?thesis by (simp add: TimeClip_def)
qed

lemma isLeap_DaysInYear:
  "(if isLeap (num Y) then num 366 else num 365) = num (DaysInYear Y)"
  by (simp add: isLeap_num DaysInYear_dvd)

text \<open>
  The metrics of a civil date: a Date at local midnight of day \<open>k\<close> (counted from 0) of a
  year that a Date can hold from its first to its last day, outside the years 0 to 99.
\<close>

lemma calc_midnight:
  assumes host: "\<bar>LocalTZA env\<bar> \<le> msPerDay"
    and t: "LocalTime env t = (DayFromYear Y + k) * msPerDay"
    and k: "0 \<le> k" "k < DaysInYear Y"
    and Y: "Y < 0 \<or> 99 < Y" "- 271820 \<le> Y" "Y \<le> 275759"
  shows "dayOfYear (calcDateInfo env (Some t)) = num (k + 1)"
    and "daysLeft (calcDateInfo env (Some t)) = num (DaysInYear Y - 1 - k)"
    and "daysInYear (calcDateInfo env (Some t)) = num (DaysInYear Y)"
    and "percent (calcDateInfo env (Some t)) =
           Number_toFixed (general env) (js_mul (js_div (num (k + 1)) (num (DaysInYear Y))) (num 100)) 1"
    and "getDayOfYear env (Some t) = num (k + 1)"
proof -
  note r = DayFromYear_range[OF Y(2,3)]
  have d366: "DaysInYear Y \<le> 366" by (rule DaysInYear_le)
  have day: "Day (LocalTime env t) = DayFromYear Y + k" unfolding t by simp
  have yr: "YearFromTime (LocalTime env t) = Y"
    using k DayFromYear_step[of Y] by (intro YearFromTime_eq) (simp_all add: day)
  have gy: "getFullYear env (Some t) = num Y" by (simp add: getFullYear_def yr)
  have tv: "t = (DayFromYear Y + k) * msPerDay - LocalTZA env"
    using t by (simp add: LocalTime_def)
  have jan1: "Date_local env (num Y) (num 0) (num 1) = Some (DayFromYear Y * msPerDay - LocalTZA env)"
    unfolding Date_local_jan1[OF Y(1)] using host r k d366 by (intro TimeClip_day) simp_all
  have dec31: "Date_local env (num Y) (num 11) (num 31)
      = Some ((DayFromYear Y + DaysInYear Y - 1) * msPerDay - LocalTZA env)"
    unfolding Date_local_dec31[OF Y(1)] using host r k d366 by (intro TimeClip_day) simp_all
  have e1: "t - (DayFromYear Y * msPerDay - LocalTZA env) = k * msPerDay"
    unfolding tv by (simp add: algebra_simps)
  have e2: "(DayFromYear Y + DaysInYear Y - 1) * msPerDay - LocalTZA env - t
      = (DaysInYear Y - 1 - k) * msPerDay"
    unfolding tv by (simp add: algebra_simps)
  have small: "\<bar>j * msPerDay\<bar> < 2 ^ 53" if "0 \<le> j" "j \<le> 366" for j
  proof -
    have "j * msPerDay \<le> 366 * msPerDay" using that by (simp add: msPerDay_def)
    then show ?thesis using that by (simp add: msPerDay_def)
  qed
  have quot: "Math_floor (js_div (js_sub (num (a + j * msPerDay)) (num a)) (num 86400000)) = num j"
    if "0 \<le> j" "j \<le> 366" for a j
  proof -
    have "js_sub (num (a + j * msPerDay)) (num a) = num (j * msPerDay)"
      using js_sub_num[of "a + j * msPerDay" a] small[OF that] by simp
    moreover have "js_div (num (j * msPerDay)) (num msPerDay) = num j"
      using that by (intro js_div_num_exact) (simp_all add: msPerDay_def)
    ultimately show ?thesis by (simp add: msPerDay_def)
  qed
  have t1: "t = (DayFromYear Y * msPerDay - LocalTZA env) + k * msPerDay"
    using e1 by linarith
  have t2: "(DayFromYear Y + DaysInYear Y - 1) * msPerDay - LocalTZA env
      = t + (DaysInYear Y - 1 - k) * msPerDay"
    using e2 by linarith
  have q1: "Math_floor (js_div (js_sub (valueOf (Some t))
        (valueOf (Some (DayFromYear Y * msPerDay - LocalTZA env)))) (num 86400000)) = num k"
    using quot[of k "DayFromYear Y * msPerDay - LocalTZA env"] k d366
    unfolding t1[symmetric] by (simp add: valueOf_def)
  have q2: "Math_floor (js_div (js_sub
        (valueOf (Some ((DayFromYear Y + DaysInYear Y - 1) * msPerDay - LocalTZA env)))
        (valueOf (Some t))) (num 86400000)) = num (DaysInYear Y - 1 - k)"
    using quot[of "DaysInYear Y - 1 - k" t] k d366
    unfolding t2[symmetric] by (simp add: valueOf_def)
  have add1: "js_add (num k) (num 1) = num (k + 1)"
    using k d366 by (intro js_add_num) simp
  show "dayOfYear (calcDateInfo env (Some t)) = num (k + 1)"
    by (simp add: calcDateInfo_def Let_def gy jan1 q1 add1)
  show "daysLeft (calcDateInfo env (Some t)) = num (DaysInYear Y - 1 - k)"
    by (simp add: calcDateInfo_def Let_def gy dec31 q2)
  show "daysInYear (calcDateInfo env (Some t)) = num (DaysInYear Y)"
    by (simp add: calcDateInfo_def Let_def gy isLeap_DaysInYear)
  show "percent (calcDateInfo env (Some t)) =
      Number_toFixed (general env) (js_mul (js_div (num (k + 1)) (num (DaysInYear Y))) (num 100)) 1"
    by (simp add: calcDateInfo_def Let_def gy jan1 q1 add1 isLeap_DaysInYear)
  show "getDayOfYear env (Some t) = num (k + 1)"
    by (simp add: getDayOfYear_def Let_def gy jan1 q1 add1)
qed

subsection \<open>Civil dates\<close>

lemma num_eq_iff [simp]: "num a = num b \<longleftrightarrow> a = b"
  by (simp add: num_def)

lemma midnight_Day:
  assumes "lt mod msPerDay = 0"
  shows "lt = Day lt * msPerDay"
  using assms by (simp add: Day_def msPerDay_def mod_eq_0_iff_dvd)

lemma InLeapYear_eq: "InLeapYear lt = (if DaysInYear (YearFromTime lt) = 366 then 1 else 0)"
  by (simp add: InLeapYear_def)


lemma dec31_DayWithinYear:
  assumes "MonthFromTime lt = 11" and "DateFromTime lt = 31"
  shows "DayWithinYear lt = DaysInYear (YearFromTime lt) - 1"
proof -
  have "DaysInYear (YearFromTime lt) = 365 \<or> DaysInYear (YearFromTime lt) = 366"
    by (simp add: DaysInYear_def)
  then show ?thesis using assms
    by (auto simp: DateFromTime_def month_start_def InLeapYear_eq)
qed

text \<open>The metrics of any Date at local midnight, by the day within its year.\<close>

lemma calc_civil:
  assumes host: "\<bar>LocalTZA env\<bar> < msPerDay"
    and mid: "LocalTime env t mod msPerDay = 0"
    and Y: "getFullYear env (Some t) = num Y" "Y < 0 \<or> 99 < Y" "- 271820 \<le> Y" "Y \<le> 275759"
  defines "k \<equiv> DayWithinYear (LocalTime env t)"
  shows "dayOfYear (calcDateInfo env (Some t)) = num (k + 1)"
    and "daysLeft (calcDateInfo env (Some t)) = num (DaysInYear Y - 1 - k)"
    and "daysInYear (calcDateInfo env (Some t)) = num (DaysInYear Y)"
    and "percent (calcDateInfo env (Some t)) =
           Number_toFixed (general env) (js_mul (js_div (num (k + 1)) (num (DaysInYear Y))) (num 100)) 1"
    and "getDayOfYear env (Some t) = num (k + 1)"
    and "0 \<le> k" and "k < DaysInYear Y"
proof -
  have yr: "YearFromTime (LocalTime env t) = Y" using Y(1) by (simp add: getFullYear_def)
  have kb: "0 \<le> k" "k < DaysInYear Y"
    using DayWithinYear_bounds[of "LocalTime env t"] unfolding k_def yr by simp_all
  have "Day (LocalTime env t) = DayFromYear Y + k"
    unfolding k_def DayWithinYear_def yr by simp
  then have lt: "LocalTime env t = (DayFromYear Y + k) * msPerDay"
    using midnight_Day[OF mid] by simp
  have h: "\<bar>LocalTZA env\<bar> \<le> msPerDay" using host by simp
  note c = calc_midnight[OF h lt kb Y(2,3,4)]
  show "dayOfYear (calcDateInfo env (Some t)) = num (k + 1)" by (rule c(1))
  show "daysLeft (calcDateInfo env (Some t)) = num (DaysInYear Y - 1 - k)" by (rule c(2))
  show "daysInYear (calcDateInfo env (Some t)) = num (DaysInYear Y)" by (rule c(3))
  show "percent (calcDateInfo env (Some t)) =
      Number_toFixed (general env) (js_mul (js_div (num (k + 1)) (num (DaysInYear Y))) (num 100)) 1"
    by (rule c(4))
  show "getDayOfYear env (Some t) = num (k + 1)" by (rule c(5))
  show "0 \<le> k" "k < DaysInYear Y" by (rule kb)+
qed

subsection \<open>Evaluating dates\<close>

lemma sample_host_simps [simp]:
  "LocalTZA sample_host = 0" "now sample_host = 1735646400000"
  "formatToParts sample_host tz t = None"
  "existsSync sample_host name = (name = ''day-365.png'')"
  "readFont sample_host = Inr ''T1RUTw==''"
  "toBuffer sample_host job = Inr [255, 216, 255]"
  "general sample_host x = ''?''"
  by (simp_all add: sample_host_def)

lemmas date_eval =
  YearFromTime_def Day_def msPerDay_def DayFromYear_def DaysInYear_def Let_def
  DayWithinYear_def InLeapYear_def MonthFromTime_def DateFromTime_def month_start_def
  LocalTime_def UTC_def getFullYear_def getMonth_def getDate_def
  getUTCFullYear_def getUTCMonth_def getUTCDate_def

subsection \<open>Evaluating conversions\<close>

lemma floor_eqI: "of_int z \<le> x \<Longrightarrow> x < of_int z + 1 \<Longrightarrow> \<lfloor>x\<rfloor> = z"
  for x :: rat
  by (rule floor_unique)

lemma digits10_digit: "0 \<le> n \<Longrightarrow> n < 10 \<Longrightarrow> digits10 n = [''0123456789'' ! nat n]"
  by (simp add: digits10.simps)

lemma digits10_more: "10 \<le> n \<Longrightarrow> digits10 n = digits10 (n div 10) @ [''0123456789'' ! nat (n mod 10)]"
  by (subst digits10.simps) simp

lemma Number_toString_num:
  "\<bar>n\<bar> < 2 ^ 53 \<Longrightarrow>
     Number_toString g (num n) = (if n < 0 then ''-'' else []) @ digits10 \<bar>n\<bar>"
proof -
  assume "\<bar>n\<bar> < 2 ^ 53"
  then have "rat_of_int \<bar>n\<bar> < of_int (2 ^ 53)" by (simp only: of_int_less_iff)
  then have "\<bar>rat_of_int n\<bar> < 2 ^ 53" by simp
  then show ?thesis by (simp add: Number_toString_def num_def)
qed

lemma Number_toString_NaN [simp]: "Number_toString g NaN = ''NaN''"
  by (simp add: Number_toString_def)

lemma Number_toFixed_NaN [simp]: "Number_toFixed g NaN f = ''NaN''"
  by (simp add: Number_toFixed_def)

lemma dropWhile_hd: "xs \<noteq> [] \<Longrightarrow> \<not> P (hd xs) \<Longrightarrow> dropWhile P xs = xs"
  by (cases xs) simp_all

lemma Number_of_string_digits:
  assumes "s \<noteq> []" and "\<forall>c \<in> set s. is_digit c" and "digits_val 10 0 s = Some n" and "\<bar>n\<bar> < 2 ^ 53"
  shows "Number_of_string s = num n"
proof -
  have nws: "\<not> is_ws c" if "is_digit c" for c
    using that by (auto simp: is_ws_def is_digit_def)
  have h: "\<not> is_ws (hd s)" and l: "\<not> is_ws (last s)"
    using assms(1,2) nws by (simp_all add: hd_in_set last_in_set)
  have "dropWhile is_ws s = s" using h assms(1) by (rule dropWhile_hd[rotated])
  moreover have "dropWhile is_ws (rev s) = rev s"
    using l assms(1) by (intro dropWhile_hd) (simp_all add: hd_rev)
  ultimately have tr: "trim s = s" by (simp add: trim_def)
  have tw: "takeWhile is_digit s = s" "dropWhile is_digit s = []" using assms(2) by simp_all
  have c0: "hd s \<noteq> CHR ''+''" "hd s \<noteq> CHR ''-''"
    using assms(1,2) by (auto simp: is_digit_def dest!: hd_in_set)
  have inf: "s \<noteq> ''Infinity''" using assms(2) by (auto simp: is_digit_def)
  have u: "StrUnsignedDecimalLiteral s = Some (fl (of_int n))"
    using assms(1,3) inf by (simp add: StrUnsignedDecimalLiteral_def tw Let_def ExponentPart_def)
  have "StrDecimalLiteral s = Some (fl (of_int n))"
    using assms(1) c0 u by (cases s) (simp_all add: StrDecimalLiteral_def)
  then show ?thesis using assms(1,4) by (simp add: Number_of_string_def tr Let_def fl_num)
qed

lemma Number_of_string_examples:
  "Number_of_string ''2024'' = num 2024" "Number_of_string ''01'' = num 1"
  "Number_of_string ''100'' = num 100" "Number_of_string ''0'' = num 0"
  "Number_of_string ''31'' = num 31" "Number_of_string ''275760'' = num 275760"
  "Number_of_string ''12'' = num 12"
  by (rule Number_of_string_digits; simp add: is_digit_def digit_val_def)+

lemma Number_of_string_abc: "Number_of_string ''abc'' = NaN"
  by (simp add: Number_of_string_def trim_def is_ws_def StrDecimalLiteral_def
      StrUnsignedDecimalLiteral_def is_digit_def NonDecimalIntegerLiteral_def Let_def)

lemma js_sub_1: "\<bar>n - 1\<bar> < 2 ^ 53 \<Longrightarrow> js_sub (num n) (num 1) = num (n - 1)"
  by (rule js_sub_num)

lemma parse_2024_01_01:
  "parseDateInTz env (Some ''2024-01-01'') tz = Date_local env (num 2024) (num 0) (num 1)"
  using js_sub_1[of 1]
  by (simp add: parseDateInTz_def truthy_def Let_def element_def ToNumber_def
      Number_of_string_examples)


lemma parse_abc: "parseDateInTz env (Some ''abc'') tz = None"
  by (simp add: parseDateInTz_def truthy_def Let_def element_def ToNumber_def
      Number_of_string_abc Date_local_def MakeFullYear_def MakeDay_def)

subsection \<open>The scenario of 1 January 2024\<close>

lemma toFixed_1:
  assumes "0 \<le> x" and "x < 10 ^ 21" and "\<lfloor>x * 10 + 1 / 2\<rfloor> = n"
  shows "Number_toFixed g (Fin x) 1 =
    (let m = digits10 n;
         m' = (if length m \<le> 1 then replicate (2 - length m) CHR ''0'' @ m else m)
     in take (length m' - 1) m' @ ''.'' @ drop (length m' - 1) m')"
  using assms by (simp add: Number_toFixed_def Let_def)

lemma percent_1_of_366:
  "Number_toFixed g (js_mul (js_div (num 1) (num 366)) (num 100)) 1 = ''0.3''"
proof -
  define p :: rat where "p = 4921966805869395 / 18014398509481984"
  have a: "fl (1 / 366) = Fin (6300117511512825 / 2305843009213693952)"
    using fl_nearest[of "- 9" "1 / 366" 6300117511512825] by (simp add: power_int_minus)
  have b: "fl (6300117511512825 / 2305843009213693952 * 100) = Fin p"
    using fl_nearest[of "- 2" "6300117511512825 / 2305843009213693952 * 100" 4921966805869395]
    by (simp add: power_int_minus p_def)
  have q: "js_mul (js_div (num 1) (num 366)) (num 100) = Fin p"
    using a b by (simp add: num_def)
  have f: "\<lfloor>p * 10 + 1 / 2\<rfloor> = 3"
    by (rule floor_eqI) (simp_all add: p_def)
  have d: "digits10 3 = ''3''" by (simp add: digits10_digit)
  have "0 \<le> p" "p < 10 ^ 21" by (simp_all add: p_def)
  then show ?thesis unfolding q using toFixed_1[OF _ _ f, of g] by (simp add: d)
qed

text \<open>
  C4. For the request with date override 2024-01-01 (whatever its time zone parameter,
  on any host whose offset from UTC is below a day), the metrics are day 1 of 366, 365
  days left, and the percentage printed with one decimal is ``0.3''.
\<close>

theorem metrics_2024_01_01:
  assumes "\<bar>LocalTZA env\<bar> < msPerDay"
  shows "calcDateInfo env (parseDateInTz env (Some ''2024-01-01'') tz) =
    \<lparr>dayOfYear = num 1, daysLeft = num 365, percent = ''0.3'', daysInYear = num 366\<rparr>"
proof -
  define t where "t = DayFromYear 2024 * msPerDay - LocalTZA env"
  have h: "\<bar>LocalTZA env\<bar> \<le> msPerDay" using assms by simp
  have dfy: "DayFromYear 2024 = 19723" by (simp add: DayFromYear_def)
  have diy: "DaysInYear 2024 = 366" by (simp add: DaysInYear_def)
  have "Date_local env (num 2024) (num 0) (num 1) = TimeClip t"
    unfolding t_def by (rule Date_local_jan1) simp
  also have "\<dots> = Some t" unfolding t_def using h by (intro TimeClip_day) (simp_all add: dfy)
  finally have p: "parseDateInTz env (Some ''2024-01-01'') tz = Some t"
    by (simp add: parse_2024_01_01)
  have lt: "LocalTime env t = (DayFromYear 2024 + 0) * msPerDay"
    by (simp add: LocalTime_def t_def)
  note c = calc_midnight[OF h lt, simplified diy]
  have "calcDateInfo env (Some t) =
      \<lparr>dayOfYear = dayOfYear (calcDateInfo env (Some t)),
       daysLeft = daysLeft (calcDateInfo env (Some t)),
       percent = percent (calcDateInfo env (Some t)),
       daysInYear = daysInYear (calcDateInfo env (Some t))\<rparr>"
    by simp
  also have "\<dots> = \<lparr>dayOfYear = num 1, daysLeft = num 365, percent = ''0.3'', daysInYear = num 366\<rparr>"
    using c percent_1_of_366[of "general env"] by simp
  finally show ?thesis unfolding p .
qed

theorem metrics_2024_01_01_witness:
  "\<bar>LocalTZA sample_host\<bar> < msPerDay \<and>
   calcDateInfo sample_host (parseDateInTz sample_host (Some ''2024-01-01'') (Some ''UTC'')) =
    \<lparr>dayOfYear = num 1, daysLeft = num 365, percent = ''0.3'', daysInYear = num 366\<rparr>"
proof -
  have h: "\<bar>LocalTZA sample_host\<bar> < msPerDay" by (simp add: msPerDay_def)
  show ?thesis using h metrics_2024_01_01[OF h, of "Some ''UTC''"] by simp
qed

subsection \<open>Day of the year and days left\<close>




lemma Date_local_NaN [simp]: "Date_local env NaN m d = None"
  by (simp add: Date_local_def MakeFullYear_def MakeDay_def)

lemma calc_invalid:
  "dayOfYear (calcDateInfo env None) = NaN" "daysLeft (calcDateInfo env None) = NaN"
  "percent (calcDateInfo env None) = ''NaN''" "daysInYear (calcDateInfo env None) = num 365"
  "getDayOfYear env None = NaN"
  by (simp_all add: calcDateInfo_def getDayOfYear_def Let_def getFullYear_def valueOf_def
      isLeap_NaN Math_floor_def js_sub_def js_neg_def)


subsection \<open>Dates at any time of the day\<close>

text \<open>A quotient between -1 and 0 is rounded to a Number between -1 and 0.\<close>

lemma neg_day_quot:
  assumes "0 < r" and "r < 86400000"
  shows "Math_floor (js_div (num (- r)) (num 86400000)) = num (- 1)"
proof -
  define x :: rat where "x = - of_int r / 86400000"
  have r1: "1 \<le> rat_of_int r" using assms(1) by simp
  have r2: "rat_of_int r \<le> 86399999"
  proof -
    have "r \<le> 86399999" using assms(2) by simp
    then have "rat_of_int r \<le> of_int 86399999" by (simp only: of_int_le_iff)
    then show ?thesis by simp
  qed
  have xneg: "x < 0" unfolding x_def using r1 by simp
  have ax: "\<bar>x\<bar> = of_int r / 86400000" unfolding x_def using r1 by simp
  have lo: "1 / 86400000 \<le> \<bar>x\<bar>" unfolding ax using r1 by (simp add: divide_right_mono)
  have hi: "\<bar>x\<bar> \<le> 86399999 / 86400000" unfolding ax using r2 by (simp add: divide_right_mono)
  define e where "e = ilog2 \<bar>x\<bar>"
  have apos: "0 < \<bar>x\<bar>" using lo by linarith
  note b = ilog2_bounds[OF apos, folded e_def]
  have "(2::rat) powi e < 2 powi 0" using b hi by simp
  then have e0: "e < 0" by (rule powi_less_cancel)
  have "(2::rat) powi (- 27) = 1 / 134217728" by (simp add: power_int_minus divide_simps)
  then have "(2::rat) powi (- 27) < 2 powi (e + 1)" using b lo by linarith
  then have e27: "- 27 < e + 1" by (rule powi_less_cancel)
  obtain v where v: "fl x = Fin v" "\<bar>v - x\<bar> \<le> \<bar>x\<bar> / 2 ^ 53"
    using fl_error[of e x] b e0 e27 by auto
  have small: "\<bar>x\<bar> / 2 ^ 53 < 1 / 86400000" using hi by simp
  have "\<bar>x\<bar> / 2 ^ 53 < \<bar>x\<bar>" using apos by simp
  then have vneg: "v < 0" using v(2) xneg by linarith
  have "- 1 < x - \<bar>x\<bar> / 2 ^ 53" using hi small xneg by linarith
  then have vlo: "- 1 < v" using v(2) by linarith
  have "\<lfloor>v\<rfloor> = - 1" using vneg vlo by (intro floor_eqI) simp_all
  moreover have "js_div (num (- r)) (num 86400000) = Fin v"
    using v(1) by (simp add: num_def x_def)
  ultimately show ?thesis by (simp add: Math_floor_def num_def)
qed

lemma any_day_quot:
  assumes "- 86400000 < d" and "d < 2 ^ 53"
  shows "Math_floor (js_div (num d) (num 86400000)) = num (d div 86400000)"
proof (cases "0 \<le> d")
  case True
  then show ?thesis using assms(2) by (intro floor_js_div) simp_all
next
  case False
  then have r: "0 < - d" "- d < 86400000" using assms(1) by simp_all
  have "d div 86400000 = - 1" using r by (simp add: div_pos_neg_trivial zdiv_int)
  then show ?thesis using neg_day_quot[OF r] by simp
qed

lemma day_split:
  assumes "0 \<le> r" and "r < 86400000"
  shows "(j * 86400000 + r) div 86400000 = (j::int)"
    and "(j * 86400000 - r) div 86400000 = (if r = 0 then j else j - 1)"
proof -
  show "(j * 86400000 + r) div 86400000 = j" using assms by simp
  show "(j * 86400000 - r) div 86400000 = (if r = 0 then j else j - 1)"
  proof (cases "r = 0")
    case True
    then show ?thesis by simp
  next
    case False
    have "j * 86400000 - r = (j - 1) * 86400000 + (86400000 - r)" by (simp add: algebra_simps)
    moreover have "((j - 1) * 86400000 + (86400000 - r)) div 86400000 = j - 1"
      using assms False by simp
    ultimately show ?thesis using False by simp
  qed
qed

text \<open>
  The metrics of any Date, at whatever time of its day, by the day \<open>k\<close> within its local
  year (counted from 0): the day of the year is \<open>k + 1\<close>; the days left are those of a
  Date at local midnight, and one fewer at any other time of the day.
\<close>

lemma calc_any:
  assumes host: "\<bar>LocalTZA env\<bar> < msPerDay"
    and valid: "\<bar>t\<bar> \<le> 8640000000000000"
    and Y: "getFullYear env (Some t) = num Y" "Y < 0 \<or> 99 < Y" "- 271820 \<le> Y"
  defines "k \<equiv> DayWithinYear (LocalTime env t)"
    and "r \<equiv> LocalTime env t mod msPerDay"
  shows "dayOfYear (calcDateInfo env (Some t)) = num (k + 1)"
    and "getDayOfYear env (Some t) = num (k + 1)"
    and "daysInYear (calcDateInfo env (Some t)) = num (DaysInYear Y)"
    and "0 \<le> k" and "k < DaysInYear Y"
    and "Y \<le> 275759 \<Longrightarrow> daysLeft (calcDateInfo env (Some t)) =
           num (if r = 0 then DaysInYear Y - 1 - k else DaysInYear Y - 2 - k)"
proof -
  have yr: "YearFromTime (LocalTime env t) = Y" using Y(1) by (simp add: getFullYear_def)
  show kb: "0 \<le> k" "k < DaysInYear Y"
    using DayWithinYear_bounds[of "LocalTime env t"] unfolding k_def yr by simp_all
  have d366: "DaysInYear Y \<le> 366" by (rule DaysInYear_le)
  have rb: "0 \<le> r" "r < 86400000" unfolding r_def by (simp_all add: msPerDay_def)
  have day: "Day (LocalTime env t) = DayFromYear Y + k"
    unfolding k_def DayWithinYear_def yr by simp
  have "LocalTime env t = Day (LocalTime env t) * 86400000 + r"
    unfolding r_def by (simp add: Day_def msPerDay_def)
  then have tv: "t = (DayFromYear Y + k) * 86400000 + r - LocalTZA env"
    unfolding day by (simp add: LocalTime_def)
  have tz: "- 86400000 < LocalTZA env" "LocalTZA env < 86400000"
    using host by (simp_all add: msPerDay_def)
  define j where "j = DayFromYear Y * 86400000 - LocalTZA env"
  have "DayFromYear (- 271820) = - 99999744" by (simp add: DayFromYear_def)
  then have lo: "- 99999744 \<le> DayFromYear Y" using DayFromYear_mono[OF Y(3)] by simp
  have t1: "t = j + (k * 86400000 + r)" unfolding tv j_def by (simp add: algebra_simps)
  have jv: "\<bar>j\<bar> \<le> 8640000000000000"
  proof -
    have "j \<le> t" using t1 kb(1) rb(1) by simp
    moreover have "- 8639977881600000 \<le> DayFromYear Y * 86400000" using lo by simp
    ultimately show ?thesis using valid tz unfolding j_def by simp
  qed
  have gy: "getFullYear env (Some t) = num Y" by (rule Y(1))
  have jan1: "Date_local env (num Y) (num 0) (num 1) = Some j"
    unfolding Date_local_jan1[OF Y(2)] j_def[symmetric, unfolded msPerDay_def[symmetric]]
    using jv by (simp add: TimeClip_def msPerDay_def j_def)
  have d1: "0 \<le> k * 86400000 + r" "k * 86400000 + r < 2 ^ 53"
    using kb d366 rb by simp_all
  have s1: "js_sub (num t) (num j) = num (k * 86400000 + r)"
    using js_sub_num[of t j] d1 unfolding t1 by simp
  have q1: "Math_floor (js_div (js_sub (valueOf (Some t)) (valueOf (Some j))) (num 86400000)) = num k"
    using any_day_quot[of "k * 86400000 + r"] d1 day_split(1)[OF rb, of k]
    by (simp add: valueOf_def s1)
  have add1: "js_add (num k) (num 1) = num (k + 1)"
    using kb d366 by (intro js_add_num) simp
  show "dayOfYear (calcDateInfo env (Some t)) = num (k + 1)"
    by (simp add: calcDateInfo_def Let_def gy jan1 q1 add1)
  show "getDayOfYear env (Some t) = num (k + 1)"
    by (simp add: getDayOfYear_def Let_def gy jan1 q1 add1)
  show "daysInYear (calcDateInfo env (Some t)) = num (DaysInYear Y)"
    by (simp add: calcDateInfo_def Let_def gy isLeap_DaysInYear)
  show "daysLeft (calcDateInfo env (Some t)) =
      num (if r = 0 then DaysInYear Y - 1 - k else DaysInYear Y - 2 - k)"
    if up: "Y \<le> 275759"
  proof -
    note rg = DayFromYear_range[OF Y(3) up]
    define m where "m = (DayFromYear Y + DaysInYear Y - 1) * msPerDay - LocalTZA env"
    have h: "\<bar>LocalTZA env\<bar> \<le> msPerDay" using host by simp
    have dec31: "Date_local env (num Y) (num 11) (num 31) = Some m"
      unfolding Date_local_dec31[OF Y(2)] m_def using h rg d366 DaysInYear_pos[of Y]
      by (intro TimeClip_day) simp_all
    define i where "i = DaysInYear Y - 1 - k"
    have i0: "0 \<le> i" "i \<le> 365" unfolding i_def using kb d366 by simp_all
    have m1: "m - t = i * 86400000 - r"
      unfolding m_def tv i_def by (simp add: msPerDay_def algebra_simps)
    have d2: "- 86400000 < i * 86400000 - r" "i * 86400000 - r < 2 ^ 53"
      using i0 rb by simp_all
    have s2: "js_sub (num m) (num t) = num (i * 86400000 - r)"
      using js_sub_num[of m t] d2 unfolding m1 by simp
    have q2: "Math_floor (js_div (js_sub (valueOf (Some m)) (valueOf (Some t))) (num 86400000))
        = num (if r = 0 then i else i - 1)"
      using any_day_quot[OF d2] day_split(2)[OF rb, of i] by (simp add: valueOf_def s2)
    have "daysLeft (calcDateInfo env (Some t)) = num (if r = 0 then i else i - 1)"
      by (simp add: calcDateInfo_def Let_def gy dec31 q2)
    then show ?thesis unfolding i_def by (simp add: algebra_simps)
  qed
qed


lemma civil_dec31:
  assumes "getFullYear env (Some t) = num Y"
    and "getMonth env (Some t) = num 11" and "getDate env (Some t) = num 31"
  shows "DayWithinYear (LocalTime env t) = DaysInYear Y - 1"
  using assms dec31_DayWithinYear[of "LocalTime env t"]
  by (simp add: getFullYear_def getMonth_def getDate_def)

lemma sample_dates:
  "LocalTime sample_host 1704067200000 mod msPerDay = 0"
  "getFullYear sample_host (Some 1704067200000) = num 2024"
  "getMonth sample_host (Some 1704067200000) = num 0"
  "getDate sample_host (Some 1704067200000) = num 1"
  "LocalTime sample_host 1735603200000 mod msPerDay = 0"
  "getFullYear sample_host (Some 1735603200000) = num 2024"
  "getMonth sample_host (Some 1735603200000) = num 11"
  "getDate sample_host (Some 1735603200000) = num 31"
  "\<bar>LocalTZA sample_host\<bar> < msPerDay"
  by (simp_all add: date_eval)

lemma other_hosts [simp]:
  "LocalTZA east_host = 18000000" "LocalTZA west_host = - 18000000"
  "now east_host = 1735646400000" "now west_host = 1735646400000"
  "formatToParts east_host tz t = None" "formatToParts west_host tz t = None"
  "existsSync east_host name = (name = ''day-365.png'')"
  "existsSync west_host name = (name = ''day-365.png'')"
  "readFont east_host = Inr ''T1RUTw==''" "readFont west_host = Inr ''T1RUTw==''"
  "toBuffer east_host job = Inr [255, 216, 255]" "toBuffer west_host job = Inr [255, 216, 255]"
  "general east_host x = ''?''" "general west_host x = ''?''"
  by (simp_all add: east_host_def west_host_def)


lemma other_dates:
  "getFullYear east_host (Some 1735603200000) = num 2024"
  "getMonth east_host (Some 1735603200000) = num 11"
  "getDate east_host (Some 1735603200000) = num 31"
  "LocalTime east_host 1735603200000 mod msPerDay = 18000000"
  "getFullYear west_host (Some 1735603200000) = num 2024"
  "getMonth west_host (Some 1735603200000) = num 11"
  "getDate west_host (Some 1735603200000) = num 30"
  "LocalTime west_host 1735603200000 mod msPerDay = 68400000"
  "DayWithinYear (LocalTime east_host 1735603200000) = 365"
  "DayWithinYear (LocalTime west_host 1735603200000) = 364"
  "\<bar>LocalTZA east_host\<bar> < msPerDay" "\<bar>LocalTZA west_host\<bar> < msPerDay"
  by (simp_all add: date_eval)





subsection \<open>The dot grid\<close>

lemma ceiling_eqI: "of_int z - 1 < x \<Longrightarrow> x \<le> of_int z \<Longrightarrow> \<lceil>x\<rceil> = z"
  for x :: rat
  by (rule ceiling_unique)

lemma Math_round_eval: "\<lfloor>x + 1 / 2\<rfloor> = n \<Longrightarrow> Math_round (Fin x) = num n"
  by (simp add: Math_round_def num_def)

lemma Math_round_num [simp]: "Math_round (num n) = num n"
proof -
  have "\<lfloor>rat_of_int n + 1 / 2\<rfloor> = n" by (rule floor_eqI) simp_all
  then show ?thesis unfolding num_def by (rule Math_round_eval[unfolded num_def])
qed

lemma ROWS_eq: "ROWS = num 19"
proof -
  have "fl (365 / 20) = Fin (73 / 4)"
    using fl_nearest[of 4 "365 / 20" 5136918324969472] by (simp add: power_int_minus)
  moreover have "\<lceil>73 / 4 :: rat\<rceil> = 19" by (rule ceiling_eqI) simp_all
  ultimately show ?thesis
    by (simp add: ROWS_def TOTAL_DOTS_def COLS_def num_def Math_ceil_def)
qed

lemma GRID_W_eq: "GRID_W = num 972"
  using js_sub_num[of 1290 159] js_sub_num[of 1131 159]
  by (simp add: GRID_W_def WIDTH_def MARGIN_LEFT_def MARGIN_RIGHT_def)

lemma H_SPACING_eq: "H_SPACING = num 51"
proof -
  have "fl (972 / 19) = Fin (7199833614809411 / 140737488355328)"
    using fl_nearest[of 5 "972 / 19" 7199833614809411] by (simp add: power_int_minus)
  moreover have "\<lfloor>7199833614809411 / 140737488355328 + 1 / 2 :: rat\<rfloor> = 51"
    by (rule floor_eqI) simp_all
  then have "Math_round (Fin (7199833614809411 / 140737488355328)) = num 51"
    by (rule Math_round_eval)
  moreover have "js_sub (num 20) (num 1) = num 19" using js_sub_num[of 20 1] by simp
  moreover have "js_div (num 972) (num 19) = fl (972 / 19)" by (simp add: num_def)
  ultimately show ?thesis
    by (simp add: H_SPACING_def GRID_W_eq COLS_def)
qed

lemma V_SPACING_eq: "V_SPACING = num 39"
proof -
  have "fl (704 / 18) = Fin (1376099886140985 / 35184372088832)"
    using fl_nearest[of 5 "704 / 18" 5504399544563940] by (simp add: power_int_minus)
  moreover have "\<lfloor>1376099886140985 / 35184372088832 + 1 / 2 :: rat\<rfloor> = 39"
    by (rule floor_eqI) simp_all
  then have "Math_round (Fin (1376099886140985 / 35184372088832)) = num 39"
    by (rule Math_round_eval)
  moreover have "js_sub (num 19) (num 1) = num 18" using js_sub_num[of 19 1] by simp
  moreover have "js_div (num 704) (num 18) = fl (704 / 18)" by (simp add: num_def)
  ultimately show ?thesis
    by (simp add: V_SPACING_def ROWS_eq GRID_HEIGHT_def)
qed

lemma GRID_X_eq: "GRID_X = num 56"
proof -
  have "js_sub (num 20) (num 1) = num 19" using js_sub_num[of 20 1] by simp
  moreover have "js_mul (num 19) (num 62) = num 1178" using js_mul_num[of 19 62] by simp
  moreover have "js_sub (num 1290) (num 1178) = num 112" using js_sub_num[of 1290 1178] by simp
  moreover have "js_div (num 112) (num 2) = num 56" using js_div_num_exact[of 2 56] by simp
  ultimately show ?thesis
    by (simp add: GRID_X_def GRID_W_white_def COLS_def DOT_SPACING_def WIDTH_def)
qed

lemma GRID_Y_eq: "GRID_Y = num 1062"
proof -
  have a: "fl (38 / 100) = Fin (3422735716801577 / 9007199254740992)"
    using fl_nearest[of "- 2" "38 / 100" 6845471433603154] by (simp add: power_int_minus)
  have b: "fl (2796 * (3422735716801577 / 9007199254740992))
      = Fin (2336418228558889 / 2199023255552)"
    using fl_nearest[of 10 "2796 * (3422735716801577 / 9007199254740992)" 4672836457117778]
    by (simp add: power_int_minus)
  have c: "\<lfloor>2336418228558889 / 2199023255552 + 1 / 2 :: rat\<rfloor> = 1062"
    by (rule floor_eqI) simp_all
  have "js_mul (num 2796) (fl (38 / 100)) = Fin (2336418228558889 / 2199023255552)"
    unfolding a using b by (simp add: num_def)
  then show ?thesis unfolding GRID_Y_def HEIGHT_def using Math_round_eval[OF c] by simp
qed

lemma js_rem_num:
  assumes "0 \<le> i" and "0 < n"
  shows "js_rem (num i) (num n) = num (i mod n)"
proof -
  have "0 \<le> rat_of_int i / of_int n" using assms by simp
  then have "trunc (rat_of_int i / of_int n) = i div n"
    by (simp add: trunc_def floor_divide_of_int_eq)
  moreover have "i - n * (i div n) = i mod n" by (simp add: minus_mult_div_eq_mod)
  then have "rat_of_int i - of_int n * of_int (i div n) = of_int (i mod n)"
    by (metis of_int_diff of_int_mult)
  ultimately show ?thesis using assms by (simp add: num_def)
qed

lemma js_lt_num [simp]: "js_lt (num i) (num f) \<longleftrightarrow> i < f"
  by (simp add: num_def)

text \<open>The column, the row and the centre of dot \<open>i\<close>.\<close>

lemma dot_place:
  assumes "0 \<le> i" and "i < 365"
  shows "js_rem (num i) (num COLS) = num (i mod 20)"
    and "Math_floor (js_div (num i) (num COLS)) = num (i div 20)"
proof -
  show "js_rem (num i) (num COLS) = num (i mod 20)"
    using assms by (simp add: COLS_def js_rem_num)
  show "Math_floor (js_div (num i) (num COLS)) = num (i div 20)"
    using assms by (simp add: COLS_def floor_js_div)
qed

lemma centre:
  assumes "0 \<le> c" "c < 10000" "0 \<le> m" "m < 20" "0 \<le> s" "s < 100"
  shows "js_add (num c) (js_mul (num m) (num s)) = num (c + m * s)"
proof -
  have "m * s \<le> 20 * 100" using assms by (intro mult_mono) simp_all
  moreover have "0 \<le> m * s" using assms by simp
  ultimately have b: "\<bar>m * s\<bar> < 2 ^ 53" "\<bar>c + m * s\<bar> < 2 ^ 53" using assms by simp_all
  show ?thesis using js_mul_num[OF b(1)] js_add_num[OF b(2)] by simp
qed

lemma dot_eq:
  assumes "0 \<le> i" and "i < 365"
  shows "dot a i =
    (if js_lt (num i) a
     then \<lparr>cx = num (159 + (i mod 20) * 51), cy = num (1100 + (i div 20) * 39),
           radius = num 11, fill = ''#1C1C1E'', opacity = None\<rparr>
     else \<lparr>cx = num (159 + (i mod 20) * 51), cy = num (1100 + (i div 20) * 39),
           radius = num 11, fill = ''white'', opacity = Some OPACITY_EMPTY\<rparr>)"
proof -
  have m: "0 \<le> i mod 20" "i mod 20 < 20" by simp_all
  have d: "0 \<le> i div 20" "i div 20 < 20" using assms by simp_all
  have x: "js_add (num 159) (js_mul (num (i mod 20)) (num 51)) = num (159 + (i mod 20) * 51)"
    using m by (intro centre) simp_all
  have y: "js_add (num 1100) (js_mul (num (i div 20)) (num 39)) = num (1100 + (i div 20) * 39)"
    using d by (intro centre) simp_all
  show ?thesis
    unfolding dot_def dot_place[OF assms] H_SPACING_eq V_SPACING_eq Let_def
      MARGIN_LEFT_def GRID_TOP_def DOT_RADIUS_def COL_FILLED_def x y ..
qed

lemma dot_white_eq:
  assumes "0 \<le> i" and "i < 365"
  shows "dot_white a i =
    \<lparr>cx = num (56 + (i mod 20) * 62), cy = num (1062 + (i div 20) * 62), radius = num 14,
     fill = (if js_lt (num i) a then ''#1C1C1E'' else ''#D1D1D6''), opacity = None\<rparr>"
proof -
  have m: "0 \<le> i mod 20" "i mod 20 < 20" by simp_all
  have d: "0 \<le> i div 20" "i div 20 < 20" using assms by simp_all
  have x: "js_add (num 56) (js_mul (num (i mod 20)) (num 62)) = num (56 + (i mod 20) * 62)"
    using m by (intro centre) simp_all
  have y: "js_add (num 1062) (js_mul (num (i div 20)) (num 62)) = num (1062 + (i div 20) * 62)"
    using d by (intro centre) simp_all
  show ?thesis
    unfolding dot_white_def dot_place[OF assms] GRID_X_eq GRID_Y_eq Let_def
      DOT_SPACING_def DOT_RADIUS_white_def COL_FILLED_def COL_EMPTY_def x y ..
qed

text \<open>The loops push the circles of the indices 0 to 364, in order.\<close>

lemma dots_from_eq:
  "0 \<le> i \<Longrightarrow> i \<le> 365 \<Longrightarrow> dots_from a i acc = acc @ map (dot a) [i..364]"
proof (induction a i acc rule: dots_from.induct)
  case (1 a i acc)
  show ?case
  proof (cases "i < 365")
    case True
    then have u: "[i..364] = i # [i + 1..364]" by (simp add: upto_rec1)
    have "dots_from a i acc = dots_from a (i + 1) (acc @ [dot a i])"
      using True by (subst dots_from.simps) (simp add: TOTAL_DOTS_def)
    also have "\<dots> = (acc @ [dot a i]) @ map (dot a) [i + 1..364]"
      using 1 True by (simp add: TOTAL_DOTS_def)
    finally show ?thesis by (simp add: u)
  next
    case False
    then have "i = 365" using 1(3) by simp
    then show ?thesis by (subst dots_from.simps) (simp add: TOTAL_DOTS_def)
  qed
qed

lemma dots_white_from_eq:
  "0 \<le> i \<Longrightarrow> i \<le> 365 \<Longrightarrow> dots_white_from a i acc = acc @ map (dot_white a) [i..364]"
proof (induction a i acc rule: dots_white_from.induct)
  case (1 a i acc)
  show ?case
  proof (cases "i < 365")
    case True
    then have u: "[i..364] = i # [i + 1..364]" by (simp add: upto_rec1)
    have "dots_white_from a i acc = dots_white_from a (i + 1) (acc @ [dot_white a i])"
      using True by (subst dots_white_from.simps) (simp add: TOTAL_DOTS_def)
    also have "\<dots> = (acc @ [dot_white a i]) @ map (dot_white a) [i + 1..364]"
      using 1 True by (simp add: TOTAL_DOTS_def)
    finally show ?thesis by (simp add: u)
  next
    case False
    then have "i = 365" using 1(3) by simp
    then show ?thesis by (subst dots_white_from.simps) (simp add: TOTAL_DOTS_def)
  qed
qed

lemma circles_nth:
  assumes "0 \<le> i" and "i < 365"
  shows "circles (buildDotGridSVG a) ! nat i = dot a i"
    and "circles (buildDotGridSVG_white a) ! nat i = dot_white a i"
    and "length (circles (buildDotGridSVG a)) = 365"
    and "length (circles (buildDotGridSVG_white a)) = 365"
proof -
  have n: "[0..364] ! nat i = i" using assms nth_upto[of 0 "nat i" 364] by simp
  have l: "nat i < length [0..364]" using assms by simp
  show "circles (buildDotGridSVG a) ! nat i = dot a i"
    using l by (simp add: buildDotGridSVG_def dots_from_eq n del: length_upto)
  show "circles (buildDotGridSVG_white a) ! nat i = dot_white a i"
    using l by (simp add: buildDotGridSVG_white_def dots_white_from_eq n del: length_upto)
  show "length (circles (buildDotGridSVG a)) = 365"
    by (simp add: buildDotGridSVG_def dots_from_eq)
  show "length (circles (buildDotGridSVG_white a)) = 365"
    by (simp add: buildDotGridSVG_white_def dots_white_from_eq)
qed

text \<open>
  C5. For every filled count \<open>f\<close> and every index \<open>i\<close> from 0 to 364, the dot-grid
  builder draws dot \<open>i\<close> at \<open>x = 159 + (i mod 20) * 51\<close>, \<open>y = 1100 + (i div 20) * 39\<close>
  (left margin, grid top and the two spacings as the constants evaluate), filled
  (the dark fill, opaque) if \<open>i < f\<close> and empty (white at opacity 0.15) otherwise; it
  draws 365 dots. The white-canvas revision draws dot \<open>i\<close> at \<open>x = 56 + (i mod 20) * 62\<close>,
  \<open>y = 1062 + (i div 20) * 62\<close>, dark if \<open>i < f\<close> and light grey otherwise. With
  \<open>f = 0\<close> every dot is empty, with \<open>f = 365\<close> every dot is filled.
\<close>

theorem dot_grid_filled_iff:
  assumes "0 \<le> i" and "i < 365"
  shows "circles (buildDotGridSVG (num f)) ! nat i =
      (if i < f
       then \<lparr>cx = num (159 + (i mod 20) * 51), cy = num (1100 + (i div 20) * 39),
             radius = num 11, fill = ''#1C1C1E'', opacity = None\<rparr>
       else \<lparr>cx = num (159 + (i mod 20) * 51), cy = num (1100 + (i div 20) * 39),
             radius = num 11, fill = ''white'', opacity = Some OPACITY_EMPTY\<rparr>)
    \<and> circles (buildDotGridSVG_white (num f)) ! nat i =
        \<lparr>cx = num (56 + (i mod 20) * 62), cy = num (1062 + (i div 20) * 62), radius = num 14,
         fill = (if i < f then ''#1C1C1E'' else ''#D1D1D6''), opacity = None\<rparr>
    \<and> length (circles (buildDotGridSVG (num f))) = 365
    \<and> length (circles (buildDotGridSVG_white (num f))) = 365
    \<and> fill (circles (buildDotGridSVG (num 0)) ! nat i) = ''white''
    \<and> fill (circles (buildDotGridSVG (num 365)) ! nat i) = ''#1C1C1E''
    \<and> fill (circles (buildDotGridSVG_white (num 0)) ! nat i) = ''#D1D1D6''
    \<and> fill (circles (buildDotGridSVG_white (num 365)) ! nat i) = ''#1C1C1E''"
  using assms by (simp add: circles_nth dot_eq dot_white_eq)

theorem dot_grid_filled_iff_witness:
  "circles (buildDotGridSVG (num 45)) ! 44 =
      \<lparr>cx = num 363, cy = num 1178, radius = num 11, fill = ''#1C1C1E'', opacity = None\<rparr>
   \<and> circles (buildDotGridSVG (num 45)) ! 45 =
      \<lparr>cx = num 414, cy = num 1178, radius = num 11, fill = ''white'',
       opacity = Some OPACITY_EMPTY\<rparr>
   \<and> fill (circles (buildDotGridSVG_white (num 45)) ! 44) = ''#1C1C1E''
   \<and> fill (circles (buildDotGridSVG_white (num 45)) ! 45) = ''#D1D1D6''"
  using dot_grid_filled_iff[of 44 45] dot_grid_filled_iff[of 45 45] by simp

subsection \<open>The calendar resolver\<close>

lemma MonthFromTime_range: "0 \<le> MonthFromTime t \<and> MonthFromTime t \<le> 11"
  by (simp add: MonthFromTime_def Let_def)

lemma month_start_date: "month_start (MonthFromTime t) (InLeapYear t) + DateFromTime t - 1 = DayWithinYear t"
  by (simp add: DateFromTime_def)

text \<open>The UTC fields of an instant give back the start of its UTC day.\<close>

lemma Date_UTC_fields:
  assumes "YearFromTime t < 0 \<or> 99 < YearFromTime t"
  shows "Date_UTC (getUTCFullYear (Some t)) (getUTCMonth (Some t)) (getUTCDate (Some t))
    = TimeClip (Day t * msPerDay)"
proof -
  define Y where "Y = YearFromTime t"
  define m where "m = MonthFromTime t"
  have m: "m div 12 = 0" "m mod 12 = m"
    using MonthFromTime_range[of t] unfolding m_def by simp_all
  have f: "MakeFullYear (num Y) = num Y" using assms by (auto simp: MakeFullYear_num Y_def)
  have "MakeDay (num Y) (num m) (num (DateFromTime t))
      = Some (DayFromYear Y + month_start m (InLeapYear t) + DateFromTime t - 1)"
    unfolding MakeDay_num by (simp add: m InLeapYear_def Y_def)
  also have "DayFromYear Y + month_start m (InLeapYear t) + DateFromTime t - 1 = Day t"
    using month_start_date[of t] by (simp add: m_def DayWithinYear_def Y_def)
  finally show ?thesis
    by (simp add: Date_UTC_def getUTCFullYear_def getUTCMonth_def getUTCDate_def f MakeDate_def
        flip: Y_def m_def)
qed

lemma YearFromTime_ge_1970:
  assumes "0 \<le> t"
  shows "1970 \<le> YearFromTime t"
proof (rule ccontr)
  assume "\<not> 1970 \<le> YearFromTime t"
  then have "YearFromTime t + 1 \<le> 1970" by simp
  then have "DayFromYear (YearFromTime t + 1) \<le> DayFromYear 1970" by (rule DayFromYear_mono)
  moreover have "DayFromYear 1970 = 0" by (simp add: DayFromYear_def)
  moreover have "0 \<le> Day t" using assms by (simp add: Day_def msPerDay_def pos_imp_zdiv_nonneg_iff)
  ultimately show False using YearFromTime_bounds[of t] by linarith
qed

lemma utc_today:
  assumes "0 \<le> t" and "t \<le> 8640000000000000"
  shows "Date_UTC (getUTCFullYear (Some t)) (getUTCMonth (Some t)) (getUTCDate (Some t))
    = Some (t - t mod msPerDay)"
proof -
  have y: "YearFromTime t < 0 \<or> 99 < YearFromTime t" using YearFromTime_ge_1970[OF assms(1)] by simp
  have d: "Day t * msPerDay = t - t mod msPerDay"
    by (simp add: Day_def msPerDay_def minus_mod_eq_div_mult)
  have "0 \<le> t mod msPerDay" "t mod msPerDay < msPerDay" by (simp_all add: msPerDay_def)
  then have "\<bar>t - t mod msPerDay\<bar> \<le> 8640000000000000" using assms by (simp add: msPerDay_def)
  then show ?thesis unfolding Date_UTC_fields[OF y] d by (simp add: TimeClip_def)
qed

lemma parseDateInTz_no_override:
  assumes "\<not> truthy dateStr"
  shows "parseDateInTz env dateStr tz =
    (case (case (if truthy tz then tz else None) of
             Some zone \<Rightarrow> today_in_tz env zone | None \<Rightarrow> None) of
       Some today \<Rightarrow> today
     | None \<Rightarrow> Date_UTC (getUTCFullYear (Some (now env))) (getUTCMonth (Some (now env)))
                 (getUTCDate (Some (now env))))"
  using assms by (simp add: parseDateInTz_def)

text \<open>
  C8. For every request with no date override (absent or empty) and a time zone name
  for which \<^verbatim>\<open>Intl.DateTimeFormat\<close> throws (an invalid or unsupported name), the
  calendar resolver returns what it returns when no time zone is supplied: the Date of
  the current UTC day, built from the UTC fields of the clock. While the clock reads an
  instant from 1970 on within the range of Dates, that Date is the start of the current
  UTC day, a valid Date. The resolver has no other outcome: the exception is caught.
\<close>

theorem invalid_tz_falls_back_to_utc:
  assumes "\<not> truthy dateStr" and "formatToParts env tz (now env) = None"
  shows "parseDateInTz env dateStr (Some tz) = parseDateInTz env dateStr None
    \<and> parseDateInTz env dateStr (Some tz) =
        Date_UTC (getUTCFullYear (Some (now env))) (getUTCMonth (Some (now env)))
          (getUTCDate (Some (now env)))
    \<and> (0 \<le> now env \<and> now env \<le> 8640000000000000 \<longrightarrow>
        parseDateInTz env dateStr (Some tz) = Some (now env - now env mod msPerDay))"
proof -
  have 1: "parseDateInTz env dateStr (Some tz) =
      Date_UTC (getUTCFullYear (Some (now env))) (getUTCMonth (Some (now env)))
        (getUTCDate (Some (now env)))"
    unfolding parseDateInTz_no_override[OF assms(1)]
    using assms(2) by (simp add: today_in_tz_def truthy_def)
  have 2: "parseDateInTz env dateStr None =
      Date_UTC (getUTCFullYear (Some (now env))) (getUTCMonth (Some (now env)))
        (getUTCDate (Some (now env)))"
    unfolding parseDateInTz_no_override[OF assms(1)] by (simp add: truthy_def)
  show ?thesis using 1 2 utc_today[of "now env"] by simp
qed

theorem invalid_tz_falls_back_to_utc_witness:
  "parseDateInTz sample_host None (Some ''Mars/Olympus'') = parseDateInTz sample_host None None
   \<and> parseDateInTz sample_host None (Some ''Mars/Olympus'') = Some 1735603200000"
proof -
  have a: "\<not> truthy None" by (simp add: truthy_def)
  have b: "formatToParts sample_host ''Mars/Olympus'' (now sample_host) = None" by simp
  have c: "0 \<le> now sample_host \<and> now sample_host \<le> 8640000000000000" by simp
  have d: "now sample_host - now sample_host mod msPerDay = 1735603200000"
    by (simp add: msPerDay_def)
  note w = invalid_tz_falls_back_to_utc[OF a b]
  have 1: "parseDateInTz sample_host None (Some ''Mars/Olympus'') = parseDateInTz sample_host None None"
    using w by blast
  have 2: "parseDateInTz sample_host None (Some ''Mars/Olympus'')
      = Some (now sample_host - now sample_host mod msPerDay)"
    using w c by blast
  show ?thesis using 1 2[unfolded d] by blast
qed

subsection \<open>The handler\<close>

lemma digits10_examples:
  "digits10 365 = ''365''" "digits10 366 = ''366''" "digits10 0 = ''0''" "digits10 1 = ''1''"
  by (simp_all add: digits10_more digits10_digit)

lemma dayFile_examples:
  "dayFile env (num 366) = ''day-366.png''" "dayFile env (num 365) = ''day-365.png''"
  "dayFile env NaN = ''day-NaN.png''" "dayFile env (num 1) = ''day-001.png''"
  by (simp_all add: dayFile_def Number_toString_num digits10_examples padStart_def numeral_2_eq_2)

lemma overlayPath_365 [simp]: "overlayPath env (num 365) = ''day-365.png''"
  by (simp add: overlayPath_def dayFile_examples)

lemma overlayPath_missing:
  "\<not> existsSync env (dayFile env doy) \<Longrightarrow> overlayPath env doy = ''day-365.png''"
  by (simp add: overlayPath_def)

lemma format_not_png:
  assumes "q_format req \<noteq> Some ''png''"
  shows "(case q_format req of None \<Rightarrow> ''jpg'' | Some v \<Rightarrow> v) \<noteq> ''png''"
  using assms by (cases "q_format req") simp_all

lemma handler_format:
  assumes "q_format req \<noteq> Some ''png''"
  shows "handler env cache req = handler env cache (req\<lparr>q_format := None\<rparr>)"
  using format_not_png[OF assms] by (simp add: handler_def Let_def)

lemma handler_plain_format:
  assumes "q_format req \<noteq> Some ''png''"
  shows "handler_plain env req = handler_plain env (req\<lparr>q_format := None\<rparr>)"
  using format_not_png[OF assms] by (simp add: handler_plain_def Let_def)


text \<open>The outcomes of the handler, step by step.\<close>

lemma handler_unknown:
  assumes "RESOLUTIONS (case q_model req of None \<Rightarrow> ''default'' | Some v \<Rightarrow> v) = Undefined"
  shows "handler env cache req =
      \<lparr>response = bad_request (case q_model req of None \<Rightarrow> ''default'' | Some v \<Rightarrow> v),
       effects = [], fontCache = cache\<rparr>"
    and "handler_plain env req =
      (bad_request (case q_model req of None \<Rightarrow> ''default'' | Some v \<Rightarrow> v), [])"
  using assms by (simp_all add: handler_def handler_plain_def Let_def)

lemma handler_no_overlay:
  assumes "RESOLUTIONS (case q_model req of None \<Rightarrow> ''default'' | Some v \<Rightarrow> v) \<noteq> Undefined"
    and "doy = dayOfYear (calcDateInfo env (parseDateInTz env (q_date req) (q_tz req)))"
    and "\<not> existsSync env (overlayPath env doy)"
  shows "handler env cache req =
      \<lparr>response = server_error ''No overlay image found for today. Run generate-overlays.js first.'',
       effects = [ResolveDate, ExistsSync (dayFile env doy), ExistsSync (overlayPath env doy)],
       fontCache = cache\<rparr>"
  using assms by (simp add: handler_def Let_def split: prod.splits)

lemma handler_font_error:
  assumes "RESOLUTIONS (case q_model req of None \<Rightarrow> ''default'' | Some v \<Rightarrow> v) \<noteq> Undefined"
    and "doy = dayOfYear (calcDateInfo env (parseDateInTz env (q_date req) (q_tz req)))"
    and "existsSync env (overlayPath env doy)"
    and "getFontBase64 env cache = Inl msg"
  shows "handler env cache req =
      \<lparr>response = internal_error msg,
       effects = [ResolveDate, ExistsSync (dayFile env doy), ExistsSync (overlayPath env doy),
                  ReadFont, ConsoleError],
       fontCache = cache\<rparr>"
  using assms by (simp add: handler_def Let_def split: prod.splits)

lemma handler_composed:
  assumes "RESOLUTIONS (case q_model req of None \<Rightarrow> ''default'' | Some v \<Rightarrow> v) \<noteq> Undefined"
    and "info = calcDateInfo env (parseDateInTz env (q_date req) (q_tz req))"
    and "existsSync env (overlayPath env (dayOfYear info))"
    and "getFontBase64 env cache = Inr (fontBase64, cache', reads)"
    and "job = \<lparr>input = overlayPath env (dayOfYear info),
                 resize = dimensions (RESOLUTIONS (case q_model req of None \<Rightarrow> ''default'' | Some v \<Rightarrow> v)),
                 composite = Some (buildTextSvg (general env)
                    (fst (dimensions (RESOLUTIONS (case q_model req of None \<Rightarrow> ''default'' | Some v \<Rightarrow> v))))
                    (snd (dimensions (RESOLUTIONS (case q_model req of None \<Rightarrow> ''default'' | Some v \<Rightarrow> v))))
                    (daysLeft info) (percent info) fontBase64),
                 encode = (if q_format req = Some ''png'' then Png 6 else Jpeg 92 True)\<rparr>"
    and "probes = [ResolveDate, ExistsSync (dayFile env (dayOfYear info)),
                   ExistsSync (overlayPath env (dayOfYear info))]"
  shows "handler env cache req =
      (case toBuffer env job of
         Inl msg \<Rightarrow>
           \<lparr>response = internal_error msg, effects = probes @ reads @ [Render job, ConsoleError],
            fontCache = cache'\<rparr>
       | Inr imageBuffer \<Rightarrow>
           \<lparr>response =
              \<lparr>status = 200,
               headers =
                 [(''Content-Type'', if q_format req = Some ''png'' then ''image/png'' else ''image/jpeg''),
                  (''Cache-Control'', ''no-store, no-cache, must-revalidate''),
                  (''X-Day-Of-Year'', Number_toString (general env) (dayOfYear info)),
                  (''X-Days-Left'', Number_toString (general env) (daysLeft info)),
                  (''X-Year-Percent'', percent info)],
               body = Image imageBuffer\<rparr>,
            effects = probes @ reads @ [Render job], fontCache = cache'\<rparr>)"
proof -
  have f: "((case q_format req of None \<Rightarrow> ''jpg'' | Some v \<Rightarrow> v) = ''png'') = (q_format req = Some ''png'')"
    by (cases "q_format req") simp_all
  show ?thesis
    using assms unfolding handler_def Let_def f
    by (simp split: prod.splits sum.splits)
qed

lemma handler_plain_known:
  assumes "RESOLUTIONS (case q_model req of None \<Rightarrow> ''default'' | Some v \<Rightarrow> v) \<noteq> Undefined"
    and "doy = getDayOfYear env (parseDateInTz env (q_date req) (q_tz req))"
    and "job = \<lparr>input = overlayPath env doy,
                 resize = dimensions (RESOLUTIONS (case q_model req of None \<Rightarrow> ''default'' | Some v \<Rightarrow> v)),
                 composite = None,
                 encode = (if q_format req = Some ''png'' then Png 6 else Jpeg 92 True)\<rparr>"
    and "probes = [ResolveDate, ExistsSync (dayFile env doy), ExistsSync (overlayPath env doy)]"
  shows "handler_plain env req =
      (if \<not> existsSync env (overlayPath env doy)
       then (server_error ''No overlay image found for today.'', probes)
       else (case toBuffer env job of
               Inl msg \<Rightarrow> (internal_error msg, probes @ [Render job, ConsoleError])
             | Inr imageBuffer \<Rightarrow>
                 (\<lparr>status = 200,
                   headers =
                     [(''Content-Type'', if q_format req = Some ''png'' then ''image/png'' else ''image/jpeg''),
                      (''Cache-Control'', ''no-store, no-cache, must-revalidate''),
                      (''X-Day-Of-Year'', Number_toString (general env) doy)],
                   body = Image imageBuffer\<rparr>,
                  probes @ [Render job])))"
proof -
  have f: "((case q_format req of None \<Rightarrow> ''jpg'' | Some v \<Rightarrow> v) = ''png'') = (q_format req = Some ''png'')"
    by (cases "q_format req") simp_all
  show ?thesis
    using assms unfolding handler_plain_def Let_def f
    by (simp split: prod.splits sum.splits)
qed

lemma handler_known_cases:
  assumes known: "RESOLUTIONS (case q_model req of None \<Rightarrow> ''default'' | Some v \<Rightarrow> v) \<noteq> Undefined"
    and info: "info = calcDateInfo env (parseDateInTz env (q_date req) (q_tz req))"
    and path: "path = overlayPath env (dayOfYear info)"
    and probes: "probes = [ResolveDate, ExistsSync (dayFile env (dayOfYear info)), ExistsSync path]"
  obtains
    (no_overlay) "\<not> existsSync env path"
      "handler env cache req =
        \<lparr>response = server_error ''No overlay image found for today. Run generate-overlays.js first.'',
         effects = probes, fontCache = cache\<rparr>"
  | (font_error) msg where "existsSync env path" "getFontBase64 env cache = Inl msg"
      "handler env cache req =
        \<lparr>response = internal_error msg, effects = probes @ [ReadFont, ConsoleError],
         fontCache = cache\<rparr>"
  | (sharp_error) msg fontBase64 cache' reads job where "existsSync env path"
      "getFontBase64 env cache = Inr (fontBase64, cache', reads)"
      "input job = path" "encode job = (if q_format req = Some ''png'' then Png 6 else Jpeg 92 True)"
      "toBuffer env job = Inl msg"
      "handler env cache req =
        \<lparr>response = internal_error msg, effects = probes @ reads @ [Render job, ConsoleError],
         fontCache = cache'\<rparr>"
  | (sent) imageBuffer fontBase64 cache' reads job where "existsSync env path"
      "getFontBase64 env cache = Inr (fontBase64, cache', reads)"
      "input job = path" "encode job = (if q_format req = Some ''png'' then Png 6 else Jpeg 92 True)"
      "toBuffer env job = Inr imageBuffer"
      "handler env cache req =
        \<lparr>response =
           \<lparr>status = 200,
            headers =
              [(''Content-Type'', if q_format req = Some ''png'' then ''image/png'' else ''image/jpeg''),
               (''Cache-Control'', ''no-store, no-cache, must-revalidate''),
               (''X-Day-Of-Year'', Number_toString (general env) (dayOfYear info)),
               (''X-Days-Left'', Number_toString (general env) (daysLeft info)),
               (''X-Year-Percent'', percent info)],
            body = Image imageBuffer\<rparr>,
         effects = probes @ reads @ [Render job], fontCache = cache'\<rparr>"
proof (cases "existsSync env path")
  case False
  then show ?thesis
    using handler_no_overlay[OF known, of "dayOfYear info" env cache] no_overlay
    unfolding info path probes by simp
next
  case True
  show ?thesis
  proof (cases "getFontBase64 env cache")
    case (Inl msg)
    then show ?thesis
      using handler_font_error[OF known, of "dayOfYear info" env cache msg] True font_error
      unfolding info path probes by simp
  next
    case (Inr x)
    then obtain fontBase64 cache' reads where g: "getFontBase64 env cache = Inr (fontBase64, cache', reads)"
      by (cases x) auto
    define job where "job = \<lparr>input = overlayPath env (dayOfYear info),
        resize = dimensions (RESOLUTIONS (case q_model req of None \<Rightarrow> ''default'' | Some v \<Rightarrow> v)),
        composite = Some (buildTextSvg (general env)
          (fst (dimensions (RESOLUTIONS (case q_model req of None \<Rightarrow> ''default'' | Some v \<Rightarrow> v))))
          (snd (dimensions (RESOLUTIONS (case q_model req of None \<Rightarrow> ''default'' | Some v \<Rightarrow> v))))
          (daysLeft info) (percent info) fontBase64),
        encode = (if q_format req = Some ''png'' then Png 6 else Jpeg 92 True)\<rparr>"
    have j: "input job = path"
      "encode job = (if q_format req = Some ''png'' then Png 6 else Jpeg 92 True)"
      by (simp_all add: job_def path)
    note h = handler_composed[OF known info True[unfolded path] g job_def refl, of ]
    show ?thesis
    proof (cases "toBuffer env job")
      case (Inl msg)
      then show ?thesis using h sharp_error[OF True g j] unfolding probes path by simp
    next
      case (Inr imageBuffer)
      then show ?thesis using h sent[OF True g j] unfolding probes path by simp
    qed
  qed
qed

lemma error_responses_differ [simp]:
  "internal_error msg \<noteq> server_error msg'" "server_error msg' \<noteq> internal_error msg"
  "status (internal_error msg) = 500" "status (server_error msg) = 500"
  "status (bad_request m) = 400"
  by (simp_all add: internal_error_def server_error_def bad_request_def)

lemma getFontBase64_Inr:
  assumes "getFontBase64 env cache = Inr (f, c, reads)"
  shows "reads = [] \<or> reads = [ReadFont]"
  using assms by (auto simp: getFontBase64_def split: option.splits sum.splits if_splits)

lemma getFontBase64_Inl:
  assumes "getFontBase64 env cache = Inl msg"
  shows "readFont env = Inl msg"
  using assms by (auto simp: getFontBase64_def split: option.splits sum.splits if_splits)

lemma getDayOfYear_calc: "getDayOfYear env d = dayOfYear (calcDateInfo env d)"
  by (simp add: getDayOfYear_def calcDateInfo_def Let_def)

text \<open>What every request with a model that passes the check comes to.\<close>

lemma handler_known_summary:
  assumes known: "RESOLUTIONS (case q_model req of None \<Rightarrow> ''default'' | Some v \<Rightarrow> v) \<noteq> Undefined"
    and info: "info = calcDateInfo env (parseDateInTz env (q_date req) (q_tz req))"
    and path: "path = overlayPath env (dayOfYear info)"
    and out: "out = handler env cache req"
  shows "status (response out) \<noteq> 400 \<and> effects out \<noteq> [] \<and>
    (response out = server_error ''No overlay image found for today. Run generate-overlays.js first.''
          \<longleftrightarrow> \<not> existsSync env path) \<and>
    (\<forall>job. Render job \<in> set (effects out) \<longrightarrow>
          input job = path \<and> encode job = (if q_format req = Some ''png'' then Png 6 else Jpeg 92 True)) \<and>
    (existsSync env path \<longrightarrow>
          status (response out) = 200 \<or>
          (\<exists>msg. response out = internal_error msg \<and>
            (readFont env = Inl msg \<or> (\<exists>job. input job = path \<and> toBuffer env job = Inl msg)))) \<and>
    (status (response out) = 200 \<longrightarrow>
          headers (response out) =
            [(''Content-Type'', if q_format req = Some ''png'' then ''image/png'' else ''image/jpeg''),
             (''Cache-Control'', ''no-store, no-cache, must-revalidate''),
             (''X-Day-Of-Year'', Number_toString (general env) (dayOfYear info)),
             (''X-Days-Left'', Number_toString (general env) (daysLeft info)),
             (''X-Year-Percent'', percent info)])"
proof (rule handler_known_cases[OF known info path refl, where cache = cache],
    goal_cases)
  case 1
  then show ?case unfolding out by simp
next
  case (2 msg)
  then show ?case unfolding out using getFontBase64_Inl[of env cache msg] by auto
next
  case (3 msg fontBase64 cache' reads job)
  then show ?case unfolding out using getFontBase64_Inr[of env cache fontBase64 cache' reads]
    by auto
next
  case (4 imageBuffer fontBase64 cache' reads job)
  then show ?case unfolding out using getFontBase64_Inr[of env cache fontBase64 cache' reads]
    by (auto simp: server_error_def)
qed

lemma handler_plain_summary:
  assumes known: "RESOLUTIONS (case q_model req of None \<Rightarrow> ''default'' | Some v \<Rightarrow> v) \<noteq> Undefined"
    and doy: "doy = getDayOfYear env (parseDateInTz env (q_date req) (q_tz req))"
    and path: "path = overlayPath env doy"
    and out: "out = handler_plain env req"
  shows "status (fst out) \<noteq> 400 \<and> snd out \<noteq> [] \<and>
    (fst out = server_error ''No overlay image found for today.'' \<longleftrightarrow> \<not> existsSync env path) \<and>
    (\<forall>job. Render job \<in> set (snd out) \<longrightarrow>
          input job = path \<and> encode job = (if q_format req = Some ''png'' then Png 6 else Jpeg 92 True)) \<and>
    (existsSync env path \<longrightarrow>
          status (fst out) = 200 \<or>
          (\<exists>msg job. fst out = internal_error msg \<and> input job = path \<and> toBuffer env job = Inl msg)) \<and>
    (status (fst out) = 200 \<longrightarrow>
          headers (fst out) =
            [(''Content-Type'', if q_format req = Some ''png'' then ''image/png'' else ''image/jpeg''),
             (''Cache-Control'', ''no-store, no-cache, must-revalidate''),
             (''X-Day-Of-Year'', Number_toString (general env) doy)])"
proof -
  define job where "job = \<lparr>input = overlayPath env doy,
      resize = dimensions (RESOLUTIONS (case q_model req of None \<Rightarrow> ''default'' | Some v \<Rightarrow> v)),
      composite = None,
      encode = (if q_format req = Some ''png'' then Png 6 else Jpeg 92 True)\<rparr>"
  note h = handler_plain_known[OF known doy job_def refl]
  have j: "input job = path" "encode job = (if q_format req = Some ''png'' then Png 6 else Jpeg 92 True)"
    by (simp_all add: job_def path)
  show ?thesis
  proof (cases "existsSync env path")
    case False
    then show ?thesis unfolding out h path by simp
  next
    case True
    show ?thesis
    proof (cases "toBuffer env job")
      case (Inl msg)
      then show ?thesis using True j unfolding out h path by auto
    next
      case (Inr imageBuffer)
      then show ?thesis using True j unfolding out h path by (auto simp: server_error_def)
    qed
  qed
qed

subsection \<open>The sample host on 31 December 2024\<close>

lemma sample_today: "parseDateInTz sample_host None tz = Some 1735603200000"
proof -
  have a: "\<not> truthy None" by (simp add: truthy_def)
  have z: "(case (if truthy tz then tz else None) of
             Some zone \<Rightarrow> today_in_tz sample_host zone | None \<Rightarrow> None) = None"
    by (cases tz) (simp_all add: today_in_tz_def)
  have c: "0 \<le> now sample_host" "now sample_host \<le> 8640000000000000" by simp_all
  have d: "now sample_host - now sample_host mod msPerDay = 1735603200000"
    by (simp add: msPerDay_def)
  show ?thesis
    unfolding parseDateInTz_no_override[OF a] z using utc_today[OF c] d by simp
qed

lemma digits10_1000: "digits10 1000 = ''1000''"
  by (simp add: digits10_more digits10_digit)

lemma percent_366_of_366:
  "Number_toFixed g (js_mul (js_div (num 366) (num 366)) (num 100)) 1 = ''100.0''"
proof -
  have a: "js_div (num 366) (num 366) = num 1" using js_div_num_exact[of 366 1] by simp
  have b: "js_mul (num 1) (num 100) = num 100" using js_mul_num[of 1 100] by simp
  have q: "js_mul (js_div (num 366) (num 366)) (num 100) = Fin 100"
    unfolding a b by (simp add: num_def)
  have f: "\<lfloor>(100::rat) * 10 + 1 / 2\<rfloor> = 1000"
    by (rule floor_eqI) simp_all
  have "(0::rat) \<le> 100" "(100::rat) < 10 ^ 21" by simp_all
  then show ?thesis unfolding q using toFixed_1[OF _ _ f, of g] by (simp add: digits10_1000)
qed

lemma sample_info:
  "calcDateInfo sample_host (Some 1735603200000) =
     \<lparr>dayOfYear = num 366, daysLeft = num 0, percent = ''100.0'', daysInYear = num 366\<rparr>"
proof -
  have y: "(2024::int) < 0 \<or> 99 < (2024::int)" "- 271820 \<le> (2024::int)" "(2024::int) \<le> 275759"
    by simp_all
  have diy: "DaysInYear 2024 = 366" by (simp add: DaysInYear_def)
  have k: "DayWithinYear (LocalTime sample_host 1735603200000) = 365"
    using civil_dec31[OF sample_dates(6,7,8)] diy by simp
  note c = calc_civil[OF sample_dates(9) sample_dates(5) sample_dates(6) y, unfolded k diy]
  have "calcDateInfo sample_host (Some 1735603200000) =
      \<lparr>dayOfYear = dayOfYear (calcDateInfo sample_host (Some 1735603200000)),
       daysLeft = daysLeft (calcDateInfo sample_host (Some 1735603200000)),
       percent = percent (calcDateInfo sample_host (Some 1735603200000)),
       daysInYear = daysInYear (calcDateInfo sample_host (Some 1735603200000))\<rparr>"
    by simp
  also have "\<dots> = \<lparr>dayOfYear = num 366, daysLeft = num 0, percent = ''100.0'', daysInYear = num 366\<rparr>"
    using c(1,2,3,4) percent_366_of_366[of "general sample_host"] by simp
  finally show ?thesis .
qed

lemma known_default: "RESOLUTIONS ''default'' \<noteq> Undefined"
  by (simp add: RESOLUTIONS_def)

lemma sample_never_throws:
  "readFont sample_host \<noteq> Inl msg" "toBuffer sample_host job \<noteq> Inl msg"
  by simp_all

subsection \<open>Requests that pass the model check\<close>

lemma handler_known_facts:
  assumes "RESOLUTIONS (case q_model req of None \<Rightarrow> ''default'' | Some v \<Rightarrow> v) \<noteq> Undefined"
    and "info = calcDateInfo env (parseDateInTz env (q_date req) (q_tz req))"
    and "path = overlayPath env (dayOfYear info)"
    and "out = handler env cache req"
  shows "status (response out) \<noteq> 400"
    and "effects out \<noteq> []"
    and "response out = server_error ''No overlay image found for today. Run generate-overlays.js first.''
          \<longleftrightarrow> \<not> existsSync env path"
    and "\<forall>job. Render job \<in> set (effects out) \<longrightarrow>
          input job = path \<and> encode job = (if q_format req = Some ''png'' then Png 6 else Jpeg 92 True)"
    and "existsSync env path \<longrightarrow>
          status (response out) = 200 \<or>
          (\<exists>msg. response out = internal_error msg \<and>
            (readFont env = Inl msg \<or> (\<exists>job. input job = path \<and> toBuffer env job = Inl msg)))"
    and "status (response out) = 200 \<longrightarrow>
          headers (response out) =
            [(''Content-Type'', if q_format req = Some ''png'' then ''image/png'' else ''image/jpeg''),
             (''Cache-Control'', ''no-store, no-cache, must-revalidate''),
             (''X-Day-Of-Year'', Number_toString (general env) (dayOfYear info)),
             (''X-Days-Left'', Number_toString (general env) (daysLeft info)),
             (''X-Year-Percent'', percent info)]"
proof -
  note s = handler_known_summary[OF assms]
  show "status (response out) \<noteq> 400" by (rule s[THEN conjunct1])
  show "effects out \<noteq> []" by (rule s[THEN conjunct2, THEN conjunct1])
  show "response out = server_error ''No overlay image found for today. Run generate-overlays.js first.''
          \<longleftrightarrow> \<not> existsSync env path"
    by (rule s[THEN conjunct2, THEN conjunct2, THEN conjunct1])
  show "\<forall>job. Render job \<in> set (effects out) \<longrightarrow>
          input job = path \<and> encode job = (if q_format req = Some ''png'' then Png 6 else Jpeg 92 True)"
    by (rule s[THEN conjunct2, THEN conjunct2, THEN conjunct2, THEN conjunct1])
  show "existsSync env path \<longrightarrow>
          status (response out) = 200 \<or>
          (\<exists>msg. response out = internal_error msg \<and>
            (readFont env = Inl msg \<or> (\<exists>job. input job = path \<and> toBuffer env job = Inl msg)))"
    by (rule s[THEN conjunct2, THEN conjunct2, THEN conjunct2, THEN conjunct2, THEN conjunct1])
  show "status (response out) = 200 \<longrightarrow>
          headers (response out) =
            [(''Content-Type'', if q_format req = Some ''png'' then ''image/png'' else ''image/jpeg''),
             (''Cache-Control'', ''no-store, no-cache, must-revalidate''),
             (''X-Day-Of-Year'', Number_toString (general env) (dayOfYear info)),
             (''X-Days-Left'', Number_toString (general env) (daysLeft info)),
             (''X-Year-Percent'', percent info)]"
    by (rule s[THEN conjunct2, THEN conjunct2, THEN conjunct2, THEN conjunct2, THEN conjunct2])
qed

lemma handler_plain_facts:
  assumes "RESOLUTIONS (case q_model req of None \<Rightarrow> ''default'' | Some v \<Rightarrow> v) \<noteq> Undefined"
    and "doy = dayOfYear (calcDateInfo env (parseDateInTz env (q_date req) (q_tz req)))"
    and "path = overlayPath env doy"
    and "out = handler_plain env req"
  shows "status (fst out) \<noteq> 400"
    and "snd out \<noteq> []"
    and "fst out = server_error ''No overlay image found for today.'' \<longleftrightarrow> \<not> existsSync env path"
    and "\<forall>job. Render job \<in> set (snd out) \<longrightarrow>
          input job = path \<and> encode job = (if q_format req = Some ''png'' then Png 6 else Jpeg 92 True)"
    and "existsSync env path \<longrightarrow>
          status (fst out) = 200 \<or>
          (\<exists>msg job. fst out = internal_error msg \<and> input job = path \<and> toBuffer env job = Inl msg)"
    and "status (fst out) = 200 \<longrightarrow>
          headers (fst out) =
            [(''Content-Type'', if q_format req = Some ''png'' then ''image/png'' else ''image/jpeg''),
             (''Cache-Control'', ''no-store, no-cache, must-revalidate''),
             (''X-Day-Of-Year'', Number_toString (general env) doy)]"
proof -
  have d: "doy = getDayOfYear env (parseDateInTz env (q_date req) (q_tz req))"
    using assms(2) by (simp add: getDayOfYear_calc)
  note s = handler_plain_summary[OF assms(1) d assms(3,4)]
  show "status (fst out) \<noteq> 400" by (rule s[THEN conjunct1])
  show "snd out \<noteq> []" by (rule s[THEN conjunct2, THEN conjunct1])
  show "fst out = server_error ''No overlay image found for today.'' \<longleftrightarrow> \<not> existsSync env path"
    by (rule s[THEN conjunct2, THEN conjunct2, THEN conjunct1])
  show "\<forall>job. Render job \<in> set (snd out) \<longrightarrow>
          input job = path \<and> encode job = (if q_format req = Some ''png'' then Png 6 else Jpeg 92 True)"
    by (rule s[THEN conjunct2, THEN conjunct2, THEN conjunct2, THEN conjunct1])
  show "existsSync env path \<longrightarrow>
          status (fst out) = 200 \<or>
          (\<exists>msg job. fst out = internal_error msg \<and> input job = path \<and> toBuffer env job = Inl msg)"
    by (rule s[THEN conjunct2, THEN conjunct2, THEN conjunct2, THEN conjunct2, THEN conjunct1])
  show "status (fst out) = 200 \<longrightarrow>
          headers (fst out) =
            [(''Content-Type'', if q_format req = Some ''png'' then ''image/png'' else ''image/jpeg''),
             (''Cache-Control'', ''no-store, no-cache, must-revalidate''),
             (''X-Day-Of-Year'', Number_toString (general env) doy)]"
    by (rule s[THEN conjunct2, THEN conjunct2, THEN conjunct2, THEN conjunct2, THEN conjunct2])
qed

text \<open>Once the overlay is found and the font is at hand, sharp is called on the overlay.\<close>

lemma handler_renders:
  assumes known: "RESOLUTIONS (case q_model req of None \<Rightarrow> ''default'' | Some v \<Rightarrow> v) \<noteq> Undefined"
    and info: "info = calcDateInfo env (parseDateInTz env (q_date req) (q_tz req))"
    and path: "path = overlayPath env (dayOfYear info)"
    and found: "existsSync env path"
    and font: "getFontBase64 env cache = Inr x"
  shows "\<exists>job. Render job \<in> set (effects (handler env cache req)) \<and> input job = path"
proof (rule handler_known_cases[OF known info path refl, where cache = cache], goal_cases)
  case 1
  then show ?case using found by simp
next
  case (2 msg)
  then show ?case using font by simp
next
  case (3 msg fontBase64 cache' reads job)
  then show ?case by auto
next
  case (4 imageBuffer fontBase64 cache' reads job)
  then show ?case by auto
qed

lemma handler_plain_renders:
  assumes known: "RESOLUTIONS (case q_model req of None \<Rightarrow> ''default'' | Some v \<Rightarrow> v) \<noteq> Undefined"
    and doy: "doy = dayOfYear (calcDateInfo env (parseDateInTz env (q_date req) (q_tz req)))"
    and path: "path = overlayPath env doy"
    and found: "existsSync env path"
  shows "\<exists>job. Render job \<in> set (snd (handler_plain env req)) \<and> input job = path"
proof -
  have d: "doy = getDayOfYear env (parseDateInTz env (q_date req) (q_tz req))"
    using doy by (simp add: getDayOfYear_calc)
  define job where "job = \<lparr>input = overlayPath env doy,
      resize = dimensions (RESOLUTIONS (case q_model req of None \<Rightarrow> ''default'' | Some v \<Rightarrow> v)),
      composite = None,
      encode = (if q_format req = Some ''png'' then Png 6 else Jpeg 92 True)\<rparr>"
  note h = handler_plain_known[OF known d job_def refl]
  have j: "input job = path" by (simp add: job_def path)
  have "Render job \<in> set (snd (handler_plain env req))"
    unfolding h using found path by (cases "toBuffer env job") simp_all
  then show ?thesis using j by blast
qed

text \<open>The names the model check lets through, and the ones it stops.\<close>

lemma RESOLUTIONS_Undefined_iff:
  "RESOLUTIONS key = Undefined \<longleftrightarrow> key \<notin> set RESOLUTIONS_keys \<and> key \<notin> set Object_prototype"
  by (simp add: RESOLUTIONS_def RESOLUTIONS_keys_def)

lemma RESOLUTIONS_Resolution_iff:
  "(\<exists>w h. RESOLUTIONS key = Resolution w h) \<longleftrightarrow> key \<in> set RESOLUTIONS_keys"
  by (auto simp: RESOLUTIONS_def RESOLUTIONS_keys_def)

text \<open>What the sample host answers on 31 December 2024 when no date is given.\<close>

lemma sample_font: "getFontBase64 sample_host None = Inr (''T1RUTw=='', Some ''T1RUTw=='', [ReadFont])"
  by (simp add: getFontBase64_def truthy_def)

lemma sample_outcome:
  assumes known: "RESOLUTIONS (case q_model req of None \<Rightarrow> ''default'' | Some v \<Rightarrow> v) \<noteq> Undefined"
    and date: "q_date req = None"
  shows "handler sample_host None req =
    \<lparr>response =
       \<lparr>status = 200,
        headers =
          [(''Content-Type'', if q_format req = Some ''png'' then ''image/png'' else ''image/jpeg''),
           (''Cache-Control'', ''no-store, no-cache, must-revalidate''),
           (''X-Day-Of-Year'', ''366''), (''X-Days-Left'', ''0''), (''X-Year-Percent'', ''100.0'')],
        body = Image [255, 216, 255]\<rparr>,
     effects =
       [ResolveDate, ExistsSync ''day-366.png'', ExistsSync ''day-365.png'', ReadFont,
        Render \<lparr>input = ''day-365.png'',
                resize = dimensions (RESOLUTIONS (case q_model req of None \<Rightarrow> ''default'' | Some v \<Rightarrow> v)),
                composite = Some (buildTextSvg (general sample_host)
                  (fst (dimensions (RESOLUTIONS (case q_model req of None \<Rightarrow> ''default'' | Some v \<Rightarrow> v))))
                  (snd (dimensions (RESOLUTIONS (case q_model req of None \<Rightarrow> ''default'' | Some v \<Rightarrow> v))))
                  (num 0) ''100.0'' ''T1RUTw==''),
                encode = (if q_format req = Some ''png'' then Png 6 else Jpeg 92 True)\<rparr>],
     fontCache = Some ''T1RUTw==''\<rparr>"
proof -
  have i: "calcDateInfo sample_host (parseDateInTz sample_host (q_date req) (q_tz req)) =
      \<lparr>dayOfYear = num 366, daysLeft = num 0, percent = ''100.0'', daysInYear = num 366\<rparr>"
    unfolding date sample_today sample_info ..
  have p: "overlayPath sample_host (num 366) = ''day-365.png''"
    by (simp add: overlayPath_def dayFile_examples)
  have e: "existsSync sample_host
      (overlayPath sample_host
        (dayOfYear \<lparr>dayOfYear = num 366, daysLeft = num 0, percent = ''100.0'', daysInYear = num 366\<rparr>))"
    by (simp add: p)
  have n: "Number_toString g (num 366) = ''366''" "Number_toString g (num 0) = ''0''" for g
    by (simp_all add: Number_toString_num digits10_examples)
  show ?thesis
    using handler_composed[OF known i[symmetric] e sample_font refl refl]
    by (simp add: p n dayFile_examples)
qed

lemma sample_outcome_plain:
  assumes known: "RESOLUTIONS (case q_model req of None \<Rightarrow> ''default'' | Some v \<Rightarrow> v) \<noteq> Undefined"
    and date: "q_date req = None"
  shows "handler_plain sample_host req =
    (\<lparr>status = 200,
      headers =
        [(''Content-Type'', if q_format req = Some ''png'' then ''image/png'' else ''image/jpeg''),
         (''Cache-Control'', ''no-store, no-cache, must-revalidate''),
         (''X-Day-Of-Year'', ''366'')],
      body = Image [255, 216, 255]\<rparr>,
     [ResolveDate, ExistsSync ''day-366.png'', ExistsSync ''day-365.png'',
      Render \<lparr>input = ''day-365.png'',
              resize = dimensions (RESOLUTIONS (case q_model req of None \<Rightarrow> ''default'' | Some v \<Rightarrow> v)),
              composite = None,
              encode = (if q_format req = Some ''png'' then Png 6 else Jpeg 92 True)\<rparr>])"
proof -
  have i: "getDayOfYear sample_host (parseDateInTz sample_host (q_date req) (q_tz req)) = num 366"
    unfolding date sample_today getDayOfYear_calc sample_info by simp
  have p: "overlayPath sample_host (num 366) = ''day-365.png''"
    by (simp add: overlayPath_def dayFile_examples)
  have n: "Number_toString g (num 366) = ''366''" for g
    by (simp add: Number_toString_num digits10_examples)
  show ?thesis
    using handler_plain_known[OF known i[symmetric] refl refl]
    by (simp add: p n dayFile_examples)
qed

subsection \<open>The overlay of day 366\<close>

text \<open>
  C6. When the day of the year of a request is 366 and there is no \<^verbatim>\<open>day-366.png\<close>, the
  overlay selected is \<^verbatim>\<open>day-365.png\<close>, the one selected for day 365, in both revisions
  of the endpoint: sharp is called on no other file, and it is called once the file is
  there (and, in the revision with the text layer, the font is at hand). The selection
  answers with its server error exactly when \<^verbatim>\<open>day-365.png\<close> is absent as well; when it
  is present the answer is the image, unless reading the font or sharp itself throws.
\<close>

theorem day_366_falls_back_to_day_365:
  assumes known: "RESOLUTIONS (case q_model req of None \<Rightarrow> ''default'' | Some v \<Rightarrow> v) \<noteq> Undefined"
    and day: "dayOfYear (calcDateInfo env (parseDateInTz env (q_date req) (q_tz req))) = num 366"
    and missing: "\<not> existsSync env ''day-366.png''"
  shows "overlayPath env (num 366) = ''day-365.png''
    \<and> overlayPath env (num 366) = overlayPath env (num 365)
    \<and> (response (handler env cache req) =
          server_error ''No overlay image found for today. Run generate-overlays.js first.''
        \<longleftrightarrow> \<not> existsSync env ''day-365.png'')
    \<and> (fst (handler_plain env req) = server_error ''No overlay image found for today.''
        \<longleftrightarrow> \<not> existsSync env ''day-365.png'')
    \<and> (\<forall>job. Render job \<in> set (effects (handler env cache req)) \<longrightarrow> input job = ''day-365.png'')
    \<and> (\<forall>job. Render job \<in> set (snd (handler_plain env req)) \<longrightarrow> input job = ''day-365.png'')
    \<and> (existsSync env ''day-365.png'' \<longrightarrow>
          (\<exists>job. Render job \<in> set (snd (handler_plain env req)) \<and> input job = ''day-365.png'')
          \<and> ((\<forall>msg. getFontBase64 env cache \<noteq> Inl msg) \<longrightarrow>
               (\<exists>job. Render job \<in> set (effects (handler env cache req)) \<and> input job = ''day-365.png''))
          \<and> (status (response (handler env cache req)) = 200 \<or>
               (\<exists>msg. response (handler env cache req) = internal_error msg \<and>
                  (readFont env = Inl msg \<or>
                   (\<exists>job. input job = ''day-365.png'' \<and> toBuffer env job = Inl msg))))
          \<and> (status (fst (handler_plain env req)) = 200 \<or>
               (\<exists>msg job. fst (handler_plain env req) = internal_error msg \<and>
                  input job = ''day-365.png'' \<and> toBuffer env job = Inl msg)))"
proof -
  have p: "overlayPath env (num 366) = ''day-365.png''"
    using missing by (simp add: overlayPath_def dayFile_examples)
  have q: "''day-365.png'' = overlayPath env (dayOfYear (calcDateInfo env
      (parseDateInTz env (q_date req) (q_tz req))))"
    unfolding day p ..
  note h = handler_known_facts[OF known refl q refl, of cache]
  note g = handler_plain_facts[OF known refl q refl]
  have r1: "\<exists>job. Render job \<in> set (snd (handler_plain env req)) \<and> input job = ''day-365.png''"
    if "existsSync env ''day-365.png''"
    using handler_plain_renders[OF known refl q that] .
  have r2: "\<exists>job. Render job \<in> set (effects (handler env cache req)) \<and> input job = ''day-365.png''"
    if "existsSync env ''day-365.png''" "\<forall>msg. getFontBase64 env cache \<noteq> Inl msg"
  proof (cases "getFontBase64 env cache")
    case (Inl msg)
    then show ?thesis using that(2) by simp
  next
    case (Inr x)
    show ?thesis using handler_renders[OF known refl q that(1) Inr] .
  qed
  have 1: "\<forall>job. Render job \<in> set (effects (handler env cache req)) \<longrightarrow> input job = ''day-365.png''"
    using h(4) by blast
  have 2: "\<forall>job. Render job \<in> set (snd (handler_plain env req)) \<longrightarrow> input job = ''day-365.png''"
    using g(4) by blast
  show ?thesis
    using p h(3) g(3) 1 2 r1 r2 h(5) g(5) by (simp only: overlayPath_365) blast
qed

theorem day_366_falls_back_to_day_365_witness:
  "dayOfYear (calcDateInfo sample_host (parseDateInTz sample_host (q_date no_query) (q_tz no_query)))
     = num 366
   \<and> \<not> existsSync sample_host ''day-366.png''
   \<and> overlayPath sample_host (num 366) = ''day-365.png''
   \<and> status (response (handler sample_host None no_query)) = 200
   \<and> status (fst (handler_plain sample_host no_query)) = 200"
proof -
  have known: "RESOLUTIONS (case q_model no_query of None \<Rightarrow> ''default'' | Some v \<Rightarrow> v) \<noteq> Undefined"
    by (simp add: no_query_def known_default)
  have day: "dayOfYear (calcDateInfo sample_host
      (parseDateInTz sample_host (q_date no_query) (q_tz no_query))) = num 366"
    by (simp add: no_query_def sample_today sample_info)
  have missing: "\<not> existsSync sample_host ''day-366.png''" by simp
  have found: "existsSync sample_host ''day-365.png''" by simp
  note w = day_366_falls_back_to_day_365[OF known day missing, of None]
  have 1: "overlayPath sample_host (num 366) = ''day-365.png''" using w by blast
  have 2: "status (response (handler sample_host None no_query)) = 200 \<or>
      (\<exists>msg. response (handler sample_host None no_query) = internal_error msg \<and>
         (readFont sample_host = Inl msg \<or>
          (\<exists>job. input job = ''day-365.png'' \<and> toBuffer sample_host job = Inl msg)))"
    using w found by blast
  have 3: "status (fst (handler_plain sample_host no_query)) = 200 \<or>
      (\<exists>msg job. fst (handler_plain sample_host no_query) = internal_error msg \<and>
         input job = ''day-365.png'' \<and> toBuffer sample_host job = Inl msg)"
    using w found by blast
  have 4: "status (response (handler sample_host None no_query)) = 200"
    using 2 sample_never_throws by blast
  have 5: "status (fst (handler_plain sample_host no_query)) = 200"
    using 3 sample_never_throws by blast
  show ?thesis using day missing 1 4 5 by blast
qed

subsection \<open>The model check\<close>

text \<open>
  C7 fails on the code for the names that the table inherits from \<^verbatim>\<open>Object.prototype\<close>.
  \<^verbatim>\<open>constructor\<close> is not a key of \<open>RESOLUTIONS\<close>, yet \<^verbatim>\<open>RESOLUTIONS['constructor']\<close> is a
  function, which passes \<^verbatim>\<open>if (!resolution)\<close>: no host answers a request for it with
  400, every host resolves the date and looks for the overlay, and the sample host
  renders the overlay (resized to an undefined width and height) and answers 200 with the
  image bytes, in both revisions of the endpoint.
\<close>

theorem inherited_name_passes_model_check:
  "''constructor'' \<notin> set RESOLUTIONS_keys
   \<and> RESOLUTIONS ''constructor'' = Inherited
   \<and> status (response (handler env cache (req\<lparr>q_model := Some ''constructor''\<rparr>))) \<noteq> 400
   \<and> effects (handler env cache (req\<lparr>q_model := Some ''constructor''\<rparr>)) \<noteq> []
   \<and> status (fst (handler_plain env (req\<lparr>q_model := Some ''constructor''\<rparr>))) \<noteq> 400
   \<and> snd (handler_plain env (req\<lparr>q_model := Some ''constructor''\<rparr>)) \<noteq> []
   \<and> handler sample_host None (no_query\<lparr>q_model := Some ''constructor''\<rparr>) =
       \<lparr>response =
          \<lparr>status = 200,
           headers =
             [(''Content-Type'', ''image/jpeg''),
              (''Cache-Control'', ''no-store, no-cache, must-revalidate''),
              (''X-Day-Of-Year'', ''366''), (''X-Days-Left'', ''0''), (''X-Year-Percent'', ''100.0'')],
           body = Image [255, 216, 255]\<rparr>,
        effects =
          [ResolveDate, ExistsSync ''day-366.png'', ExistsSync ''day-365.png'', ReadFont,
           Render \<lparr>input = ''day-365.png'', resize = (None, None),
                   composite = Some (buildTextSvg (general sample_host) None None (num 0)
                                       ''100.0'' ''T1RUTw==''),
                   encode = Jpeg 92 True\<rparr>],
        fontCache = Some ''T1RUTw==''\<rparr>
   \<and> handler_plain sample_host (no_query\<lparr>q_model := Some ''constructor''\<rparr>) =
       (\<lparr>status = 200,
         headers =
           [(''Content-Type'', ''image/jpeg''),
            (''Cache-Control'', ''no-store, no-cache, must-revalidate''),
            (''X-Day-Of-Year'', ''366'')],
         body = Image [255, 216, 255]\<rparr>,
        [ResolveDate, ExistsSync ''day-366.png'', ExistsSync ''day-365.png'',
         Render \<lparr>input = ''day-365.png'', resize = (None, None), composite = None,
                 encode = Jpeg 92 True\<rparr>])"
proof -
  have c: "RESOLUTIONS ''constructor'' = Inherited"
    by (simp add: RESOLUTIONS_def Object_prototype_def)
  have k: "''constructor'' \<notin> set RESOLUTIONS_keys" by (simp add: RESOLUTIONS_keys_def)
  have known: "RESOLUTIONS (case q_model (r\<lparr>q_model := Some ''constructor''\<rparr>) of
      None \<Rightarrow> ''default'' | Some v \<Rightarrow> v) \<noteq> Undefined" for r :: query
    by (simp add: c)
  have m: "(case q_model (r\<lparr>q_model := Some ''constructor''\<rparr>) of
      None \<Rightarrow> ''default'' | Some v \<Rightarrow> v) = ''constructor''" for r :: query
    by simp
  have d: "dimensions Inherited = (None, None)" by (simp add: dimensions_def)
  note h = handler_known_facts[OF known[of req] refl refl refl, of env cache]
  note g = handler_plain_facts[OF known[of req] refl refl refl, of env]
  have s: "q_date (no_query\<lparr>q_model := Some ''constructor''\<rparr>) = None"
    "q_format (no_query\<lparr>q_model := Some ''constructor''\<rparr>) \<noteq> Some ''png''"
    by (simp_all add: no_query_def)
  note a = sample_outcome[OF known[of no_query] s(1), unfolded m c d]
  note b = sample_outcome_plain[OF known[of no_query] s(1), unfolded m c d]
  show ?thesis using k c h(1,2) g(1,2) a b s(2) by simp
qed

subsection \<open>Overlays that are missing\<close>

text \<open>
  C9. For a request whose model passes the check, whatever its date override: the answer
  is never 400; when the file of the computed day of the year is missing, the overlay
  selected is \<^verbatim>\<open>day-365.png\<close>, whatever the day, and the request goes on to sharp with
  it as in C6. A date override that gives an Invalid Date, such as \<^verbatim>\<open>abc\<close>, has the day
  of the year NaN and the file name \<^verbatim>\<open>day-NaN.png\<close>, and a 200 answer for it carries
  the header \<^verbatim>\<open>X-Day-Of-Year: NaN\<close>.
\<close>

theorem missing_overlay_falls_back_to_day_365:
  assumes known: "RESOLUTIONS (case q_model req of None \<Rightarrow> ''default'' | Some v \<Rightarrow> v) \<noteq> Undefined"
  shows "status (response (handler env cache req)) \<noteq> 400
    \<and> status (fst (handler_plain env req)) \<noteq> 400
    \<and> (\<not> existsSync env (dayFile env (dayOfYear (calcDateInfo env
            (parseDateInTz env (q_date req) (q_tz req))))) \<longrightarrow>
         overlayPath env (dayOfYear (calcDateInfo env (parseDateInTz env (q_date req) (q_tz req))))
           = ''day-365.png''
         \<and> (\<forall>job. Render job \<in> set (effects (handler env cache req)) \<longrightarrow> input job = ''day-365.png'')
         \<and> (\<forall>job. Render job \<in> set (snd (handler_plain env req)) \<longrightarrow> input job = ''day-365.png'')
         \<and> (response (handler env cache req) =
               server_error ''No overlay image found for today. Run generate-overlays.js first.''
             \<longleftrightarrow> \<not> existsSync env ''day-365.png'')
         \<and> (fst (handler_plain env req) = server_error ''No overlay image found for today.''
             \<longleftrightarrow> \<not> existsSync env ''day-365.png'')
         \<and> (existsSync env ''day-365.png'' \<longrightarrow>
               (\<exists>job. Render job \<in> set (snd (handler_plain env req)) \<and> input job = ''day-365.png'')
               \<and> ((\<forall>msg. getFontBase64 env cache \<noteq> Inl msg) \<longrightarrow>
                    (\<exists>job. Render job \<in> set (effects (handler env cache req)) \<and>
                       input job = ''day-365.png''))
               \<and> (status (response (handler env cache req)) = 200 \<or>
                    (\<exists>msg. response (handler env cache req) = internal_error msg \<and>
                       (readFont env = Inl msg \<or>
                        (\<exists>job. input job = ''day-365.png'' \<and> toBuffer env job = Inl msg))))
               \<and> (status (fst (handler_plain env req)) = 200 \<or>
                    (\<exists>msg job. fst (handler_plain env req) = internal_error msg \<and>
                       input job = ''day-365.png'' \<and> toBuffer env job = Inl msg))))
    \<and> (q_date req = Some ''abc'' \<longrightarrow> parseDateInTz env (q_date req) (q_tz req) = None)
    \<and> (parseDateInTz env (q_date req) (q_tz req) = None \<longrightarrow>
         dayOfYear (calcDateInfo env (parseDateInTz env (q_date req) (q_tz req))) = NaN
         \<and> getDayOfYear env (parseDateInTz env (q_date req) (q_tz req)) = NaN
         \<and> dayFile env (dayOfYear (calcDateInfo env (parseDateInTz env (q_date req) (q_tz req))))
             = ''day-NaN.png''
         \<and> (status (response (handler env cache req)) = 200 \<longrightarrow>
              map_of (headers (response (handler env cache req))) ''X-Day-Of-Year'' = Some ''NaN'')
         \<and> (status (fst (handler_plain env req)) = 200 \<longrightarrow>
              map_of (headers (fst (handler_plain env req))) ''X-Day-Of-Year'' = Some ''NaN''))"
proof -
  define doy where "doy = dayOfYear (calcDateInfo env (parseDateInTz env (q_date req) (q_tz req)))"
  note h = handler_known_facts[OF known refl refl refl, of env cache, folded doy_def]
  note g = handler_plain_facts[OF known refl refl refl, of env, folded doy_def]
  have A: "status (response (handler env cache req)) \<noteq> 400" by (rule h(1))
  have B: "status (fst (handler_plain env req)) \<noteq> 400" by (rule g(1))
  have C: "overlayPath env doy = ''day-365.png''
         \<and> (\<forall>job. Render job \<in> set (effects (handler env cache req)) \<longrightarrow> input job = ''day-365.png'')
         \<and> (\<forall>job. Render job \<in> set (snd (handler_plain env req)) \<longrightarrow> input job = ''day-365.png'')
         \<and> (response (handler env cache req) =
               server_error ''No overlay image found for today. Run generate-overlays.js first.''
             \<longleftrightarrow> \<not> existsSync env ''day-365.png'')
         \<and> (fst (handler_plain env req) = server_error ''No overlay image found for today.''
             \<longleftrightarrow> \<not> existsSync env ''day-365.png'')
         \<and> (existsSync env ''day-365.png'' \<longrightarrow>
               (\<exists>job. Render job \<in> set (snd (handler_plain env req)) \<and> input job = ''day-365.png'')
               \<and> ((\<forall>msg. getFontBase64 env cache \<noteq> Inl msg) \<longrightarrow>
                    (\<exists>job. Render job \<in> set (effects (handler env cache req)) \<and>
                       input job = ''day-365.png''))
               \<and> (status (response (handler env cache req)) = 200 \<or>
                    (\<exists>msg. response (handler env cache req) = internal_error msg \<and>
                       (readFont env = Inl msg \<or>
                        (\<exists>job. input job = ''day-365.png'' \<and> toBuffer env job = Inl msg))))
               \<and> (status (fst (handler_plain env req)) = 200 \<or>
                    (\<exists>msg job. fst (handler_plain env req) = internal_error msg \<and>
                       input job = ''day-365.png'' \<and> toBuffer env job = Inl msg)))"
    if miss: "\<not> existsSync env (dayFile env doy)"
  proof -
    have p: "overlayPath env doy = ''day-365.png''" by (rule overlayPath_missing[OF miss])
    have q: "''day-365.png'' = overlayPath env (dayOfYear (calcDateInfo env
        (parseDateInTz env (q_date req) (q_tz req))))"
      using p unfolding doy_def by simp
    have r1: "\<exists>job. Render job \<in> set (snd (handler_plain env req)) \<and> input job = ''day-365.png''"
      if "existsSync env ''day-365.png''"
      using handler_plain_renders[OF known refl q that] .
    have r2: "\<exists>job. Render job \<in> set (effects (handler env cache req)) \<and> input job = ''day-365.png''"
      if "existsSync env ''day-365.png''" "\<forall>msg. getFontBase64 env cache \<noteq> Inl msg"
    proof (cases "getFontBase64 env cache")
      case (Inl msg)
      then show ?thesis using that(2) by simp
    next
      case (Inr x)
      show ?thesis using handler_renders[OF known refl q that(1) Inr] .
    qed
    have 1: "\<forall>job. Render job \<in> set (effects (handler env cache req)) \<longrightarrow> input job = ''day-365.png''"
      using h(4) unfolding p by blast
    have 2: "\<forall>job. Render job \<in> set (snd (handler_plain env req)) \<longrightarrow> input job = ''day-365.png''"
      using g(4) unfolding p by blast
    show ?thesis using p h(3)[unfolded p] g(3)[unfolded p] 1 2 r1 r2 h(5)[unfolded p] g(5)[unfolded p]
      by blast
  qed
  have D: "q_date req = Some ''abc'' \<longrightarrow> parseDateInTz env (q_date req) (q_tz req) = None"
    by (simp add: parse_abc)
  have E: "doy = NaN \<and> getDayOfYear env (parseDateInTz env (q_date req) (q_tz req)) = NaN
         \<and> dayFile env doy = ''day-NaN.png''
         \<and> (status (response (handler env cache req)) = 200 \<longrightarrow>
              map_of (headers (response (handler env cache req))) ''X-Day-Of-Year'' = Some ''NaN'')
         \<and> (status (fst (handler_plain env req)) = 200 \<longrightarrow>
              map_of (headers (fst (handler_plain env req))) ''X-Day-Of-Year'' = Some ''NaN'')"
    if inv: "parseDateInTz env (q_date req) (q_tz req) = None"
  proof -
    have n: "doy = NaN" unfolding doy_def inv by (rule calc_invalid(1))
    have n': "getDayOfYear env (parseDateInTz env (q_date req) (q_tz req)) = NaN"
      unfolding inv by (rule calc_invalid(5))
    have f: "dayFile env doy = ''day-NaN.png''" unfolding n by (rule dayFile_examples(3))
    have 1: "map_of (headers (response (handler env cache req))) ''X-Day-Of-Year'' = Some ''NaN''"
      if "status (response (handler env cache req)) = 200"
      using h(6) that unfolding n by simp
    have 2: "map_of (headers (fst (handler_plain env req))) ''X-Day-Of-Year'' = Some ''NaN''"
      if "status (fst (handler_plain env req)) = 200"
      using g(6) that unfolding n by simp
    show ?thesis using n n' f 1 2 by blast
  qed
  show ?thesis using A B C D E unfolding doy_def by blast
qed

theorem missing_overlay_falls_back_to_day_365_witness:
  "parseDateInTz sample_host (q_date (no_query\<lparr>q_date := Some ''abc''\<rparr>))
      (q_tz (no_query\<lparr>q_date := Some ''abc''\<rparr>)) = None
   \<and> status (response (handler sample_host None (no_query\<lparr>q_date := Some ''abc''\<rparr>))) = 200
   \<and> map_of (headers (response (handler sample_host None (no_query\<lparr>q_date := Some ''abc''\<rparr>))))
        ''X-Day-Of-Year'' = Some ''NaN''
   \<and> status (fst (handler_plain sample_host (no_query\<lparr>q_date := Some ''abc''\<rparr>))) = 200
   \<and> map_of (headers (fst (handler_plain sample_host (no_query\<lparr>q_date := Some ''abc''\<rparr>))))
        ''X-Day-Of-Year'' = Some ''NaN''"
proof -
  define req where "req = no_query\<lparr>q_date := Some ''abc''\<rparr>"
  have known: "RESOLUTIONS (case q_model req of None \<Rightarrow> ''default'' | Some v \<Rightarrow> v) \<noteq> Undefined"
    by (simp add: req_def no_query_def known_default)
  note w = missing_overlay_falls_back_to_day_365[OF known, of sample_host None]
  have abc: "q_date req = Some ''abc''" by (simp add: req_def)
  have inv: "parseDateInTz sample_host (q_date req) (q_tz req) = None" using w abc by blast
  have nan: "dayFile sample_host (dayOfYear (calcDateInfo sample_host
      (parseDateInTz sample_host (q_date req) (q_tz req)))) = ''day-NaN.png''"
    using w inv by blast
  have miss: "\<not> existsSync sample_host (dayFile sample_host (dayOfYear (calcDateInfo sample_host
      (parseDateInTz sample_host (q_date req) (q_tz req)))))"
    unfolding nan by simp
  have found: "existsSync sample_host ''day-365.png''" by simp
  have 2: "status (response (handler sample_host None req)) = 200 \<or>
      (\<exists>msg. response (handler sample_host None req) = internal_error msg \<and>
         (readFont sample_host = Inl msg \<or>
          (\<exists>job. input job = ''day-365.png'' \<and> toBuffer sample_host job = Inl msg)))"
    using w miss found by blast
  have 3: "status (fst (handler_plain sample_host req)) = 200 \<or>
      (\<exists>msg job. fst (handler_plain sample_host req) = internal_error msg \<and>
         input job = ''day-365.png'' \<and> toBuffer sample_host job = Inl msg)"
    using w miss found by blast
  have 4: "status (response (handler sample_host None req)) = 200"
    using 2 sample_never_throws by blast
  have 5: "status (fst (handler_plain sample_host req)) = 200"
    using 3 sample_never_throws by blast
  have 6: "map_of (headers (response (handler sample_host None req))) ''X-Day-Of-Year'' = Some ''NaN''"
    using w inv 4 by blast
  have 7: "map_of (headers (fst (handler_plain sample_host req))) ''X-Day-Of-Year'' = Some ''NaN''"
    using w inv 5 by blast
  show ?thesis using inv 4 5 6 7 unfolding req_def by blast
qed

subsection \<open>The output format\<close>

text \<open>
  C10. For every request whose format parameter is not the string \<^verbatim>\<open>png\<close> (absent,
  \<^verbatim>\<open>jpg\<close>, \<^verbatim>\<open>webp\<close>, anything else), both revisions of the endpoint answer as they
  do when the parameter is absent, and the answer is 400 only for a model that fails the
  model check, never for the format. When the model passes the check and the overlay is
  found, sharp is called on the overlay with the JPEG encoder (quality 92, mozjpeg), in
  the revision with the text layer once the font is at hand; the bytes it returns are
  the body of the 200 answer, whose Content-Type is \<^verbatim>\<open>image/jpeg\<close>. No call of sharp
  asks for another encoder.
\<close>

theorem format_other_than_png_is_jpeg:
  assumes fmt: "q_format req \<noteq> Some ''png''"
    and model: "model = (case q_model req of None \<Rightarrow> ''default'' | Some v \<Rightarrow> v)"
    and info: "info = calcDateInfo env (parseDateInTz env (q_date req) (q_tz req))"
    and path: "path = overlayPath env (dayOfYear info)"
  shows "handler env cache req = handler env cache (req\<lparr>q_format := None\<rparr>)
    \<and> handler_plain env req = handler_plain env (req\<lparr>q_format := None\<rparr>)
    \<and> (\<forall>job. Render job \<in> set (effects (handler env cache req)) \<longrightarrow> encode job = Jpeg 92 True)
    \<and> (\<forall>job. Render job \<in> set (snd (handler_plain env req)) \<longrightarrow> encode job = Jpeg 92 True)
    \<and> (status (response (handler env cache req)) = 200 \<longrightarrow>
         map_of (headers (response (handler env cache req))) ''Content-Type'' = Some ''image/jpeg'')
    \<and> (status (fst (handler_plain env req)) = 200 \<longrightarrow>
         map_of (headers (fst (handler_plain env req))) ''Content-Type'' = Some ''image/jpeg'')
    \<and> (status (response (handler env cache req)) = 400 \<longleftrightarrow> RESOLUTIONS model = Undefined)
    \<and> (status (fst (handler_plain env req)) = 400 \<longleftrightarrow> RESOLUTIONS model = Undefined)
    \<and> (RESOLUTIONS model \<noteq> Undefined \<and> existsSync env path \<longrightarrow>
         Render \<lparr>input = path, resize = dimensions (RESOLUTIONS model), composite = None,
                 encode = Jpeg 92 True\<rparr> \<in> set (snd (handler_plain env req))
         \<and> (\<forall>imageBuffer.
               toBuffer env \<lparr>input = path, resize = dimensions (RESOLUTIONS model),
                              composite = None, encode = Jpeg 92 True\<rparr> = Inr imageBuffer \<longrightarrow>
               fst (handler_plain env req) =
                 \<lparr>status = 200,
                  headers =
                    [(''Content-Type'', ''image/jpeg''),
                     (''Cache-Control'', ''no-store, no-cache, must-revalidate''),
                     (''X-Day-Of-Year'', Number_toString (general env) (dayOfYear info))],
                  body = Image imageBuffer\<rparr>)
         \<and> (\<forall>fontBase64 cache' reads.
               getFontBase64 env cache = Inr (fontBase64, cache', reads) \<longrightarrow>
               Render \<lparr>input = path, resize = dimensions (RESOLUTIONS model),
                       composite = Some (buildTextSvg (general env)
                         (fst (dimensions (RESOLUTIONS model))) (snd (dimensions (RESOLUTIONS model)))
                         (daysLeft info) (percent info) fontBase64),
                       encode = Jpeg 92 True\<rparr> \<in> set (effects (handler env cache req))
               \<and> (\<forall>imageBuffer.
                     toBuffer env \<lparr>input = path, resize = dimensions (RESOLUTIONS model),
                       composite = Some (buildTextSvg (general env)
                         (fst (dimensions (RESOLUTIONS model))) (snd (dimensions (RESOLUTIONS model)))
                         (daysLeft info) (percent info) fontBase64),
                       encode = Jpeg 92 True\<rparr> = Inr imageBuffer \<longrightarrow>
                     response (handler env cache req) =
                       \<lparr>status = 200,
                        headers =
                          [(''Content-Type'', ''image/jpeg''),
                           (''Cache-Control'', ''no-store, no-cache, must-revalidate''),
                           (''X-Day-Of-Year'', Number_toString (general env) (dayOfYear info)),
                           (''X-Days-Left'', Number_toString (general env) (daysLeft info)),
                           (''X-Year-Percent'', percent info)],
                        body = Image imageBuffer\<rparr>)))"
proof -
  have 1: "handler env cache req = handler env cache (req\<lparr>q_format := None\<rparr>)"
    by (rule handler_format[OF fmt])
  have 2: "handler_plain env req = handler_plain env (req\<lparr>q_format := None\<rparr>)"
    by (rule handler_plain_format[OF fmt])
  show ?thesis
  proof (cases "RESOLUTIONS model = Undefined")
    case True
    then have u: "RESOLUTIONS (case q_model req of None \<Rightarrow> ''default'' | Some v \<Rightarrow> v) = Undefined"
      unfolding model .
    have a: "handler env cache req =
        \<lparr>response = bad_request (case q_model req of None \<Rightarrow> ''default'' | Some v \<Rightarrow> v),
         effects = [], fontCache = cache\<rparr>"
      by (rule handler_unknown(1)[OF u])
    have b: "handler_plain env req =
        (bad_request (case q_model req of None \<Rightarrow> ''default'' | Some v \<Rightarrow> v), [])"
      by (rule handler_unknown(2)[OF u])
    have 3: "\<forall>job. Render job \<in> set (effects (handler env cache req)) \<longrightarrow> encode job = Jpeg 92 True"
      unfolding a by simp
    have 4: "\<forall>job. Render job \<in> set (snd (handler_plain env req)) \<longrightarrow> encode job = Jpeg 92 True"
      unfolding b by simp
    have 5: "status (response (handler env cache req)) = 400" unfolding a by simp
    have 6: "status (fst (handler_plain env req)) = 400" unfolding b by simp
    show ?thesis using True 1 2 3 4 5 6 by simp
  next
    case False
    then have known: "RESOLUTIONS (case q_model req of None \<Rightarrow> ''default'' | Some v \<Rightarrow> v) \<noteq> Undefined"
      unfolding model .
    note h = handler_known_facts[OF known info path refl, of cache]
    note g = handler_plain_facts[OF known refl path[unfolded info] refl]
    have 3: "\<forall>job. Render job \<in> set (effects (handler env cache req)) \<longrightarrow> encode job = Jpeg 92 True"
      using h(4) fmt by simp
    have 4: "\<forall>job. Render job \<in> set (snd (handler_plain env req)) \<longrightarrow> encode job = Jpeg 92 True"
      using g(4) fmt by simp
    have 5: "map_of (headers (response (handler env cache req))) ''Content-Type'' = Some ''image/jpeg''"
      if "status (response (handler env cache req)) = 200"
      using h(6) that fmt by simp
    have 6: "map_of (headers (fst (handler_plain env req))) ''Content-Type'' = Some ''image/jpeg''"
      if "status (fst (handler_plain env req)) = 200"
      using g(6) that fmt by simp
    have 7: "Render \<lparr>input = path, resize = dimensions (RESOLUTIONS model), composite = None,
                 encode = Jpeg 92 True\<rparr> \<in> set (snd (handler_plain env req))
         \<and> (\<forall>imageBuffer.
               toBuffer env \<lparr>input = path, resize = dimensions (RESOLUTIONS model),
                              composite = None, encode = Jpeg 92 True\<rparr> = Inr imageBuffer \<longrightarrow>
               fst (handler_plain env req) =
                 \<lparr>status = 200,
                  headers =
                    [(''Content-Type'', ''image/jpeg''),
                     (''Cache-Control'', ''no-store, no-cache, must-revalidate''),
                     (''X-Day-Of-Year'', Number_toString (general env) (dayOfYear info))],
                  body = Image imageBuffer\<rparr>)"
      if found: "existsSync env path"
    proof -
      have d: "dayOfYear info = getDayOfYear env (parseDateInTz env (q_date req) (q_tz req))"
        unfolding info by (simp add: getDayOfYear_calc)
      define job where "job = \<lparr>input = overlayPath env (dayOfYear info),
          resize = dimensions (RESOLUTIONS (case q_model req of None \<Rightarrow> ''default'' | Some v \<Rightarrow> v)),
          composite = None,
          encode = (if q_format req = Some ''png'' then Png 6 else Jpeg 92 True)\<rparr>"
      have j: "job = \<lparr>input = path, resize = dimensions (RESOLUTIONS model), composite = None,
                 encode = Jpeg 92 True\<rparr>"
        unfolding job_def using fmt by (simp add: path model)
      note k = handler_plain_known[OF known d job_def refl]
      have e: "existsSync env (overlayPath env (dayOfYear info))" using found unfolding path .
      have r: "Render job \<in> set (snd (handler_plain env req))"
        unfolding k using e by (cases "toBuffer env job") simp_all
      have b: "fst (handler_plain env req) =
                 \<lparr>status = 200,
                  headers =
                    [(''Content-Type'', ''image/jpeg''),
                     (''Cache-Control'', ''no-store, no-cache, must-revalidate''),
                     (''X-Day-Of-Year'', Number_toString (general env) (dayOfYear info))],
                  body = Image imageBuffer\<rparr>"
        if "toBuffer env job = Inr imageBuffer" for imageBuffer
        unfolding k using e that fmt by simp
      show ?thesis using r b unfolding j by blast
    qed
    have 8: "Render \<lparr>input = path, resize = dimensions (RESOLUTIONS model),
                       composite = Some (buildTextSvg (general env)
                         (fst (dimensions (RESOLUTIONS model))) (snd (dimensions (RESOLUTIONS model)))
                         (daysLeft info) (percent info) fontBase64),
                       encode = Jpeg 92 True\<rparr> \<in> set (effects (handler env cache req))
               \<and> (\<forall>imageBuffer.
                     toBuffer env \<lparr>input = path, resize = dimensions (RESOLUTIONS model),
                       composite = Some (buildTextSvg (general env)
                         (fst (dimensions (RESOLUTIONS model))) (snd (dimensions (RESOLUTIONS model)))
                         (daysLeft info) (percent info) fontBase64),
                       encode = Jpeg 92 True\<rparr> = Inr imageBuffer \<longrightarrow>
                     response (handler env cache req) =
                       \<lparr>status = 200,
                        headers =
                          [(''Content-Type'', ''image/jpeg''),
                           (''Cache-Control'', ''no-store, no-cache, must-revalidate''),
                           (''X-Day-Of-Year'', Number_toString (general env) (dayOfYear info)),
                           (''X-Days-Left'', Number_toString (general env) (daysLeft info)),
                           (''X-Year-Percent'', percent info)],
                        body = Image imageBuffer\<rparr>)"
      if found: "existsSync env path"
        and font: "getFontBase64 env cache = Inr (fontBase64, cache', reads)"
      for fontBase64 cache' reads
    proof -
      define job where "job = \<lparr>input = overlayPath env (dayOfYear info),
          resize = dimensions (RESOLUTIONS (case q_model req of None \<Rightarrow> ''default'' | Some v \<Rightarrow> v)),
          composite = Some (buildTextSvg (general env)
            (fst (dimensions (RESOLUTIONS (case q_model req of None \<Rightarrow> ''default'' | Some v \<Rightarrow> v))))
            (snd (dimensions (RESOLUTIONS (case q_model req of None \<Rightarrow> ''default'' | Some v \<Rightarrow> v))))
            (daysLeft info) (percent info) fontBase64),
          encode = (if q_format req = Some ''png'' then Png 6 else Jpeg 92 True)\<rparr>"
      have j: "job = \<lparr>input = path, resize = dimensions (RESOLUTIONS model),
                       composite = Some (buildTextSvg (general env)
                         (fst (dimensions (RESOLUTIONS model))) (snd (dimensions (RESOLUTIONS model)))
                         (daysLeft info) (percent info) fontBase64),
                       encode = Jpeg 92 True\<rparr>"
        unfolding job_def using fmt by (simp add: path model)
      have e: "existsSync env (overlayPath env (dayOfYear info))" using found unfolding path .
      note k = handler_composed[OF known info e font job_def refl]
      have r: "Render job \<in> set (effects (handler env cache req))"
        unfolding k by (cases "toBuffer env job") simp_all
      have b: "response (handler env cache req) =
                       \<lparr>status = 200,
                        headers =
                          [(''Content-Type'', ''image/jpeg''),
                           (''Cache-Control'', ''no-store, no-cache, must-revalidate''),
                           (''X-Day-Of-Year'', Number_toString (general env) (dayOfYear info)),
                           (''X-Days-Left'', Number_toString (general env) (daysLeft info)),
                           (''X-Year-Percent'', percent info)],
                        body = Image imageBuffer\<rparr>"
        if "toBuffer env job = Inr imageBuffer" for imageBuffer
        unfolding k using that fmt by simp
      show ?thesis using r b unfolding j by blast
    qed
    show ?thesis using False 1 2 3 4 5 6 h(1) g(1) 7 8 by blast
  qed
qed

theorem format_other_than_png_is_jpeg_witness:
  "q_format (no_query\<lparr>q_format := Some ''webp''\<rparr>) \<noteq> Some ''png''
   \<and> handler sample_host None (no_query\<lparr>q_format := Some ''webp''\<rparr>) = handler sample_host None no_query
   \<and> response (handler sample_host None (no_query\<lparr>q_format := Some ''webp''\<rparr>)) =
       \<lparr>status = 200,
        headers =
          [(''Content-Type'', ''image/jpeg''),
           (''Cache-Control'', ''no-store, no-cache, must-revalidate''),
           (''X-Day-Of-Year'', ''366''), (''X-Days-Left'', ''0''), (''X-Year-Percent'', ''100.0'')],
        body = Image [255, 216, 255]\<rparr>
   \<and> Render \<lparr>input = ''day-365.png'', resize = (Some (num 1290), Some (num 2796)),
             composite = Some (buildTextSvg (general sample_host) (Some (num 1290)) (Some (num 2796))
                                 (num 0) ''100.0'' ''T1RUTw==''),
             encode = Jpeg 92 True\<rparr>
       \<in> set (effects (handler sample_host None (no_query\<lparr>q_format := Some ''webp''\<rparr>)))
   \<and> fst (handler_plain sample_host (no_query\<lparr>q_format := Some ''webp''\<rparr>)) =
       \<lparr>status = 200,
        headers =
          [(''Content-Type'', ''image/jpeg''),
           (''Cache-Control'', ''no-store, no-cache, must-revalidate''),
           (''X-Day-Of-Year'', ''366'')],
        body = Image [255, 216, 255]\<rparr>
   \<and> Render \<lparr>input = ''day-365.png'', resize = (Some (num 1290), Some (num 2796)),
             composite = None, encode = Jpeg 92 True\<rparr>
       \<in> set (snd (handler_plain sample_host (no_query\<lparr>q_format := Some ''webp''\<rparr>)))"
proof -
  define req where "req = no_query\<lparr>q_format := Some ''webp''\<rparr>"
  have fmt: "q_format req \<noteq> Some ''png''" by (simp add: req_def)
  have m: "''default'' = (case q_model req of None \<Rightarrow> ''default'' | Some v \<Rightarrow> v)"
    by (simp add: req_def no_query_def)
  have i: "\<lparr>dayOfYear = num 366, daysLeft = num 0, percent = ''100.0'', daysInYear = num 366\<rparr> =
      calcDateInfo sample_host (parseDateInTz sample_host (q_date req) (q_tz req))"
    by (simp add: req_def no_query_def sample_today sample_info)
  have p: "''day-365.png'' = overlayPath sample_host
      (dayOfYear \<lparr>dayOfYear = num 366, daysLeft = num 0, percent = ''100.0'', daysInYear = num 366\<rparr>)"
    by (simp add: overlayPath_def dayFile_examples)
  have n: "req\<lparr>q_format := None\<rparr> = no_query" by (simp add: req_def no_query_def)
  have d: "dimensions (RESOLUTIONS ''default'') = (Some (num 1290), Some (num 2796))"
    by (simp add: RESOLUTIONS_def dimensions_def)
  have s: "Number_toString g (num 366) = ''366''" "Number_toString g (num 0) = ''0''" for g
    by (simp_all add: Number_toString_num digits10_examples)
  note w = format_other_than_png_is_jpeg[OF fmt m i p, of None, unfolded n d]
  have k: "RESOLUTIONS ''default'' \<noteq> Undefined \<and> existsSync sample_host ''day-365.png''"
    by (simp add: known_default)
  have 1: "handler sample_host None req = handler sample_host None no_query"
    by (rule w[THEN conjunct1])
  note v = w[THEN conjunct2, THEN conjunct2, THEN conjunct2, THEN conjunct2, THEN conjunct2,
      THEN conjunct2, THEN conjunct2, THEN conjunct2, rule_format, OF k]
  note f = v[THEN conjunct2, THEN conjunct2, rule_format, OF sample_font]
  have 2: "Render \<lparr>input = ''day-365.png'', resize = (Some (num 1290), Some (num 2796)),
             composite = None, encode = Jpeg 92 True\<rparr> \<in> set (snd (handler_plain sample_host req))"
    by (rule v[THEN conjunct1])
  have 3: "fst (handler_plain sample_host req) =
       \<lparr>status = 200,
        headers =
          [(''Content-Type'', ''image/jpeg''),
           (''Cache-Control'', ''no-store, no-cache, must-revalidate''),
           (''X-Day-Of-Year'', ''366'')],
        body = Image [255, 216, 255]\<rparr>"
    using v[THEN conjunct2, THEN conjunct1, rule_format, of "[255, 216, 255]"] by (simp add: s)
  have 4: "Render \<lparr>input = ''day-365.png'', resize = (Some (num 1290), Some (num 2796)),
             composite = Some (buildTextSvg (general sample_host) (Some (num 1290)) (Some (num 2796))
                                 (num 0) ''100.0'' ''T1RUTw==''),
             encode = Jpeg 92 True\<rparr> \<in> set (effects (handler sample_host None req))"
    using f[THEN conjunct1] by simp
  have 5: "response (handler sample_host None req) =
       \<lparr>status = 200,
        headers =
          [(''Content-Type'', ''image/jpeg''),
           (''Cache-Control'', ''no-store, no-cache, must-revalidate''),
           (''X-Day-Of-Year'', ''366''), (''X-Days-Left'', ''0''), (''X-Year-Percent'', ''100.0'')],
        body = Image [255, 216, 255]\<rparr>"
    using f[THEN conjunct2, rule_format, of "[255, 216, 255]"] by (simp add: s)
  show ?thesis using fmt 1 2 3 4 5 unfolding req_def by blast
qed

subsection \<open>The days left after the fallback to UTC\<close>

lemma utc_fallback_today:
  "parseDateInTz east_host None tz = Some 1735603200000"
  "parseDateInTz west_host None tz = Some 1735603200000"
proof -
  have a: "\<not> truthy None" by (simp add: truthy_def)
  have z: "(case (if truthy tz then tz else None) of
             Some zone \<Rightarrow> today_in_tz east_host zone | None \<Rightarrow> None) = None"
    "(case (if truthy tz then tz else None) of
             Some zone \<Rightarrow> today_in_tz west_host zone | None \<Rightarrow> None) = None"
    by (cases tz; simp add: today_in_tz_def)+
  have c: "(0::int) \<le> 1735646400000" "(1735646400000::int) \<le> 8640000000000000" by simp_all
  have d: "(1735646400000::int) - 1735646400000 mod msPerDay = 1735603200000"
    by (simp add: msPerDay_def)
  show "parseDateInTz east_host None tz = Some 1735603200000"
    unfolding parseDateInTz_no_override[OF a] z using utc_today[OF c] d by simp
  show "parseDateInTz west_host None tz = Some 1735603200000"
    unfolding parseDateInTz_no_override[OF a] z using utc_today[OF c] d by simp
qed

lemma utc_fallback_metrics:
  "dayOfYear (calcDateInfo east_host (Some 1735603200000)) = num 366"
  "daysInYear (calcDateInfo east_host (Some 1735603200000)) = num 366"
  "daysLeft (calcDateInfo east_host (Some 1735603200000)) = num (- 1)"
  "dayOfYear (calcDateInfo west_host (Some 1735603200000)) = num 365"
  "daysInYear (calcDateInfo west_host (Some 1735603200000)) = num 366"
  "daysLeft (calcDateInfo west_host (Some 1735603200000)) = num 0"
proof -
  have y: "(2024::int) < 0 \<or> 99 < (2024::int)" "- 271820 \<le> (2024::int)" by simp_all
  have u: "(2024::int) \<le> 275759" by simp
  have v: "\<bar>1735603200000::int\<bar> \<le> 8640000000000000" by simp
  have diy: "DaysInYear 2024 = 366" by (simp add: DaysInYear_def)
  note e = calc_any[OF other_dates(11) v other_dates(1) y, unfolded other_dates(9) other_dates(4) diy]
  note w = calc_any[OF other_dates(12) v other_dates(5) y, unfolded other_dates(10) other_dates(8) diy]
  show "dayOfYear (calcDateInfo east_host (Some 1735603200000)) = num 366" using e(1) by simp
  show "daysInYear (calcDateInfo east_host (Some 1735603200000)) = num 366" using e(3) by simp
  show "daysLeft (calcDateInfo east_host (Some 1735603200000)) = num (- 1)" using e(6)[OF u] by simp
  show "dayOfYear (calcDateInfo west_host (Some 1735603200000)) = num 365" using w(1) by simp
  show "daysInYear (calcDateInfo west_host (Some 1735603200000)) = num 366" using w(3) by simp
  show "daysLeft (calcDateInfo west_host (Some 1735603200000)) = num 0" using w(6)[OF u] by simp
qed

text \<open>
  C3 fails on the code. A request with no date and no usable time zone is given the Date
  of midnight UTC of the current UTC day, and the calculator reads that Date with the
  local getters and against the local midnights of 1 January and 31 December. On a host
  whose clock is not UTC the Date is not a local midnight, and the days left come out
  one short of the days in the year minus the day of the year. At noon UTC of
  31 December 2024, five hours east of UTC the Date falls on 31 December: day 366 of
  366, and -1 days left, which the endpoint sends in \<^verbatim>\<open>X-Days-Left\<close>; five hours west
  it falls on 30 December: day 365 of 366, and 0 days left.
\<close>

theorem days_left_after_utc_fallback:
  "parseDateInTz east_host (q_date no_query) (q_tz no_query) = Some 1735603200000
   \<and> getFullYear east_host (Some 1735603200000) = num 2024
   \<and> getMonth east_host (Some 1735603200000) = num 11
   \<and> getDate east_host (Some 1735603200000) = num 31
   \<and> dayOfYear (calcDateInfo east_host (Some 1735603200000)) = num 366
   \<and> daysInYear (calcDateInfo east_host (Some 1735603200000)) = num 366
   \<and> daysLeft (calcDateInfo east_host (Some 1735603200000)) = num (- 1)
   \<and> status (response (handler east_host None no_query)) = 200
   \<and> map_of (headers (response (handler east_host None no_query))) ''X-Days-Left'' = Some ''-1''
   \<and> parseDateInTz west_host (q_date no_query) (q_tz no_query) = Some 1735603200000
   \<and> getFullYear west_host (Some 1735603200000) = num 2024
   \<and> getMonth west_host (Some 1735603200000) = num 11
   \<and> getDate west_host (Some 1735603200000) = num 30
   \<and> dayOfYear (calcDateInfo west_host (Some 1735603200000)) = num 365
   \<and> daysInYear (calcDateInfo west_host (Some 1735603200000)) = num 366
   \<and> daysLeft (calcDateInfo west_host (Some 1735603200000)) = num 0"
proof -
  have known: "RESOLUTIONS (case q_model no_query of None \<Rightarrow> ''default'' | Some v \<Rightarrow> v) \<noteq> Undefined"
    by (simp add: no_query_def known_default)
  have t: "parseDateInTz east_host (q_date no_query) (q_tz no_query) = Some 1735603200000"
    "parseDateInTz west_host (q_date no_query) (q_tz no_query) = Some 1735603200000"
    by (simp_all add: no_query_def utc_fallback_today)
  have p: "overlayPath east_host (num 366) = ''day-365.png''"
    by (simp add: overlayPath_def dayFile_examples)
  note h = handler_known_facts[OF known refl refl refl, of east_host None,
      unfolded t utc_fallback_metrics p]
  have f: "existsSync east_host ''day-365.png''" by simp
  have e: "readFont east_host \<noteq> Inl msg" "toBuffer east_host job \<noteq> Inl msg" for msg job
    by simp_all
  have s: "status (response (handler east_host None no_query)) = 200"
    using h(5) f e by blast
  have n: "Number_toString g (num (- 1)) = ''-1''" for g
    by (simp add: Number_toString_num digits10_examples)
  have x: "map_of (headers (response (handler east_host None no_query))) ''X-Days-Left'' = Some ''-1''"
    using h(6) s by (simp add: n)
  show ?thesis using t s x by (simp add: other_dates utc_fallback_metrics)
qed

end
